(* ===== verification/Prelude.thy ===== *)
theory Prelude
  imports Main "HOL-Library.State_Monad"
begin

text \<open>
  Shared vocabulary of the development: Go's machine integers and maps as they
  appear in the operator, the state-passing programs of the controllers, and a
  small Hoare calculus for them. Nothing here is specific to HyperbyteDB.
\<close>

section \<open>Collections of rules\<close>

named_theorems go_eval \<open>defining equations used to evaluate the model on concrete inputs\<close>
named_theorems spec_simps \<open>field-level equations of the API objects\<close>
named_theorems triple_intro \<open>introduction rules of the Hoare calculus\<close>

section \<open>Machine integers\<close>

text \<open>
  Go's \<^verbatim>\<open>int32\<close>, \<^verbatim>\<open>int64\<close> and \<^verbatim>\<open>uint64\<close> values are kept as \<^typ>\<open>int\<close>; every arithmetic
  step of the source that can leave the range is wrapped explicitly.
\<close>

definition i32 :: "int \<Rightarrow> int" where
  "i32 x = (x + 2147483648) mod 4294967296 - 2147483648"

definition u64 :: "int \<Rightarrow> int" where
  "u64 x = x mod 18446744073709551616"

definition in_i32 :: "int \<Rightarrow> bool" where
  "in_i32 x \<longleftrightarrow> - 2147483648 \<le> x \<and> x < 2147483648"

lemma i32_id [simp]: "in_i32 x \<Longrightarrow> i32 x = x"
  by (simp add: i32_def in_i32_def)

lemma i32_range [simp]: "in_i32 (i32 x)"
proof -
  have "0 \<le> (x + 2147483648) mod 4294967296" "(x + 2147483648) mod 4294967296 < 4294967296"
    by simp_all
  then show ?thesis unfolding in_i32_def i32_def by linarith
qed

lemma u64_id [simp]: "0 \<le> x \<Longrightarrow> x < 18446744073709551616 \<Longrightarrow> u64 x = x"
  by (simp add: u64_def)

text \<open>Go's integer division truncates towards zero; Isabelle's \<open>div\<close> rounds down.\<close>

definition quot :: "int \<Rightarrow> int \<Rightarrow> int" where
  "quot a b = sgn a * sgn b * (\<bar>a\<bar> div \<bar>b\<bar>)"

lemma quot_nonneg [simp]: "0 \<le> a \<Longrightarrow> 0 < b \<Longrightarrow> quot a b = a div b"
  by (cases "a = 0") (simp_all add: quot_def)

section \<open>Maps with string keys\<close>

text \<open>
  A Go \<^verbatim>\<open>map[string]string\<close> is a partial function; reading a missing key yields the
  zero value. \<^verbatim>\<open>maps.Copy(dst, src)\<close> is \<open>dst ++ src\<close>.
\<close>

type_synonym strmap = "string \<rightharpoonup> string"

definition mget :: "strmap \<Rightarrow> string \<Rightarrow> string" where
  "mget m k = (case m k of None \<Rightarrow> [] | Some v \<Rightarrow> v)"

lemma mget_upd [simp]: "mget (m(k \<mapsto> v)) k' = (if k' = k then v else mget m k')"
  by (simp add: mget_def)

lemma mget_empty [simp]: "mget Map.empty k = []"
  by (simp add: mget_def)

section \<open>Options and sums\<close>

definition deref :: "'a \<Rightarrow> 'a option \<Rightarrow> 'a" where
  "deref d p = (case p of None \<Rightarrow> d | Some v \<Rightarrow> v)"

lemma deref_simps [simp]: "deref d None = d" "deref d (Some v) = v"
  by (simp_all add: deref_def)

definition isOk :: "'e + 'a \<Rightarrow> bool" where
  "isOk r = (case r of Inl _ \<Rightarrow> False | Inr _ \<Rightarrow> True)"

lemma isOk_simps [simp]: "isOk (Inr a)" "\<not> isOk (Inl e)"
  by (simp_all add: isOk_def)

lemma isOk_iff: "isOk r \<longleftrightarrow> (\<exists>a. r = Inr a)"
  by (cases r) auto

section \<open>Ordinals\<close>

text \<open>
  The ordinals \<open>lo, \<dots>, hi - 1\<close> in the order a \<^verbatim>\<open>for i := lo; i < hi; i++\<close> loop visits
  them, and in the order of the downward loop \<^verbatim>\<open>for i := hi - 1; i >= lo; i--\<close>.
\<close>

definition ords_up :: "int \<Rightarrow> int \<Rightarrow> int list" where
  "ords_up lo hi = [lo..hi - 1]"

definition ords_down :: "int \<Rightarrow> int \<Rightarrow> int list" where
  "ords_down hi lo = rev [lo..hi - 1]"

lemma set_ords [simp]:
  "set (ords_up lo hi) = {lo..<hi}" "set (ords_down hi lo) = {lo..<hi}"
  by (auto simp: ords_up_def ords_down_def)

lemma distinct_ords [simp]: "distinct (ords_up lo hi)" "distinct (ords_down hi lo)"
  by (simp_all add: ords_up_def ords_down_def)

lemma ords_empty [simp]: "hi \<le> lo \<Longrightarrow> ords_up lo hi = []" "hi \<le> lo \<Longrightarrow> ords_down hi lo = []"
  by (simp_all add: ords_up_def ords_down_def)

lemma sorted_ords_up [simp]: "sorted (ords_up lo hi)"
  by (simp add: ords_up_def)

lemma length_ords [simp]: "length (ords_up lo hi) = nat (hi - lo)"
  by (simp add: ords_up_def)

section \<open>State-passing programs\<close>

abbreviation ret :: "'a \<Rightarrow> ('s, 'a) state" where
  "ret \<equiv> State_Monad.return"

text \<open>A loop whose body performs effects and returns nothing (Go \<^verbatim>\<open>for range\<close>).\<close>

fun forEach :: "'a list \<Rightarrow> ('a \<Rightarrow> ('s, unit) state) \<Rightarrow> ('s, unit) state" where
  "forEach [] f = ret ()"
| "forEach (x # xs) f = do { f x; forEach xs f }"

text \<open>A loop that stops at the first error its body returns.\<close>

fun forErr :: "'a list \<Rightarrow> ('a \<Rightarrow> ('s, 'e + unit) state) \<Rightarrow> ('s, 'e + unit) state" where
  "forErr [] f = ret (Inr ())"
| "forErr (x # xs) f = do {
     r \<leftarrow> f x;
     case r of Inl e \<Rightarrow> ret (Inl e) | Inr _ \<Rightarrow> forErr xs f }"

text \<open>A loop that collects one result per element.\<close>

fun collect :: "'a list \<Rightarrow> ('a \<Rightarrow> ('s, 'b) state) \<Rightarrow> ('s, 'b list) state" where
  "collect [] f = ret []"
| "collect (x # xs) f = do { y \<leftarrow> f x; ys \<leftarrow> collect xs f; ret (y # ys) }"

section \<open>A Hoare calculus\<close>

text \<open>
  \<open>triple P m Q\<close>: started in a state satisfying \<open>P\<close>, the program \<open>m\<close> returns a value
  and a state satisfying \<open>Q\<close>. Programs are total, so partial and total correctness
  coincide.
\<close>

definition triple ::
  "('s \<Rightarrow> bool) \<Rightarrow> ('s, 'a) state \<Rightarrow> ('a \<Rightarrow> 's \<Rightarrow> bool) \<Rightarrow> bool" where
  "triple P m Q \<longleftrightarrow> (\<forall>s. P s \<longrightarrow> (case run_state m s of (a, t) \<Rightarrow> Q a t))"

lemma tripleI: "(\<And>s a t. P s \<Longrightarrow> run_state m s = (a, t) \<Longrightarrow> Q a t) \<Longrightarrow> triple P m Q"
  by (auto simp: triple_def)

lemma tripleD: "triple P m Q \<Longrightarrow> P s \<Longrightarrow> run_state m s = (a, t) \<Longrightarrow> Q a t"
  by (auto simp: triple_def)

lemma triple_return [triple_intro]: "(\<And>s. P s \<Longrightarrow> Q a s) \<Longrightarrow> triple P (ret a) Q"
  by (simp add: triple_def)

lemma triple_bind:
  assumes "triple P m R" and "\<And>a. triple (R a) (f a) Q"
  shows "triple P (State_Monad.bind m f) Q"
proof (rule tripleI)
  fix s b t
  assume P: "P s" and run: "run_state (State_Monad.bind m f) s = (b, t)"
  obtain a u where m: "run_state m s = (a, u)" by fastforce
  with run have "run_state (f a) u = (b, t)" by simp
  with tripleD [OF assms(1) P m] tripleD [OF assms(2)] show "Q b t" by blast
qed

lemma triple_weaken: "triple P m Q' \<Longrightarrow> (\<And>a s. Q' a s \<Longrightarrow> Q a s) \<Longrightarrow> triple P m Q"
  by (fastforce simp: triple_def split: prod.splits)

lemma triple_pre: "triple P' m Q \<Longrightarrow> (\<And>s. P s \<Longrightarrow> P' s) \<Longrightarrow> triple P m Q"
  by (auto simp: triple_def)

lemma triple_if [triple_intro]:
  "(b \<Longrightarrow> triple P m Q) \<Longrightarrow> (\<not> b \<Longrightarrow> triple P n Q) \<Longrightarrow> triple P (if b then m else n) Q"
  by simp

lemma triple_sum [triple_intro]:
  "(\<And>e. r = Inl e \<Longrightarrow> triple P (f e) Q) \<Longrightarrow> (\<And>a. r = Inr a \<Longrightarrow> triple P (g a) Q) \<Longrightarrow>
   triple P (case r of Inl e \<Rightarrow> f e | Inr a \<Rightarrow> g a) Q"
  by (cases r) simp_all

lemma triple_option [triple_intro]:
  "(r = None \<Longrightarrow> triple P m Q) \<Longrightarrow> (\<And>a. r = Some a \<Longrightarrow> triple P (g a) Q) \<Longrightarrow>
   triple P (case r of None \<Rightarrow> m | Some a \<Rightarrow> g a) Q"
  by (cases r) simp_all

lemma triple_prod [triple_intro]:
  "(\<And>a b. r = (a, b) \<Longrightarrow> triple P (f a b) Q) \<Longrightarrow> triple P (case r of (a, b) \<Rightarrow> f a b) Q"
  by (cases r) simp

subsection \<open>Invariants of a program\<close>

text \<open>\<open>keeps I m\<close>: every run of \<open>m\<close> preserves \<open>I\<close>, whatever it returns.\<close>

definition keeps :: "('s \<Rightarrow> bool) \<Rightarrow> ('s, 'a) state \<Rightarrow> bool" where
  "keeps I m \<longleftrightarrow> (\<forall>s. I s \<longrightarrow> I (snd (run_state m s)))"

named_theorems keeps_intro \<open>preservation of a state predicate by program constructors\<close>

lemma keepsD: "keeps I m \<Longrightarrow> I s \<Longrightarrow> run_state m s = (a, t) \<Longrightarrow> I t"
  unfolding keeps_def by (metis snd_conv)

lemma keepsI: "(\<And>s a t. I s \<Longrightarrow> run_state m s = (a, t) \<Longrightarrow> I t) \<Longrightarrow> keeps I m"
  unfolding keeps_def by (metis prod.collapse)

lemma keeps_triple: "keeps I m \<longleftrightarrow> triple I m (\<lambda>_. I)"
  by (simp add: keeps_def triple_def case_prod_beta)

lemma keeps_return [keeps_intro]: "keeps I (ret a)"
  by (simp add: keeps_def)

lemma keeps_bind [keeps_intro]:
  "keeps I m \<Longrightarrow> (\<And>a. keeps I (f a)) \<Longrightarrow> keeps I (State_Monad.bind m f)"
  by (auto simp: keeps_def split: prod.splits)

lemma keeps_if [keeps_intro]:
  "(b \<Longrightarrow> keeps I m) \<Longrightarrow> (\<not> b \<Longrightarrow> keeps I n) \<Longrightarrow> keeps I (if b then m else n)"
  by simp

lemma keeps_sum [keeps_intro]:
  "(\<And>e. r = Inl e \<Longrightarrow> keeps I (f e)) \<Longrightarrow> (\<And>a. r = Inr a \<Longrightarrow> keeps I (g a)) \<Longrightarrow>
   keeps I (case r of Inl e \<Rightarrow> f e | Inr a \<Rightarrow> g a)"
  by (cases r) simp_all

lemma keeps_option [keeps_intro]:
  "(r = None \<Longrightarrow> keeps I m) \<Longrightarrow> (\<And>a. r = Some a \<Longrightarrow> keeps I (g a)) \<Longrightarrow>
   keeps I (case r of None \<Rightarrow> m | Some a \<Rightarrow> g a)"
  by (cases r) simp_all

lemma keeps_prod [keeps_intro]:
  "(\<And>a b. r = (a, b) \<Longrightarrow> keeps I (f a b)) \<Longrightarrow> keeps I (case r of (a, b) \<Rightarrow> f a b)"
  by (cases r) simp

lemma keeps_list [keeps_intro]:
  "(r = [] \<Longrightarrow> keeps I m) \<Longrightarrow> (\<And>x xs. r = x # xs \<Longrightarrow> keeps I (g x xs)) \<Longrightarrow>
   keeps I (case r of [] \<Rightarrow> m | x # xs \<Rightarrow> g x xs)"
  by (cases r) simp_all

lemma keeps_let [keeps_intro]: "keeps I (f a) \<Longrightarrow> keeps I (let x = a in f x)"
  by simp

lemma keeps_forEach [keeps_intro]:
  "(\<And>x. x \<in> set xs \<Longrightarrow> keeps I (f x)) \<Longrightarrow> keeps I (forEach xs f)"
  by (induction xs) (auto intro: keeps_intro)

lemma keeps_forErr [keeps_intro]:
  "(\<And>x. x \<in> set xs \<Longrightarrow> keeps I (f x)) \<Longrightarrow> keeps I (forErr xs f)"
  by (induction xs) (auto intro!: keeps_intro)

lemma keeps_collect [keeps_intro]:
  "(\<And>x. x \<in> set xs \<Longrightarrow> keeps I (f x)) \<Longrightarrow> keeps I (collect xs f)"
  by (induction xs) (auto intro!: keeps_intro)

end
