(* ===== verification/Go_Strings.thy ===== *)
theory Go_Strings
  imports Prelude
begin

text \<open>
  The parts of Go's standard library on strings that the operator uses: \<^verbatim>\<open>%d\<close> and
  \<^verbatim>\<open>%t\<close> formatting, and \<^verbatim>\<open>strings.TrimPrefix\<close>, \<^verbatim>\<open>TrimSuffix\<close>, \<^verbatim>\<open>TrimSpace\<close>, \<^verbatim>\<open>Trim\<close>,
  \<^verbatim>\<open>Index\<close>, \<^verbatim>\<open>LastIndex\<close>, \<^verbatim>\<open>Contains\<close>, \<^verbatim>\<open>Join\<close>. A string is its list of bytes; the
  whitespace of \<^verbatim>\<open>TrimSpace\<close> is the ASCII whitespace (Kubernetes object names, image
  references and versions are ASCII).
\<close>

section \<open>Formatting\<close>

definition digit :: "nat \<Rightarrow> char" where
  "digit n = char_of (48 + n)"

fun dec_nat :: "nat \<Rightarrow> string" where
  "dec_nat n = (if n < 10 then [digit n] else dec_nat (n div 10) @ [digit (n mod 10)])"

declare dec_nat.simps [simp del]

text \<open>\<^verbatim>\<open>fmt.Sprintf("%d", i)\<close>\<close>

definition dec :: "int \<Rightarrow> string" where
  "dec i = (if i < 0 then CHR ''-'' # dec_nat (nat (- i)) else dec_nat (nat i))"

text \<open>The same on binary integers, for evaluation.\<close>

function dec_int :: "int \<Rightarrow> string" where
  "dec_int i = (if i < 10 then [char_of (48 + i)] else dec_int (i div 10) @ [char_of (48 + i mod 10)])"
  by pat_completeness auto
termination by (relation "measure nat") auto

declare dec_int.simps [simp del]

lemma char_of_int: "0 \<le> i \<Longrightarrow> char_of (48 + i) = digit (nat i)"
proof -
  assume "0 \<le> i"
  then obtain n where "i = int n" by (metis nonneg_int_cases)
  moreover have "char_of (of_nat (48 + n) :: int) = (char_of (48 + n) :: char)"
    by (rule char_of_nat)
  ultimately show ?thesis by (simp add: digit_def)
qed

lemma dec_int_nat: "0 \<le> i \<Longrightarrow> dec_int i = dec_nat (nat i)"
proof (induction i rule: dec_int.induct)
  case (1 i)
  show ?case
  proof (cases "i < 10")
    case True
    then have "nat i < 10" by simp
    with True "1.prems" show ?thesis
      by (simp add: dec_int.simps [of i] dec_nat.simps [of "nat i"] char_of_int)
  next
    case False
    then have "\<not> nat i < 10" by simp
    with False 1 show ?thesis
      by (subst dec_int.simps, subst dec_nat.simps)
         (simp add: char_of_int nat_div_distrib nat_mod_distrib)
  qed
qed

lemma dec_code [code]: "dec i = (if i < 0 then CHR ''-'' # dec_int (- i) else dec_int i)"
  by (simp add: dec_def dec_int_nat)

text \<open>\<^verbatim>\<open>fmt.Sprintf("%t", b)\<close>\<close>

definition fmt_t :: "bool \<Rightarrow> string" where
  "fmt_t b = (if b then ''true'' else ''false'')"

definition NL :: string where "NL = [CHR 0x0A]"

definition dquote :: "string \<Rightarrow> string" where
  "dquote s = [CHR 0x22] @ s @ [CHR 0x22]"

definition is_digit_char :: "char \<Rightarrow> bool" where
  "is_digit_char c \<longleftrightarrow> 48 \<le> (of_char c :: nat) \<and> (of_char c :: nat) \<le> 57"

lemma of_char_digit [simp]: "n < 10 \<Longrightarrow> of_char (digit n) = 48 + n"
  by (simp add: digit_def)

lemma digit_inj: "m < 10 \<Longrightarrow> n < 10 \<Longrightarrow> digit m = digit n \<Longrightarrow> m = n"
  by (metis add_left_cancel of_char_digit)

lemma dec_nat_nonempty [simp]: "dec_nat n \<noteq> []"
  by (subst dec_nat.simps) simp

lemma dec_nat_digits: "c \<in> set (dec_nat n) \<Longrightarrow> is_digit_char c"
proof (induction n rule: dec_nat.induct)
  case (1 n)
  show ?case
  proof (cases "n < 10")
    case True
    with "1.prems" have "c = digit n" by (simp add: dec_nat.simps [of n])
    with True show ?thesis by (simp add: is_digit_char_def)
  next
    case False
    with "1.prems" have "c \<in> set (dec_nat (n div 10)) \<or> c = digit (n mod 10)"
      by (auto simp: dec_nat.simps [of n])
    with False "1.IH" show ?thesis by (auto simp: is_digit_char_def)
  qed
qed

text \<open>Printing loses nothing: a value can be read back.\<close>

definition undec_nat :: "string \<Rightarrow> nat" where
  "undec_nat s = foldl (\<lambda>a c. 10 * a + (of_char c - 48)) 0 s"

lemma undec_nat_append [simp]:
  "undec_nat (s @ [c]) = 10 * undec_nat s + (of_char c - 48)"
  by (simp add: undec_nat_def)

lemma undec_dec_nat [simp]: "undec_nat (dec_nat n) = n"
proof (induction n rule: dec_nat.induct)
  case (1 n)
  show ?case
  proof (cases "n < 10")
    case True
    have "undec_nat [digit n] = n"
      using True by (simp add: undec_nat_def)
    with True show ?thesis by (simp add: dec_nat.simps [of n])
  next
    case False
    with "1" show ?thesis by (simp add: dec_nat.simps [of n])
  qed
qed

lemma dec_nat_inj [simp]: "dec_nat m = dec_nat n \<longleftrightarrow> m = n"
  by (metis undec_dec_nat)

lemma minus_not_digit: "CHR ''-'' \<notin> set (dec_nat n)"
  using dec_nat_digits [of "CHR ''-''" n] by (auto simp: is_digit_char_def)

lemma dec_inj [simp]: "dec a = dec b \<longleftrightarrow> a = b"
proof
  assume eq: "dec a = dec b"
  have "hd (dec_nat k) \<noteq> CHR ''-''" for k
    using minus_not_digit [of k] hd_in_set [of "dec_nat k"] by fastforce
  then have "(a < 0) = (b < 0)"
    using eq by (metis dec_def list.sel(1))
  with eq show "a = b"
    by (auto simp: dec_def split: if_splits)
qed simp

lemma dec_nonempty [simp]: "dec i \<noteq> []"
  by (simp add: dec_def)

lemma dec_chars: "c \<in> set (dec i) \<Longrightarrow> is_digit_char c \<or> c = CHR ''-''"
  by (auto simp: dec_def dest: dec_nat_digits split: if_splits)

section \<open>Prefixes, suffixes, trimming\<close>

definition has_prefix :: "string \<Rightarrow> string \<Rightarrow> bool" where
  "has_prefix s p \<longleftrightarrow> take (length p) s = p"

definition has_suffix :: "string \<Rightarrow> string \<Rightarrow> bool" where
  "has_suffix s p \<longleftrightarrow> length p \<le> length s \<and> drop (length s - length p) s = p"

definition TrimPrefix :: "string \<Rightarrow> string \<Rightarrow> string" where
  "TrimPrefix s p = (if has_prefix s p then drop (length p) s else s)"

definition TrimSuffix :: "string \<Rightarrow> string \<Rightarrow> string" where
  "TrimSuffix s p = (if has_suffix s p then take (length s - length p) s else s)"

definition trim_with :: "(char \<Rightarrow> bool) \<Rightarrow> string \<Rightarrow> string" where
  "trim_with p s = rev (dropWhile p (rev (dropWhile p s)))"

definition is_space :: "char \<Rightarrow> bool" where
  "is_space c \<longleftrightarrow> c \<in> {CHR 0x09, CHR 0x0A, CHR 0x0B, CHR 0x0C, CHR 0x0D, CHR 0x20}"

definition TrimSpace :: "string \<Rightarrow> string" where
  "TrimSpace s = trim_with is_space s"

definition TrimCut :: "string \<Rightarrow> string \<Rightarrow> string" where
  "TrimCut s cutset = trim_with (\<lambda>c. c \<in> set cutset) s"

lemma trim_with_id: "\<forall>c\<in>set s. \<not> p c \<Longrightarrow> trim_with p s = s"
proof -
  assume "\<forall>c\<in>set s. \<not> p c"
  then have "dropWhile p s = s" "dropWhile p (rev s) = rev s"
    by (auto simp: dropWhile_eq_self_iff hd_rev)
  then show ?thesis by (simp add: trim_with_def)
qed

lemma trim_with_idem [simp]: "trim_with p (trim_with p s) = trim_with p s"
proof -
  define u where "u = dropWhile p (rev (dropWhile p s))"
  have last: "u \<noteq> [] \<Longrightarrow> \<not> p (last u)"
  proof -
    assume ne: "u \<noteq> []"
    obtain w where w: "rev (dropWhile p s) = w @ u"
      by (metis u_def takeWhile_dropWhile_id)
    then have "dropWhile p s = rev u @ rev w" by (metis rev_append rev_rev_ident)
    with ne have "hd (dropWhile p s) = last u" and "dropWhile p s \<noteq> []"
      by (simp_all add: hd_rev)
    then show ?thesis by (metis hd_dropWhile)
  qed
  have first: "u \<noteq> [] \<Longrightarrow> \<not> p (hd u)"
    unfolding u_def by (rule hd_dropWhile)
  have "dropWhile p (rev u) = rev u"
    using last by (cases u rule: rev_cases) (auto simp: hd_rev)
  moreover have "dropWhile p u = u"
    using first by (cases u) auto
  moreover have "trim_with p s = rev u" by (simp add: trim_with_def u_def)
  ultimately show ?thesis by (simp add: trim_with_def)
qed

lemma TrimSpace_idem [simp]: "TrimSpace (TrimSpace s) = TrimSpace s"
  by (simp add: TrimSpace_def)

lemma set_trim_with: "set (trim_with p s) \<subseteq> set s"
  by (auto simp: trim_with_def dest!: set_dropWhileD)

lemma TrimPrefix_none: "hd s \<noteq> c \<Longrightarrow> TrimPrefix s [c] = s"
  by (cases s) (auto simp: TrimPrefix_def has_prefix_def)

section \<open>Searching\<close>

text \<open>
  \<open>Index\<close> is the first position of the substring, \<open>LastIndex\<close> the last, \<open>-1\<close> when it
  does not occur.
\<close>

fun index_from :: "int \<Rightarrow> string \<Rightarrow> string \<Rightarrow> int" where
  "index_from i sub [] = (if sub = [] then i else -1)"
| "index_from i sub (c # s) = (if has_prefix (c # s) sub then i else index_from (i + 1) sub s)"

definition Index :: "string \<Rightarrow> string \<Rightarrow> int" where
  "Index s sub = index_from 0 sub s"

fun last_index_from :: "int \<Rightarrow> int \<Rightarrow> string \<Rightarrow> string \<Rightarrow> int" where
  "last_index_from best i sub [] = (if sub = [] then i else best)"
| "last_index_from best i sub (c # s) =
     last_index_from (if has_prefix (c # s) sub then i else best) (i + 1) sub s"

definition LastIndex :: "string \<Rightarrow> string \<Rightarrow> int" where
  "LastIndex s sub = last_index_from (-1) 0 sub s"

definition Contains :: "string \<Rightarrow> string \<Rightarrow> bool" where
  "Contains s sub \<longleftrightarrow> 0 \<le> Index s sub"

text \<open>\<^verbatim>\<open>strings.Join(elems, sep)\<close>\<close>

fun Join :: "string list \<Rightarrow> string \<Rightarrow> string" where
  "Join [] sep = []"
| "Join [x] sep = x"
| "Join (x # y # ys) sep = x @ sep @ Join (y # ys) sep"

lemma has_prefix_char [simp]: "has_prefix (c # s) [d] \<longleftrightarrow> c = d"
  by (simp add: has_prefix_def)

lemma has_prefix_Nil [simp]: "\<not> has_prefix [] [d]"
  by (simp add: has_prefix_def)

lemma index_from_char:
  "index_from i [d] s = (if d \<in> set s then i + int (length (takeWhile (\<lambda>c. c \<noteq> d) s)) else -1)"
  by (induction s arbitrary: i) auto

lemma Index_char: "Index s [d] = (if d \<in> set s then int (length (takeWhile (\<lambda>c. c \<noteq> d) s)) else -1)"
  by (simp add: Index_def index_from_char)

lemma Contains_char [simp]: "Contains s [d] \<longleftrightarrow> d \<in> set s"
  by (simp add: Contains_def Index_char)

lemma last_index_from_char_none:
  "d \<notin> set s \<Longrightarrow> last_index_from b i [d] s = b"
  by (induction s arbitrary: b i) auto

lemma last_index_from_char_app:
  "d \<notin> set t \<Longrightarrow> last_index_from b i [d] (s @ d # t) = i + int (length s)"
  by (induction s arbitrary: b i) (auto simp: last_index_from_char_none)

lemma LastIndex_char_none: "d \<notin> set s \<Longrightarrow> LastIndex s [d] = -1"
  by (simp add: LastIndex_def last_index_from_char_none)

lemma LastIndex_char_app: "d \<notin> set t \<Longrightarrow> LastIndex (s @ d # t) [d] = int (length s)"
  by (simp add: LastIndex_def last_index_from_char_app)

lemma LastIndex_char_split:
  assumes "d \<in> set s"
  obtains u t where "s = u @ d # t" "d \<notin> set t" "LastIndex s [d] = int (length u)"
  by (metis assms split_list_last LastIndex_char_app)

end
