(* ===== verification/K8s_Types.thy ===== *)
theory K8s_Types
  imports Go_Strings
begin

text \<open>
  The Kubernetes API objects the operator reads and writes, with the fields it uses.
  These types belong to \<^verbatim>\<open>k8s.io/api\<close> and \<^verbatim>\<open>k8s.io/apimachinery\<close>; values the operator
  only passes through (tolerations, resource requirements, a user's affinity) are
  opaque. Errors returned by the Kubernetes client carry the reason the operator's
  \<^verbatim>\<open>apierrors\<close> predicates test.
\<close>

section \<open>Errors\<close>

datatype api_reason = NotFound | Conflict | AlreadyExists | OtherReason

datatype err =
    ApiErr api_reason string     \<comment> \<open>an error of the Kubernetes API\<close>
  | PlainErr string              \<comment> \<open>\<^verbatim>\<open>fmt.Errorf\<close> without a wrapped error, or a transport error\<close>
  | WrapErr string err           \<comment> \<open>\<^verbatim>\<open>fmt.Errorf("...: %w", err)\<close>\<close>
  | ErrNotLeader "int option"    \<comment> \<open>\<^verbatim>\<open>hyperbytedb.ErrNotLeader\<close>\<close>
  | NilDeref                     \<comment> \<open>a nil pointer was dereferenced: the goroutine panics\<close>
  | MakeSlice                    \<comment> \<open>\<^verbatim>\<open>make\<close> with a negative capacity: the goroutine panics\<close>

text \<open>The \<^verbatim>\<open>apierrors.Is*\<close> predicates look through wrapping (\<^verbatim>\<open>errors.As\<close>).\<close>

fun reason_of :: "err \<Rightarrow> api_reason option" where
  "reason_of (ApiErr r _) = Some r"
| "reason_of (WrapErr _ e) = reason_of e"
| "reason_of _ = None"

definition IsNotFound :: "err \<Rightarrow> bool" where "IsNotFound e \<longleftrightarrow> reason_of e = Some NotFound"
definition IsConflict :: "err \<Rightarrow> bool" where "IsConflict e \<longleftrightarrow> reason_of e = Some Conflict"
definition IsAlreadyExists :: "err \<Rightarrow> bool" where
  "IsAlreadyExists e \<longleftrightarrow> reason_of e = Some AlreadyExists"

fun err_text :: "err \<Rightarrow> string" where
  "err_text (ApiErr _ m) = m"
| "err_text (PlainErr m) = m"
| "err_text (WrapErr p e) = p @ '': '' @ err_text e"
| "err_text (ErrNotLeader None) = ''target node is not the raft leader (leader unknown)''"
| "err_text (ErrNotLeader (Some i)) =
     ''target node is not the raft leader (leader_id='' @ dec i @ '')''"
| "err_text NilDeref = ''runtime error: invalid memory address or nil pointer dereference''"
| "err_text MakeSlice = ''runtime error: makeslice: cap out of range''"

type_synonym 'a result = "err + 'a"

section \<open>Metadata and conditions\<close>

type_synonym time = int      \<comment> \<open>nanoseconds\<close>
type_synonym opaque = string
type_synonym quantity = int  \<comment> \<open>the amount of a \<^verbatim>\<open>resource.Quantity\<close>\<close>

datatype intstr = IntVal int | StrVal string

record nn =
  NN_Namespace :: string
  NN_Name :: string

record object_meta =
  Meta_Name :: string
  Meta_Namespace :: string
  Meta_Labels :: strmap
  Meta_Annotations :: strmap
  Meta_Finalizers :: "string list"
  Meta_DeletionTimestamp :: "time option"
  Meta_Generation :: int
  Meta_Owners :: "string list"

definition new_meta :: "string \<Rightarrow> string \<Rightarrow> strmap \<Rightarrow> object_meta" where
  "new_meta n ns l = \<lparr> Meta_Name = n, Meta_Namespace = ns, Meta_Labels = l,
     Meta_Annotations = Map.empty, Meta_Finalizers = [], Meta_DeletionTimestamp = None,
     Meta_Generation = 0, Meta_Owners = [] \<rparr>"

lemma new_meta_simps [simp]:
  "Meta_Name (new_meta n ns l) = n" "Meta_Namespace (new_meta n ns l) = ns"
  "Meta_Labels (new_meta n ns l) = l" "Meta_Annotations (new_meta n ns l) = Map.empty"
  "Meta_Owners (new_meta n ns l) = []"
  by (simp_all add: new_meta_def)

datatype cond_status = ConditionTrue | ConditionFalse | ConditionUnknown

record condition =
  Cond_Type :: string
  Cond_Status :: cond_status
  Cond_Reason :: string
  Cond_Message :: string
  Cond_LastTransitionTime :: "time option"
  Cond_ObservedGeneration :: int

section \<open>Pods\<close>

datatype env_source =
    EnvValue string
  | EnvSecretKey string string   \<comment> \<open>Secret name, key\<close>
  | EnvField string

record env_var =
  Env_Name :: string
  Env_Source :: env_source

record container_port =
  CP_Name :: string
  CP_Port :: int

record volume_mount =
  VM_Name :: string
  VM_Path :: string
  VM_ReadOnly :: bool

record probe =
  Probe_Path :: string
  Probe_Port :: string           \<comment> \<open>the name of a container port\<close>
  Probe_Scheme :: string
  Probe_InitialDelay :: int
  Probe_Period :: int
  Probe_Timeout :: int
  Probe_FailureThreshold :: int

datatype volume_source =
    VolConfigMap string
  | VolEmptyDir
  | VolSecret string
  | VolClaim string bool
  | VolOther opaque

record volume =
  Vol_Name :: string
  Vol_Source :: volume_source

datatype affinity =
    UserAffinity opaque
  | PreferSpread int strmap string  \<comment> \<open>weight, label selector, topology key of a preferred pod anti-affinity\<close>

record container =
  C_Name :: string
  C_Image :: string
  C_PullPolicy :: string
  C_Command :: "string list"
  C_Env :: "env_var list"
  C_Ports :: "container_port list"
  C_VolumeMounts :: "volume_mount list"
  C_StartupProbe :: "probe option"
  C_LivenessProbe :: "probe option"
  C_ReadinessProbe :: "probe option"
  C_Resources :: opaque
  C_PreStop :: "string list option"

record pod_spec =
  PS_GracePeriodSeconds :: "int option"
  PS_ImagePullSecrets :: "string list"
  PS_InitContainers :: "container list"
  PS_Containers :: "container list"
  PS_Volumes :: "volume list"
  PS_Tolerations :: "opaque list"
  PS_Affinity :: "affinity option"
  PS_TopologySpread :: "opaque list"
  PS_RestartPolicy :: string

record pod_template =
  T_Labels :: strmap
  T_Annotations :: strmap
  T_Spec :: pod_spec

record pod =
  Pod_Meta :: object_meta
  Pod_IP :: string
  Pod_Conditions :: "(string \<times> cond_status) list"
  Pod_ContainerStatuses :: "(string \<times> bool) list"   \<comment> \<open>name, and whether \<^verbatim>\<open>State.Running\<close> is set\<close>

section \<open>Workloads and services\<close>

record pvc =
  PVC_Meta :: object_meta
  PVC_AccessModes :: "string list"
  PVC_Storage :: quantity
  PVC_StorageClassName :: "string option"

record rolling_update =
  RU_Partition :: "int option"

record sts =
  Sts_Meta :: object_meta
  Sts_Replicas :: "int option"
  Sts_ServiceName :: string
  Sts_Selector :: strmap
  Sts_PodManagementPolicy :: string
  Sts_UpdateType :: string
  Sts_RollingUpdate :: "rolling_update option"
  Sts_Template :: pod_template
  Sts_VolumeClaimTemplates :: "pvc list"
  StsS_Replicas :: int
  StsS_ReadyReplicas :: int
  StsS_UpdatedReplicas :: int
  StsS_CurrentRevision :: string
  StsS_UpdateRevision :: string

record deployment =
  Dep_Meta :: object_meta
  Dep_Replicas :: "int option"
  Dep_Selector :: strmap
  Dep_StrategyType :: string
  Dep_MaxUnavailable :: "intstr option"
  Dep_MaxSurge :: "intstr option"
  Dep_Template :: pod_template

record service_port =
  SP_Name :: string
  SP_Port :: int
  SP_TargetPort :: string
  SP_NodePort :: int

record service =
  Svc_Meta :: object_meta
  Svc_Type :: string
  Svc_ClusterIP :: string
  Svc_Selector :: strmap
  Svc_PublishNotReady :: bool
  Svc_Ports :: "service_port list"

record secret =
  Sec_Meta :: object_meta
  Sec_Type :: string
  Sec_Data :: strmap

record config_map =
  CM_Meta :: object_meta
  CM_Data :: strmap

record pdb =
  PDB_Meta :: object_meta
  PDB_MinAvailable :: intstr
  PDB_Selector :: strmap

record hpa =
  HPA_Meta :: object_meta
  HPA_TargetKind :: string
  HPA_TargetName :: string
  HPA_MinReplicas :: int
  HPA_MaxReplicas :: int
  HPA_TargetCPU :: int

record service_monitor =
  SM_Meta :: object_meta
  SM_Selector :: strmap
  SM_Port :: string
  SM_Path :: string
  SM_Interval :: string
  SM_Namespaces :: "string list"

record job =
  Job_Meta :: object_meta
  Job_BackoffLimit :: int
  Job_Pod :: pod_spec
  Job_Succeeded :: int
  Job_Failed :: int

record cron_job =
  CJ_Meta :: object_meta
  CJ_Schedule :: string
  CJ_JobBackoffLimit :: int
  CJ_JobPod :: pod_spec
  CJ_SuccessfulJobsHistoryLimit :: int
  CJ_FailedJobsHistoryLimit :: int

end
