(* ===== verification/Api_Types.thy ===== *)
theory Api_Types
  imports K8s_Types
begin

text \<open>
  The operator's own API, \<^verbatim>\<open>api/v1alpha1\<close>: the HyperbytedbCluster, HyperbytedbBackup and
  HyperbytedbRestore resources, field by field. A pointer field is an \<open>option\<close>, an
  integer field an \<^typ>\<open>int\<close>; the prefix of a field names its struct. The zero values at
  the end are Go's zero values of the structs.
\<close>

section \<open>HyperbytedbCluster: the spec\<close>

record CertManagerIssuerRef =
  Ref_Name :: string
  Ref_Kind :: string
  Ref_Group :: string

record TLSSpec =
  TLS_Enabled :: bool
  TLS_SecretName :: string
  TLS_CertManagerIssuerRef :: "CertManagerIssuerRef option"

record ServerSpec =
  Server_Port :: int
  Server_MaxBodySizeBytes :: int
  Server_RequestTimeoutSecs :: int
  Server_QueryTimeoutSecs :: int
  Server_MaxConcurrentQueries :: int
  Server_TLS :: "TLSSpec option"

record PersistentVolumeClaimSpec =
  VCT_StorageClassName :: "string option"
  VCT_Size :: quantity

record StorageSpec =
  Storage_VolumeClaimTemplate :: "PersistentVolumeClaimSpec option"
  Storage_WALFormat :: string

record FlushSpec =
  Flush_IntervalSecs :: int
  Flush_MaxPointsPerBatch :: int
  Flush_WALBatchSize :: int
  Flush_WALBatchDelayUs :: int
  Flush_ArrowWALEnabled :: "bool option"

record ChDBSpec =
  ChDB_SessionDataPath :: string
  ChDB_PoolSize :: int
  ChDB_QueryPoolSize :: int
  ChDB_WritePoolSize :: int

record AuthSpec =
  Auth_Enabled :: bool
  Auth_CredentialsSecretName :: string

record LoggingSpec =
  Logging_Level :: string
  Logging_Format :: string

record SyncQuorumSpec =
  SQ_MinAcks :: "intstr option"

record ReplicationSpec =
  Repl_Mode :: string
  Repl_AckTimeoutMs :: int
  Repl_SyncQuorum :: "SyncQuorumSpec option"

record ClusterTuningSpec =
  Tune_HeartbeatIntervalSecs :: int
  Tune_HeartbeatMissThreshold :: int
  Tune_ReplicationMaxRetries :: int
  Tune_RaftHeartbeatIntervalMs :: int
  Tune_RaftElectionTimeoutMs :: int
  Tune_RaftSnapshotThreshold :: int
  Tune_ReplicationQueueDepth :: int
  Tune_ReplicationMaxInflightBatches :: int
  Tune_ReplicationMaxCoalesceBodyBytes :: int
  Tune_ReplicateReceiverQueueDepth :: int
  Tune_ReplicationTruncateStalePeerMultiplier :: int
  Tune_Replication :: "ReplicationSpec option"
  Tune_TLS :: "TLSSpec option"
  Tune_DrainWaitSecs :: int

record ShardingSpec =
  Shard_Enabled :: bool
  Shard_ReplicationFactor :: int
  Shard_RegionSplitSeries :: int
  Shard_RegionMaxSeries :: int
  Shard_RegionMergeSeries :: int
  Shard_SplitMergeIntervalSecs :: int
  Shard_ScheduleLimit :: int
  Shard_HeartbeatIntervalSecs :: int
  Shard_BootstrapTimeoutMs :: int
  Shard_PrimaryFailoverAfterSecs :: int
  Shard_ScatterPeerTimeoutMs :: int
  Shard_ScatterMaxPeerAttempts :: int
  Shard_AddPeerProposalsEnabled :: "bool option"
  Shard_RemovePeerProposalsEnabled :: "bool option"
  Shard_LoadSplitQpsThreshold :: "int option"
  Shard_MaxRegionsPerMeasurement :: int

record CardinalitySpec =
  Card_MaxTagValuesPerMeasurement :: int
  Card_MaxMeasurementsPerDatabase :: int

record StatementSummarySpec =
  SS_Enabled :: "bool option"
  SS_MaxEntries :: int

record HintedHandoffSpec =
  HH_Enabled :: "bool option"
  HH_MaxHintsPerPeer :: int
  HH_MaxHintAgeSecs :: int

record RetentionSpec =
  Ret_Enabled :: "bool option"
  Ret_Interval :: string

record RateLimitSpec =
  RL_Enabled :: "bool option"
  RL_MaxRequestsPerSecond :: int

record MonitoringSpec =
  Mon_Enabled :: bool
  Mon_ServiceMonitor :: bool

record AutoscalingSpec =
  AS_Enabled :: bool
  AS_MinReplicas :: int
  AS_MaxReplicas :: int
  AS_TargetCPUUtilizationPercentage :: int

record FailoverSpec =
  Fail_Enabled :: bool
  Fail_MaxFailoverCount :: int
  Fail_FailoverTimeoutSecs :: int

record ProxySpec =
  Proxy_Enabled :: bool
  Proxy_Image :: string
  Proxy_ImagePullPolicy :: string
  Proxy_ImagePullSecrets :: "string list"
  Proxy_Replicas :: "int option"
  Proxy_Port :: int
  Proxy_HealthPath :: string
  Proxy_HoldTimeoutSecs :: int
  Proxy_MaxRetries :: int
  Proxy_ShutdownGraceSecs :: int
  Proxy_RequestTimeoutSecs :: int
  Proxy_Resources :: opaque
  Proxy_ServiceType :: string
  Proxy_NodePort :: int
  Proxy_PodAnnotations :: strmap
  Proxy_PodLabels :: strmap

record HyperbytedbClusterSpec =
  Spec_Replicas :: "int option"
  Spec_Image :: string
  Spec_Version :: string
  Spec_ImagePullPolicy :: string
  Spec_ImagePullSecrets :: "string list"
  Spec_Paused :: bool
  Spec_Server :: ServerSpec
  Spec_Storage :: StorageSpec
  Spec_Flush :: FlushSpec
  Spec_ChDB :: ChDBSpec
  Spec_Auth :: AuthSpec
  Spec_Logging :: LoggingSpec
  Spec_Resources :: opaque
  Spec_Cluster :: ClusterTuningSpec
  Spec_Sharding :: "ShardingSpec option"
  Spec_Cardinality :: CardinalitySpec
  Spec_StatementSummary :: StatementSummarySpec
  Spec_HintedHandoff :: HintedHandoffSpec
  Spec_RateLimit :: RateLimitSpec
  Spec_Retention :: RetentionSpec
  Spec_Monitoring :: MonitoringSpec
  Spec_Autoscaling :: "AutoscalingSpec option"
  Spec_Failover :: "FailoverSpec option"
  Spec_Proxy :: "ProxySpec option"
  Spec_PodAnnotations :: strmap
  Spec_PodLabels :: strmap
  Spec_Affinity :: "opaque option"
  Spec_TopologySpreadConstraints :: "opaque list"
  Spec_Tolerations :: "opaque list"
  Spec_AdditionalVolumes :: "volume list"
  Spec_AdditionalVolumeMounts :: "volume_mount list"

section \<open>HyperbytedbCluster: the status\<close>

datatype ClusterPhase =
    ClusterPhaseUnset | ClusterPhasePending | ClusterPhaseInitializing | ClusterPhaseRunning
  | ClusterPhaseScaling | ClusterPhaseUpgrading | ClusterPhaseFailed

datatype RollingRestartPhase =
    RollingRestartExcluding | RollingRestartDraining | RollingRestartWaitingReady
  | RollingRestartIncluding | RollingRestartCompleted | RollingRestartOther string

record RollingRestartState =
  RR_CurrentOrdinal :: int
  RR_TotalOrdinals :: int
  RR_Phase :: RollingRestartPhase
  RR_PhaseStartedAt :: time
  RR_OldPodIP :: string
  RR_ExcludeConfirmed :: bool

record MemberStatus =
  Mem_Name :: string
  Mem_NodeID :: int
  Mem_PodName :: string
  Mem_State :: string
  Mem_Health :: bool
  Mem_WALSequence :: int
  Mem_ParquetFiles :: int
  Mem_PeerCount :: int
  Mem_LastTransitionTime :: time

record HyperbytedbClusterStatus =
  Status_Phase :: ClusterPhase
  Status_Replicas :: int
  Status_ReadyReplicas :: int
  Status_ClusterState :: string
  Status_ReplicationState :: string
  Status_Members :: "MemberStatus list"
  Status_FailoverCount :: int
  Status_ConfigHash :: string
  Status_RollingRestart :: "RollingRestartState option"
  Status_Conditions :: "condition list"

record HyperbytedbCluster =
  Meta :: object_meta
  Spec :: HyperbytedbClusterSpec
  Status :: HyperbytedbClusterStatus

section \<open>HyperbytedbBackup and HyperbytedbRestore\<close>

record S3BackupSpec =
  S3_Bucket :: string
  S3_Prefix :: string
  S3_Region :: string
  S3_Endpoint :: string
  S3_CredentialsSecretName :: string

record HyperbytedbBackupSpec =
  BSpec_ClusterName :: string
  BSpec_Schedule :: string
  BSpec_Destination :: S3BackupSpec
  BSpec_RetentionDays :: int
  BSpec_Databases :: "string list"

datatype BackupPhase =
    BackupPhaseUnset | BackupPhasePending | BackupPhaseRunning | BackupPhaseCompleted | BackupPhaseFailed

record HyperbytedbBackupStatus =
  BStat_Phase :: BackupPhase
  BStat_StartTime :: "time option"
  BStat_CompletionTime :: "time option"
  BStat_BackupSize :: string
  BStat_BackupPath :: string
  BStat_LastCleanupTime :: "time option"
  BStat_Conditions :: "condition list"

record HyperbytedbBackup =
  BMeta :: object_meta
  BSpec :: HyperbytedbBackupSpec
  BStatus :: HyperbytedbBackupStatus

record HyperbytedbRestoreSpec =
  RSpec_ClusterName :: string
  RSpec_BackupName :: string
  RSpec_Source :: "S3BackupSpec option"
  RSpec_RestoreTimestamp :: "time option"

datatype RestorePhase =
    RestorePhaseUnset | RestorePhasePending | RestorePhaseScaleDown | RestorePhaseRestoring
  | RestorePhaseCompleted | RestorePhaseFailed

fun restore_phase_text :: "RestorePhase \<Rightarrow> string" where
  "restore_phase_text RestorePhaseUnset = []"
| "restore_phase_text RestorePhasePending = ''Pending''"
| "restore_phase_text RestorePhaseScaleDown = ''ScalingDown''"
| "restore_phase_text RestorePhaseRestoring = ''Restoring''"
| "restore_phase_text RestorePhaseCompleted = ''Completed''"
| "restore_phase_text RestorePhaseFailed = ''Failed''"

record HyperbytedbRestoreStatus =
  RStat_Phase :: RestorePhase
  RStat_StartTime :: "time option"
  RStat_CompletionTime :: "time option"
  RStat_RestoredPVCs :: int
  RStat_Conditions :: "condition list"

record HyperbytedbRestore =
  RMeta :: object_meta
  RSpec :: HyperbytedbRestoreSpec
  RStatus :: HyperbytedbRestoreStatus

section \<open>Zero values\<close>

definition zero_ServerSpec :: ServerSpec where
  "zero_ServerSpec = \<lparr> Server_Port = 0, Server_MaxBodySizeBytes = 0, Server_RequestTimeoutSecs = 0,
     Server_QueryTimeoutSecs = 0, Server_MaxConcurrentQueries = 0, Server_TLS = None \<rparr>"

definition zero_ClusterTuningSpec :: ClusterTuningSpec where
  "zero_ClusterTuningSpec = \<lparr> Tune_HeartbeatIntervalSecs = 0, Tune_HeartbeatMissThreshold = 0,
     Tune_ReplicationMaxRetries = 0, Tune_RaftHeartbeatIntervalMs = 0, Tune_RaftElectionTimeoutMs = 0,
     Tune_RaftSnapshotThreshold = 0, Tune_ReplicationQueueDepth = 0,
     Tune_ReplicationMaxInflightBatches = 0, Tune_ReplicationMaxCoalesceBodyBytes = 0,
     Tune_ReplicateReceiverQueueDepth = 0, Tune_ReplicationTruncateStalePeerMultiplier = 0,
     Tune_Replication = None, Tune_TLS = None, Tune_DrainWaitSecs = 0 \<rparr>"

definition zero_ProxySpec :: ProxySpec where
  "zero_ProxySpec = \<lparr> Proxy_Enabled = False, Proxy_Image = [], Proxy_ImagePullPolicy = [],
     Proxy_ImagePullSecrets = [], Proxy_Replicas = None, Proxy_Port = 0, Proxy_HealthPath = [],
     Proxy_HoldTimeoutSecs = 0, Proxy_MaxRetries = 0, Proxy_ShutdownGraceSecs = 0,
     Proxy_RequestTimeoutSecs = 0, Proxy_Resources = [], Proxy_ServiceType = [], Proxy_NodePort = 0,
     Proxy_PodAnnotations = Map.empty, Proxy_PodLabels = Map.empty \<rparr>"

definition zero_ShardingSpec :: ShardingSpec where
  "zero_ShardingSpec = \<lparr> Shard_Enabled = False, Shard_ReplicationFactor = 0,
     Shard_RegionSplitSeries = 0, Shard_RegionMaxSeries = 0, Shard_RegionMergeSeries = 0,
     Shard_SplitMergeIntervalSecs = 0, Shard_ScheduleLimit = 0, Shard_HeartbeatIntervalSecs = 0,
     Shard_BootstrapTimeoutMs = 0, Shard_PrimaryFailoverAfterSecs = 0, Shard_ScatterPeerTimeoutMs = 0,
     Shard_ScatterMaxPeerAttempts = 0, Shard_AddPeerProposalsEnabled = None,
     Shard_RemovePeerProposalsEnabled = None, Shard_LoadSplitQpsThreshold = None,
     Shard_MaxRegionsPerMeasurement = 0 \<rparr>"

definition zero_ClusterSpec :: HyperbytedbClusterSpec where
  "zero_ClusterSpec = \<lparr> Spec_Replicas = None, Spec_Image = [], Spec_Version = [],
     Spec_ImagePullPolicy = [], Spec_ImagePullSecrets = [], Spec_Paused = False,
     Spec_Server = zero_ServerSpec,
     Spec_Storage = \<lparr> Storage_VolumeClaimTemplate = None, Storage_WALFormat = [] \<rparr>,
     Spec_Flush = \<lparr> Flush_IntervalSecs = 0, Flush_MaxPointsPerBatch = 0, Flush_WALBatchSize = 0,
       Flush_WALBatchDelayUs = 0, Flush_ArrowWALEnabled = None \<rparr>,
     Spec_ChDB = \<lparr> ChDB_SessionDataPath = [], ChDB_PoolSize = 0, ChDB_QueryPoolSize = 0,
       ChDB_WritePoolSize = 0 \<rparr>,
     Spec_Auth = \<lparr> Auth_Enabled = False, Auth_CredentialsSecretName = [] \<rparr>,
     Spec_Logging = \<lparr> Logging_Level = [], Logging_Format = [] \<rparr>,
     Spec_Resources = [], Spec_Cluster = zero_ClusterTuningSpec, Spec_Sharding = None,
     Spec_Cardinality = \<lparr> Card_MaxTagValuesPerMeasurement = 0, Card_MaxMeasurementsPerDatabase = 0 \<rparr>,
     Spec_StatementSummary = \<lparr> SS_Enabled = None, SS_MaxEntries = 0 \<rparr>,
     Spec_HintedHandoff = \<lparr> HH_Enabled = None, HH_MaxHintsPerPeer = 0, HH_MaxHintAgeSecs = 0 \<rparr>,
     Spec_RateLimit = \<lparr> RL_Enabled = None, RL_MaxRequestsPerSecond = 0 \<rparr>,
     Spec_Retention = \<lparr> Ret_Enabled = None, Ret_Interval = [] \<rparr>,
     Spec_Monitoring = \<lparr> Mon_Enabled = False, Mon_ServiceMonitor = False \<rparr>,
     Spec_Autoscaling = None, Spec_Failover = None, Spec_Proxy = None,
     Spec_PodAnnotations = Map.empty, Spec_PodLabels = Map.empty, Spec_Affinity = None,
     Spec_TopologySpreadConstraints = [], Spec_Tolerations = [], Spec_AdditionalVolumes = [],
     Spec_AdditionalVolumeMounts = [] \<rparr>"

definition zero_ClusterStatus :: HyperbytedbClusterStatus where
  "zero_ClusterStatus = \<lparr> Status_Phase = ClusterPhaseUnset, Status_Replicas = 0,
     Status_ReadyReplicas = 0, Status_ClusterState = [], Status_ReplicationState = [],
     Status_Members = [], Status_FailoverCount = 0, Status_ConfigHash = [],
     Status_RollingRestart = None, Status_Conditions = [] \<rparr>"

definition new_cluster :: "string \<Rightarrow> string \<Rightarrow> HyperbytedbCluster" where
  "new_cluster n ns =
     \<lparr> Meta = new_meta n ns Map.empty, Spec = zero_ClusterSpec, Status = zero_ClusterStatus \<rparr>"

lemmas zero_defs = zero_ServerSpec_def zero_ClusterTuningSpec_def zero_ProxySpec_def
  zero_ShardingSpec_def zero_ClusterSpec_def zero_ClusterStatus_def new_cluster_def new_meta_def

section \<open>Access paths\<close>

abbreviation Name :: "HyperbytedbCluster \<Rightarrow> string" where "Name c \<equiv> Meta_Name (Meta c)"
abbreviation Namespace :: "HyperbytedbCluster \<Rightarrow> string" where "Namespace c \<equiv> Meta_Namespace (Meta c)"
abbreviation Annotations :: "HyperbytedbCluster \<Rightarrow> strmap" where "Annotations c \<equiv> Meta_Annotations (Meta c)"

text \<open>
  The replica count every part of the operator computes from the spec: 1 unless
  \<^verbatim>\<open>spec.replicas\<close> is set.
\<close>

definition replicas_of :: "HyperbytedbCluster \<Rightarrow> int" where
  "replicas_of c = deref 1 (Spec_Replicas (Spec c))"

definition with_replicas :: "int option \<Rightarrow> HyperbytedbCluster \<Rightarrow> HyperbytedbCluster" where
  "with_replicas r c = c\<lparr> Spec := (Spec c)\<lparr> Spec_Replicas := r \<rparr> \<rparr>"

lemma with_replicas_simps [simp, spec_simps]:
  "Meta (with_replicas r c) = Meta c" "Status (with_replicas r c) = Status c"
  "Spec_Replicas (Spec (with_replicas r c)) = r"
  "Spec_Image (Spec (with_replicas r c)) = Spec_Image (Spec c)"
  "Spec_Version (Spec (with_replicas r c)) = Spec_Version (Spec c)"
  "Spec_Server (Spec (with_replicas r c)) = Spec_Server (Spec c)"
  "Spec_Storage (Spec (with_replicas r c)) = Spec_Storage (Spec c)"
  "Spec_Flush (Spec (with_replicas r c)) = Spec_Flush (Spec c)"
  "Spec_ChDB (Spec (with_replicas r c)) = Spec_ChDB (Spec c)"
  "Spec_Auth (Spec (with_replicas r c)) = Spec_Auth (Spec c)"
  "Spec_Logging (Spec (with_replicas r c)) = Spec_Logging (Spec c)"
  "Spec_Cluster (Spec (with_replicas r c)) = Spec_Cluster (Spec c)"
  "Spec_Sharding (Spec (with_replicas r c)) = Spec_Sharding (Spec c)"
  "Spec_Cardinality (Spec (with_replicas r c)) = Spec_Cardinality (Spec c)"
  "Spec_StatementSummary (Spec (with_replicas r c)) = Spec_StatementSummary (Spec c)"
  "Spec_HintedHandoff (Spec (with_replicas r c)) = Spec_HintedHandoff (Spec c)"
  "Spec_RateLimit (Spec (with_replicas r c)) = Spec_RateLimit (Spec c)"
  "Spec_Retention (Spec (with_replicas r c)) = Spec_Retention (Spec c)"
  "Spec_Proxy (Spec (with_replicas r c)) = Spec_Proxy (Spec c)"
  by (simp_all add: with_replicas_def)

end
