(* ===== verification/Naming.thy ===== *)
theory Naming
  imports Api_Types
begin

text \<open>
  Names, labels, ports and images: \<^verbatim>\<open>internal/hyperbytedb/labels.go\<close>, \<^verbatim>\<open>image.go\<close> and the
  naming functions of \<^verbatim>\<open>service.go\<close>, \<^verbatim>\<open>statefulset.go\<close>, \<^verbatim>\<open>configmap.go\<close>, \<^verbatim>\<open>proxy.go\<close>,
  \<^verbatim>\<open>auth.go\<close>, \<^verbatim>\<open>tls.go\<close>; the per-ordinal pod, host and volume names the controllers build
  with \<^verbatim>\<open>fmt.Sprintf\<close>. The lemmas show that names of different ordinals never collide
  and how an image reference is put together and taken apart again.
\<close>

section \<open>Labels and names\<close>

definition CommonLabels :: "HyperbytedbCluster \<Rightarrow> strmap" where
  "CommonLabels c =
     [''app.kubernetes.io/name'' \<mapsto> ''hyperbytedb'',
      ''app.kubernetes.io/instance'' \<mapsto> Name c,
      ''app.kubernetes.io/managed-by'' \<mapsto> ''hyperbytedb-operator'']"

definition proxyLabels :: "HyperbytedbCluster \<Rightarrow> strmap" where
  "proxyLabels c =
     [''app.kubernetes.io/name'' \<mapsto> ''hyperbytedb-proxy'',
      ''app.kubernetes.io/instance'' \<mapsto> Name c,
      ''app.kubernetes.io/managed-by'' \<mapsto> ''hyperbytedb-operator'',
      ''app.kubernetes.io/component'' \<mapsto> ''proxy'']"

definition StatefulSetName :: "HyperbytedbCluster \<Rightarrow> string" where
  "StatefulSetName c = Name c"

definition HeadlessServiceName :: "HyperbytedbCluster \<Rightarrow> string" where
  "HeadlessServiceName c = Name c @ ''-headless''"

definition ClientServiceName :: "HyperbytedbCluster \<Rightarrow> string" where
  "ClientServiceName c = Name c"

definition ConfigMapName :: "HyperbytedbCluster \<Rightarrow> string" where
  "ConfigMapName c = Name c @ ''-config''"

definition ProxyDeploymentName :: "HyperbytedbCluster \<Rightarrow> string" where
  "ProxyDeploymentName c = Name c @ ''-proxy''"

definition ProxyServiceName :: "HyperbytedbCluster \<Rightarrow> string" where
  "ProxyServiceName c = Name c @ ''-proxy''"

definition ProxyServiceAddr :: "HyperbytedbCluster \<Rightarrow> string" where
  "ProxyServiceAddr c = ProxyServiceName c @ ''.'' @ Namespace c @ ''.svc.cluster.local''"

definition AuthSecretName :: "HyperbytedbCluster \<Rightarrow> string" where
  "AuthSecretName c =
     (if Auth_CredentialsSecretName (Spec_Auth (Spec c)) \<noteq> []
      then Auth_CredentialsSecretName (Spec_Auth (Spec c))
      else Name c @ ''-auth'')"

definition TLSSecretName :: "HyperbytedbCluster \<Rightarrow> string" where
  "TLSSecretName c =
     (case Server_TLS (Spec_Server (Spec c)) of
        Some t \<Rightarrow> if TLS_SecretName t \<noteq> [] then TLS_SecretName t else Name c @ ''-tls''
      | None \<Rightarrow> Name c @ ''-tls'')"

text \<open>
  The names the controllers format per ordinal: a pod, its stable DNS name behind the
  headless Service, the address advertised to Raft and the claim of its data volume.
\<close>

definition pod_name :: "HyperbytedbCluster \<Rightarrow> int \<Rightarrow> string" where
  "pod_name c i = StatefulSetName c @ ''-'' @ dec i"

definition pod_host :: "HyperbytedbCluster \<Rightarrow> int \<Rightarrow> string" where
  "pod_host c i =
     StatefulSetName c @ ''-'' @ dec i @ ''.'' @ HeadlessServiceName c @ ''.'' @ Namespace c
       @ ''.svc.cluster.local''"

definition pvc_name :: "HyperbytedbCluster \<Rightarrow> int \<Rightarrow> string" where
  "pvc_name c i = ''data-'' @ StatefulSetName c @ ''-'' @ dec i"

definition nn_of :: "HyperbytedbCluster \<Rightarrow> string \<Rightarrow> nn" where
  "nn_of c n = \<lparr> NN_Namespace = Namespace c, NN_Name = n \<rparr>"

section \<open>Ports\<close>

definition ServerPort :: "HyperbytedbCluster \<Rightarrow> int" where
  "ServerPort c = (if Server_Port (Spec_Server (Spec c)) > 0 then Server_Port (Spec_Server (Spec c)) else 8086)"

definition ControlPort :: "HyperbytedbCluster \<Rightarrow> int" where
  "ControlPort c = i32 (ServerPort c + 1)"

definition proxyPort :: "HyperbytedbCluster \<Rightarrow> int" where
  "proxyPort c =
     (case Spec_Proxy (Spec c) of
        Some p \<Rightarrow> if Proxy_Port p > 0 then Proxy_Port p else ServerPort c
      | None \<Rightarrow> ServerPort c)"

definition ProxyEnabled :: "HyperbytedbCluster \<Rightarrow> bool" where
  "ProxyEnabled c = (case Spec_Proxy (Spec c) of None \<Rightarrow> True | Some p \<Rightarrow> Proxy_Enabled p)"

section \<open>Images\<close>

definition defaultHyperbytedbRepo :: string where
  "defaultHyperbytedbRepo = ''hyperbytedb''"
definition defaultProxyRepo :: string where
  "defaultProxyRepo = ''ghcr.io/hyperbyte-cloud/hyperbytedb-proxy''"
definition defaultImageTag :: string where
  "defaultImageTag = ''latest''"

definition NormalizeVersionTag :: "string \<Rightarrow> string" where
  "NormalizeVersionTag version =
     (let v = TrimSpace version in if v = [] then defaultImageTag else TrimPrefix v ''v'')"

definition resolveComponentImage :: "string \<Rightarrow> string \<Rightarrow> string \<Rightarrow> string" where
  "resolveComponentImage imageField version defaultRepo =
     (let tag = (if version \<noteq> [] then NormalizeVersionTag version else defaultImageTag);
          img = TrimSpace imageField
      in if img = [] then defaultRepo @ '':'' @ tag
         else if Contains img '':'' then img
         else img @ '':'' @ tag)"

definition ResolveHyperbytedbImage :: "HyperbytedbCluster \<Rightarrow> string" where
  "ResolveHyperbytedbImage c =
     resolveComponentImage (Spec_Image (Spec c)) (Spec_Version (Spec c)) defaultHyperbytedbRepo"

definition ResolveProxyImage :: "HyperbytedbCluster \<Rightarrow> string" where
  "ResolveProxyImage c =
     resolveComponentImage (case Spec_Proxy (Spec c) of None \<Rightarrow> [] | Some p \<Rightarrow> Proxy_Image p)
       (Spec_Version (Spec c)) defaultProxyRepo"

text \<open>\<^verbatim>\<open>imageTag\<close> of \<^verbatim>\<open>compat.go\<close>: the tag of an image reference, empty without one.\<close>

definition imageTag :: "string \<Rightarrow> string" where
  "imageTag image0 =
     (let image1 = TrimSpace image0;
          at = Index image1 ''@'';
          image = (if at \<ge> 0 then take (nat at) image1 else image1);
          slash = LastIndex image ''/'';
          colon = LastIndex image '':''
      in if colon \<le> slash then [] else drop (nat (colon + 1)) image)"

section \<open>Names identify ordinals\<close>

lemma pod_name_inj [simp]: "pod_name c i = pod_name c j \<longleftrightarrow> i = j"
  by (simp add: pod_name_def)

lemma pvc_name_inj [simp]: "pvc_name c i = pvc_name c j \<longleftrightarrow> i = j"
  by (simp add: pvc_name_def)

lemma dot_not_in_dec: "CHR ''.'' \<notin> set (dec i)"
  using dec_chars [of "CHR ''.''" i] by (auto simp: is_digit_char_def)

lemma append_sep_inj:
  assumes "x \<notin> set a" "x \<notin> set b" "a @ x # u = b @ x # v"
  shows "a = b \<and> u = v"
proof -
  have "takeWhile (\<lambda>y. y \<noteq> x) (a @ x # u) = a" "takeWhile (\<lambda>y. y \<noteq> x) (b @ x # v) = b"
    using assms(1,2) by (auto simp: takeWhile_append takeWhile_eq_all_conv)
  with assms(3) have "a = b" by simp
  with assms(3) show ?thesis by simp
qed

lemma pod_host_inj [simp]: "pod_host c i = pod_host c j \<longleftrightarrow> i = j"
proof
  assume "pod_host c i = pod_host c j"
  then have "dec i @ CHR ''.'' # (HeadlessServiceName c @ ''.'' @ Namespace c @ ''.svc.cluster.local'')
      = dec j @ CHR ''.'' # (HeadlessServiceName c @ ''.'' @ Namespace c @ ''.svc.cluster.local'')"
    by (simp add: pod_host_def)
  then have "dec i = dec j"
    using append_sep_inj [OF dot_not_in_dec dot_not_in_dec] by blast
  then show "i = j" by simp
qed simp

lemma naming_with_replicas [simp]:
  "CommonLabels (with_replicas r c) = CommonLabels c"
  "ServerPort (with_replicas r c) = ServerPort c"
  "ControlPort (with_replicas r c) = ControlPort c"
  "proxyPort (with_replicas r c) = proxyPort c"
  "ResolveHyperbytedbImage (with_replicas r c) = ResolveHyperbytedbImage c"
  "ResolveProxyImage (with_replicas r c) = ResolveProxyImage c"
  "AuthSecretName (with_replicas r c) = AuthSecretName c"
  "ConfigMapName (with_replicas r c) = ConfigMapName c"
  "HeadlessServiceName (with_replicas r c) = HeadlessServiceName c"
  "StatefulSetName (with_replicas r c) = StatefulSetName c"
  by (simp_all add: CommonLabels_def ServerPort_def ControlPort_def proxyPort_def
      ResolveHyperbytedbImage_def ResolveProxyImage_def AuthSecretName_def ConfigMapName_def
      HeadlessServiceName_def StatefulSetName_def split: option.split)

text \<open>
  Proxy pods never match the selector of the database's Services: the headless Service
  (and so the proxy's own backend discovery) cannot select a proxy.
\<close>

definition selects :: "strmap \<Rightarrow> strmap \<Rightarrow> bool" where
  "selects sel labels \<longleftrightarrow> (\<forall>k\<in>{''app.kubernetes.io/name'', ''app.kubernetes.io/instance'',
     ''app.kubernetes.io/managed-by'', ''app.kubernetes.io/component''}. sel k \<noteq> None \<longrightarrow> labels k = sel k)"

lemma headless_selector_skips_proxies: "\<not> selects (CommonLabels c) (proxyLabels c ++ Map.empty)"
  by (simp add: selects_def CommonLabels_def proxyLabels_def)

section \<open>Image references\<close>

lemma TrimSpace_no_space: "\<forall>ch\<in>set s. \<not> is_space ch \<Longrightarrow> TrimSpace s = s"
  by (simp add: TrimSpace_def trim_with_id)

lemma imageTag_repo_tag:
  assumes repo: "\<forall>ch\<in>set repo. \<not> is_space ch \<and> ch \<noteq> CHR ''@''"
    and tag: "\<forall>ch\<in>set tag. \<not> is_space ch \<and> ch \<noteq> CHR ''@'' \<and> ch \<noteq> CHR ''/'' \<and> ch \<noteq> CHR '':''"
  shows "imageTag (repo @ '':'' @ tag) = tag"
proof -
  let ?img = "repo @ CHR '':'' # tag"
  have ns: "TrimSpace ?img = ?img"
    by (rule TrimSpace_no_space) (use repo tag in \<open>auto simp: is_space_def\<close>)
  have at: "CHR ''@'' \<notin> set ?img"
    using repo tag by auto
  have colon: "LastIndex ?img '':'' = int (length repo)"
    by (rule LastIndex_char_app) (use tag in auto)
  have slash: "LastIndex ?img ''/'' < int (length repo)"
  proof (cases "CHR ''/'' \<in> set repo")
    case True
    then obtain u t where s: "repo = u @ CHR ''/'' # t" "CHR ''/'' \<notin> set t"
      by (metis split_list_last)
    have "CHR ''/'' \<notin> set (t @ CHR '':'' # tag)" using s tag by auto
    then have "LastIndex (u @ CHR ''/'' # (t @ CHR '':'' # tag)) ''/'' = int (length u)"
      by (rule LastIndex_char_app)
    with s show ?thesis by simp
  next
    case False
    then have "CHR ''/'' \<notin> set ?img" using tag by auto
    then show ?thesis by (simp add: LastIndex_char_none)
  qed
  have "Index ?img ''@'' = -1" using at by (simp add: Index_char)
  then show ?thesis
    using ns colon slash by (simp add: imageTag_def Let_def nat_add_distrib)
qed

lemma TrimPrefix_set: "set (TrimPrefix s p) \<subseteq> set s"
  by (auto simp: TrimPrefix_def dest: in_set_dropD)

definition image_char :: "char \<Rightarrow> bool" where
  "image_char ch \<longleftrightarrow> \<not> is_space ch \<and> ch \<noteq> CHR ''@'' \<and> ch \<noteq> CHR '':''"

definition tag_char :: "char \<Rightarrow> bool" where
  "tag_char ch \<longleftrightarrow> image_char ch \<and> ch \<noteq> CHR ''/''"

lemma NormalizeVersionTag_chars:
  assumes "list_all tag_char v"
  shows "list_all tag_char (NormalizeVersionTag v)"
proof -
  have "TrimSpace v = v" using assms by (intro TrimSpace_no_space) (auto simp: list_all_iff tag_char_def image_char_def)
  moreover have "list_all tag_char ''latest''" by code_simp
  ultimately show ?thesis using assms TrimPrefix_set [of v "''v''"]
    by (auto simp: NormalizeVersionTag_def defaultImageTag_def list_all_iff)
qed

lemma resolve_untagged:
  assumes "list_all image_char img" "list_all image_char repo"
  shows "resolveComponentImage img v repo
     = (if img = [] then repo else img) @ '':'' @ NormalizeVersionTag v"
proof -
  have "TrimSpace img = img" using assms by (intro TrimSpace_no_space) (auto simp: list_all_iff image_char_def)
  moreover have "\<not> Contains img '':''" using assms by (auto simp: Contains_def Index_char list_all_iff image_char_def)
  moreover have "NormalizeVersionTag [] = defaultImageTag" by code_simp
  ultimately show ?thesis by (auto simp: resolveComponentImage_def Let_def)
qed

section \<open>Properties\<close>

text \<open>
  C39. The image of the database and the version read from it agree. For an image field without a
  colon (or none) and a version made of tag characters, the tag that version gating takes from
  the resolved image is the version asked for, without a leading \<open>v\<close>, or \<open>latest\<close>. With a
  registry that has a port the colon of the port counts as a tag: the image is used as it is
  and the version is dropped.
\<close>

theorem image_version_roundtrip:
  assumes "list_all image_char (Spec_Image (Spec c))" "list_all tag_char (Spec_Version (Spec c))"
  shows "imageTag (ResolveHyperbytedbImage c) = NormalizeVersionTag (Spec_Version (Spec c)) \<and>
    resolveComponentImage ''localhost:5000/db'' (Spec_Version (Spec c)) repo = ''localhost:5000/db'' \<and>
    imageTag ''localhost:5000/db'' = []"
proof (intro conjI)
  have "list_all image_char defaultHyperbytedbRepo" by code_simp
  then have repo: "list_all image_char (if Spec_Image (Spec c) = [] then defaultHyperbytedbRepo else Spec_Image (Spec c))"
    using assms(1) by simp
  show "imageTag (ResolveHyperbytedbImage c) = NormalizeVersionTag (Spec_Version (Spec c))"
    unfolding ResolveHyperbytedbImage_def resolve_untagged [OF assms(1) \<open>list_all image_char defaultHyperbytedbRepo\<close>]
    using repo NormalizeVersionTag_chars [OF assms(2)]
    by (intro imageTag_repo_tag) (auto simp: list_all_iff tag_char_def image_char_def)
  have "TrimSpace ''localhost:5000/db'' = ''localhost:5000/db''" "Contains ''localhost:5000/db'' '':''" by code_simp+
  then show "resolveComponentImage ''localhost:5000/db'' (Spec_Version (Spec c)) repo = ''localhost:5000/db''"
    by (simp add: resolveComponentImage_def Let_def)
  show "imageTag ''localhost:5000/db'' = []" by code_simp
qed

text \<open>A cluster that names its image and a version.\<close>

definition image_example :: HyperbytedbCluster where
  "image_example = (new_cluster ''t'' ''p'')\<lparr> Spec := zero_ClusterSpec\<lparr> Spec_Image := ''ghcr.io/x/db'', Spec_Version := ''v1.2.0'' \<rparr> \<rparr>"

theorem image_version_roundtrip_witness:
  "imageTag (ResolveHyperbytedbImage image_example) = ''1.2.0'' \<and> ResolveHyperbytedbImage image_example = ''ghcr.io/x/db:1.2.0''"
proof -
  have "list_all image_char (Spec_Image (Spec image_example))" "list_all tag_char (Spec_Version (Spec image_example))"
    by code_simp+
  then have "imageTag (ResolveHyperbytedbImage image_example) = NormalizeVersionTag (Spec_Version (Spec image_example))"
    using image_version_roundtrip [of image_example "[]"] by blast
  moreover have "NormalizeVersionTag (Spec_Version (Spec image_example)) = ''1.2.0''"
    "ResolveHyperbytedbImage image_example = ''ghcr.io/x/db:1.2.0''" by code_simp+
  ultimately show ?thesis by simp
qed

end
