(* ===== verification/Compat.thy ===== *)
theory Compat
  imports Naming
begin

text \<open>
  Versions and capabilities: \<^verbatim>\<open>internal/hyperbytedb/compat.go\<close> and the capability-gated
  switches of \<^verbatim>\<open>service.go\<close>, \<^verbatim>\<open>statefulset.go\<close>, \<^verbatim>\<open>auth.go\<close> and \<^verbatim>\<open>proxy.go\<close>. The semver
  library is a parameter: a version is the string it was parsed from, and the record
  \<open>semver\<close> holds the library's parser and comparison. What the operator relies on is
  the locale \<open>semver_laws\<close>: a total preorder in which the operator's own constants parse
  and come in release order.
\<close>

section \<open>The semver library\<close>

record semver =
  sv_valid :: "string \<Rightarrow> bool"              \<comment> \<open>\<^verbatim>\<open>semver.NewVersion\<close> accepts the string\<close>
  sv_compare :: "string \<Rightarrow> string \<Rightarrow> int"   \<comment> \<open>\<^verbatim>\<open>v.Compare(w)\<close>\<close>

definition DatabaseVersionAnnotation :: string where
  "DatabaseVersionAnnotation = ''hyperbytedb.hyperbyte.cloud/database-version''"
definition LatestDatabaseVersion :: string where "LatestDatabaseVersion = ''0.9.3-beta''"
definition OldestDatabaseVersion :: string where "OldestDatabaseVersion = ''0.8.0''"
definition version090Beta :: string where "version090Beta = ''0.9.0-beta''"
definition version091Beta :: string where "version091Beta = ''0.9.1-beta''"

section \<open>Capabilities\<close>

datatype Capability =
    CapabilitySplitChdbPools | CapabilityAutoQueryPool | CapabilitySharding
  | CapabilityControlListener | CapabilityEvacuateTogether | CapabilityClusterAuth
  | CapabilityProxyAdminListener

fun cap_text :: "Capability \<Rightarrow> string" where
  "cap_text CapabilitySplitChdbPools = ''split-chdb-pools''"
| "cap_text CapabilityAutoQueryPool = ''auto-query-pool''"
| "cap_text CapabilitySharding = ''sharding''"
| "cap_text CapabilityControlListener = ''control-listener''"
| "cap_text CapabilityEvacuateTogether = ''evacuate-together''"
| "cap_text CapabilityClusterAuth = ''cluster-auth''"
| "cap_text CapabilityProxyAdminListener = ''proxy-admin-listener''"

text \<open>The matrix: capability and first version (the prose column is documentation only).\<close>

definition CompatibilityMatrix :: "(Capability \<times> string) list" where
  "CompatibilityMatrix =
    [(CapabilitySplitChdbPools, version090Beta),
     (CapabilityAutoQueryPool, version090Beta),
     (CapabilitySharding, version090Beta),
     (CapabilityControlListener, version090Beta),
     (CapabilityEvacuateTogether, version090Beta),
     (CapabilityClusterAuth, version091Beta),
     (CapabilityProxyAdminListener, version090Beta)]"

datatype version_source = SrcAnnotation | SrcSpecVersion | SrcImageTag | SrcAssumed

fun source_text :: "version_source \<Rightarrow> string" where
  "source_text SrcAnnotation = ''annotation''"
| "source_text SrcSpecVersion = ''spec.version''"
| "source_text SrcImageTag = ''image tag''"
| "source_text SrcAssumed = ''assumed''"

record DatabaseVersion =
  DV_Version :: "string option"   \<comment> \<open>\<open>None\<close> is a nil pointer\<close>
  DV_Source :: version_source
  DV_Raw :: string

definition parseDatabaseVersion :: "semver \<Rightarrow> string \<Rightarrow> string option" where
  "parseDatabaseVersion sv raw =
     (let v = TrimPrefix (TrimSpace raw) ''v'' in if sv_valid sv v then Some v else None)"

text \<open>The loop over the candidates: the first non-empty one that parses.\<close>

fun first_version :: "semver \<Rightarrow> (version_source \<times> string) list \<Rightarrow> DatabaseVersion option" where
  "first_version sv [] = None"
| "first_version sv ((src, raw) # cs) =
     (if raw = [] then first_version sv cs
      else case parseDatabaseVersion sv raw of
             Some v \<Rightarrow> Some \<lparr> DV_Version = Some v, DV_Source = src, DV_Raw = raw \<rparr>
           | None \<Rightarrow> first_version sv cs)"

definition ResolveDatabaseVersion :: "semver \<Rightarrow> HyperbytedbCluster \<Rightarrow> DatabaseVersion" where
  "ResolveDatabaseVersion sv c =
     (case first_version sv
             [(SrcAnnotation, mget (Annotations c) DatabaseVersionAnnotation),
              (SrcSpecVersion, Spec_Version (Spec c)),
              (SrcImageTag, imageTag (ResolveHyperbytedbImage c))] of
        Some dv \<Rightarrow> dv
      | None \<Rightarrow> \<lparr> DV_Version = parseDatabaseVersion sv LatestDatabaseVersion,
                  DV_Source = SrcAssumed, DV_Raw = LatestDatabaseVersion \<rparr>)"

definition ResolveProxyVersion :: "semver \<Rightarrow> HyperbytedbCluster \<Rightarrow> string option" where
  "ResolveProxyVersion sv c =
     (case parseDatabaseVersion sv (imageTag (ResolveProxyImage c)) of
        Some v \<Rightarrow> Some v
      | None \<Rightarrow> DV_Version (ResolveDatabaseVersion sv c))"

text \<open>
  \<open>versionSupports\<close> on a nil version would panic; under \<open>semver_laws\<close> no resolved version
  is nil (lemma \<open>resolved_not_nil\<close>), and the model answers \<open>False\<close> there.
\<close>

fun matrix_supports :: "semver \<Rightarrow> string \<Rightarrow> Capability \<Rightarrow> (Capability \<times> string) list \<Rightarrow> bool" where
  "matrix_supports sv v cap [] = False"
| "matrix_supports sv v cap ((k, since) # es) =
     (if k \<noteq> cap then matrix_supports sv v cap es
      else case parseDatabaseVersion sv since of
             None \<Rightarrow> False
           | Some w \<Rightarrow> sv_compare sv v w \<ge> 0)"

definition versionSupports :: "semver \<Rightarrow> string option \<Rightarrow> Capability \<Rightarrow> bool" where
  "versionSupports sv v cap =
     (case v of None \<Rightarrow> False | Some w \<Rightarrow> matrix_supports sv w cap CompatibilityMatrix)"

definition Supports :: "semver \<Rightarrow> HyperbytedbCluster \<Rightarrow> Capability \<Rightarrow> bool" where
  "Supports sv c cap = versionSupports sv (DV_Version (ResolveDatabaseVersion sv c)) cap"

definition ProxySupports :: "semver \<Rightarrow> HyperbytedbCluster \<Rightarrow> Capability \<Rightarrow> bool" where
  "ProxySupports sv c cap = versionSupports sv (ResolveProxyVersion sv c) cap"

definition CompatibilitySummary :: "semver \<Rightarrow> HyperbytedbCluster \<Rightarrow> string \<times> string" where
  "CompatibilitySummary sv c =
     (let dv = ResolveDatabaseVersion sv c;
          v = deref [] (DV_Version dv);
          missing = map cap_text (filter (\<lambda>cap. \<not> versionSupports sv (DV_Version dv) cap)
                                    (map fst CompatibilityMatrix));
          reason = (if DV_Source dv = SrcAssumed then ''Assumed''
                    else if sv_compare sv v OldestDatabaseVersion < 0 then ''OlderThanSupported''
                    else if sv_compare sv v LatestDatabaseVersion > 0 then ''NewerThanKnown''
                    else ''Supported'');
          m1 = ''HyperbyteDB '' @ v @ '' (from '' @ source_text (DV_Source dv) @ '')'';
          m2 = (if DV_Source dv = SrcAssumed
                then m1 @ ''; set '' @ DatabaseVersionAnnotation @ '' or a version image tag to pin it''
                else m1);
          m3 = (if missing \<noteq> []
                then m2 @ ''; not rendered for this version: '' @ Join missing '', ''
                else m2)
      in (reason, m3))"

section \<open>Switches that depend on a capability\<close>

definition annotationTrue :: string where "annotationTrue = ''true''"
definition ControlListenerAnnotation :: string where
  "ControlListenerAnnotation = ''hyperbytedb.hyperbyte.cloud/control-listener''"
definition EvacuateTogetherAnnotation :: string where
  "EvacuateTogetherAnnotation = ''hyperbytedb.hyperbyte.cloud/evacuate-together''"
definition ParallelPodsAnnotation :: string where
  "ParallelPodsAnnotation = ''hyperbytedb.hyperbyte.cloud/parallel-pods''"

definition ControlListenerEnabled :: "semver \<Rightarrow> HyperbytedbCluster \<Rightarrow> bool \<Rightarrow> bool" where
  "ControlListenerEnabled sv c clusterEnabled \<longleftrightarrow>
     clusterEnabled \<and> mget (Annotations c) ControlListenerAnnotation = annotationTrue \<and>
     Supports sv c CapabilityControlListener"

definition EvacuateTogether :: "semver \<Rightarrow> HyperbytedbCluster \<Rightarrow> bool" where
  "EvacuateTogether sv c \<longleftrightarrow>
     mget (Annotations c) EvacuateTogetherAnnotation = annotationTrue \<and>
     Supports sv c CapabilityEvacuateTogether"

definition ClusterAuthEnabled :: "semver \<Rightarrow> HyperbytedbCluster \<Rightarrow> bool" where
  "ClusterAuthEnabled sv c \<longleftrightarrow>
     Auth_Enabled (Spec_Auth (Spec c)) \<and> Supports sv c CapabilityClusterAuth"

definition proxyAdminListenPort :: int where "proxyAdminListenPort = 8087"

definition ProxyAdminPort :: "semver \<Rightarrow> HyperbytedbCluster \<Rightarrow> int" where
  "ProxyAdminPort sv c =
     (if \<not> ProxySupports sv c CapabilityProxyAdminListener then proxyPort c
      else if proxyPort c = proxyAdminListenPort then i32 (proxyAdminListenPort + 1)
      else proxyAdminListenPort)"

section \<open>What the operator relies on\<close>

locale semver_laws =
  fixes sv :: semver
  assumes compare_refl: "sv_compare sv v v = 0"
    and compare_anti: "sv_compare sv v w < 0 \<longleftrightarrow> sv_compare sv w v > 0"
    and compare_trans: "sv_compare sv u v \<ge> 0 \<Longrightarrow> sv_compare sv v w \<ge> 0 \<Longrightarrow> sv_compare sv u w \<ge> 0"
    and valid_latest: "sv_valid sv ''0.9.3-beta''"
    and valid_since: "sv_valid sv ''0.9.0-beta''" "sv_valid sv ''0.9.1-beta''"
    and release_order: "sv_compare sv ''0.9.1-beta'' ''0.9.0-beta'' \<ge> 0"
      "sv_compare sv ''0.9.3-beta'' ''0.9.1-beta'' \<ge> 0"
      "sv_compare sv ''0.9.0-beta'' ''0.8.0'' > 0"
begin

lemma parse_constant:
  "parseDatabaseVersion sv ''0.9.3-beta'' = Some ''0.9.3-beta''"
  "parseDatabaseVersion sv ''0.9.0-beta'' = Some ''0.9.0-beta''"
  "parseDatabaseVersion sv ''0.9.1-beta'' = Some ''0.9.1-beta''"
  using valid_latest valid_since
  by (simp_all add: parseDatabaseVersion_def TrimSpace_def trim_with_def is_space_def
      TrimPrefix_def has_prefix_def)

lemma resolved_not_nil: "DV_Version (ResolveDatabaseVersion sv c) \<noteq> None"
proof -
  have "first_version sv cs = Some dv \<Longrightarrow> DV_Version dv \<noteq> None" for cs dv
    by (induction cs) (auto split: if_splits option.splits)
  then show ?thesis
    by (auto simp: ResolveDatabaseVersion_def LatestDatabaseVersion_def parse_constant
        split: option.split)
qed

text \<open>What a version has, every later version has.\<close>

lemma supports_mono:
  assumes "versionSupports sv (Some v) cap" "sv_compare sv w v \<ge> 0"
  shows "versionSupports sv (Some w) cap"
proof -
  have "matrix_supports sv v cap es \<Longrightarrow> matrix_supports sv w cap es" for es
    using assms(2) by (induction es) (auto split: option.splits if_splits intro: compare_trans)
  with assms(1) show ?thesis by (simp add: versionSupports_def)
qed

lemma supports_iff:
  "versionSupports sv (Some v) cap \<longleftrightarrow>
     sv_compare sv v (if cap = CapabilityClusterAuth then ''0.9.1-beta'' else ''0.9.0-beta'') \<ge> 0"
  by (cases cap) (simp_all add: versionSupports_def CompatibilityMatrix_def version090Beta_def
      version091Beta_def parse_constant)

text \<open>Cluster auth is the youngest capability: a version that has it has all of them.\<close>

lemma auth_implies_all:
  "versionSupports sv (Some v) CapabilityClusterAuth \<Longrightarrow> versionSupports sv (Some v) cap"
  using compare_trans [OF _ release_order(1)] by (simp add: supports_iff)

lemma latest_supports_all:
  "DV_Source (ResolveDatabaseVersion sv c) = SrcAssumed \<Longrightarrow> Supports sv c cap"
proof -
  assume src: "DV_Source (ResolveDatabaseVersion sv c) = SrcAssumed"
  have "first_version sv cs = Some dv \<Longrightarrow> SrcAssumed \<notin> fst ` set cs \<Longrightarrow> DV_Source dv \<noteq> SrcAssumed" for cs dv
    by (induction cs) (auto split: if_splits option.splits)
  with src have "DV_Version (ResolveDatabaseVersion sv c) = Some ''0.9.3-beta''"
    by (auto simp: ResolveDatabaseVersion_def LatestDatabaseVersion_def parse_constant
        split: option.splits)
  moreover have "versionSupports sv (Some ''0.9.3-beta'') CapabilityClusterAuth"
    using release_order(2) by (simp add: supports_iff)
  ultimately show ?thesis unfolding Supports_def by (metis auth_implies_all)
qed

end

text \<open>Replica counts play no part in the resolved version or in any switch.\<close>

lemma compat_with_replicas [simp]:
  "ResolveDatabaseVersion sv (with_replicas r c) = ResolveDatabaseVersion sv c"
  "Supports sv (with_replicas r c) cap = Supports sv c cap"
  "ControlListenerEnabled sv (with_replicas r c) b = ControlListenerEnabled sv c b"
  "ClusterAuthEnabled sv (with_replicas r c) = ClusterAuthEnabled sv c"
  by (simp_all add: ResolveDatabaseVersion_def Supports_def ControlListenerEnabled_def
      ClusterAuthEnabled_def)

end
