(* ===== verification/Go_Crypto.thy ===== *)
theory Go_Crypto
  imports Go_Strings "HOL-Library.Word"
begin

text \<open>
  The digests and encodings of Go's standard library the operator calls:
  \<^verbatim>\<open>crypto/sha256.Sum256\<close> (the config hash), \<^verbatim>\<open>fmt.Sprintf("%x", \<dots>)\<close> on bytes and
  \<^verbatim>\<open>base64.RawURLEncoding\<close> (generated tokens). Bytes are \<^typ>\<open>8 word\<close>, the hash works on
  \<^typ>\<open>32 word\<close> with wrap-around.
\<close>

unbundle bit_operations_syntax

type_synonym byte = "8 word"
type_synonym u32w = "32 word"

section \<open>SHA-256\<close>

text \<open>
  FIPS 180-4 defines the 64 round constants as the first 32 bits of the fractional parts
  of the cube roots of the first 64 primes, and the initial hash as those of the square
  roots of the first eight. They are computed here from that definition: \<open>root_bits k x n 0\<close>
  is the integer \<open>k\<close>-th root of \<open>x\<close>, found bit by bit, and the conversion to a word drops the
  integer part.
\<close>

fun root_bits :: "nat \<Rightarrow> int \<Rightarrow> nat \<Rightarrow> int \<Rightarrow> int" where
  "root_bits k x 0 r = r"
| "root_bits k x (Suc n) r = root_bits k x n (if (r + 2 ^ n) ^ k \<le> x then r + 2 ^ n else r)"

definition sha_primes :: "int list" where
  "sha_primes = filter (\<lambda>p. list_all (\<lambda>d. p mod d \<noteq> 0) [2..p - 1]) [2..311]"

definition sha_K :: "u32w list" where
  "sha_K = map (\<lambda>p. word_of_int (root_bits 3 (p * 2 ^ 96) 36 0)) sha_primes"

definition sha_H0 :: "u32w list" where
  "sha_H0 = map (\<lambda>p. word_of_int (root_bits 2 (p * 2 ^ 64) 36 0)) [2, 3, 5, 7, 11, 13, 17, 19]"

definition sha_ch :: "u32w \<Rightarrow> u32w \<Rightarrow> u32w \<Rightarrow> u32w" where
  "sha_ch x y z = (x AND y) XOR (NOT x AND z)"

definition sha_maj :: "u32w \<Rightarrow> u32w \<Rightarrow> u32w \<Rightarrow> u32w" where
  "sha_maj x y z = (x AND y) XOR (x AND z) XOR (y AND z)"

definition sha_S0 :: "u32w \<Rightarrow> u32w" where
  "sha_S0 x = word_rotr 2 x XOR word_rotr 13 x XOR word_rotr 22 x"

definition sha_S1 :: "u32w \<Rightarrow> u32w" where
  "sha_S1 x = word_rotr 6 x XOR word_rotr 11 x XOR word_rotr 25 x"

definition sha_s0 :: "u32w \<Rightarrow> u32w" where
  "sha_s0 x = word_rotr 7 x XOR word_rotr 18 x XOR drop_bit 3 x"

definition sha_s1 :: "u32w \<Rightarrow> u32w" where
  "sha_s1 x = word_rotr 17 x XOR word_rotr 19 x XOR drop_bit 10 x"

text \<open>The message schedule, kept newest word first while it grows.\<close>

fun sha_schedule :: "nat \<Rightarrow> u32w list \<Rightarrow> u32w list" where
  "sha_schedule 0 ws = rev ws"
| "sha_schedule (Suc n) ws =
     sha_schedule n ((sha_s1 (ws ! 1) + ws ! 6 + sha_s0 (ws ! 14) + ws ! 15) # ws)"

fun sha_rounds :: "(u32w \<times> u32w) list \<Rightarrow> u32w list \<Rightarrow> u32w list" where
  "sha_rounds ((k, w) # kws) [a, b, c, d, e, f, g, h] =
     (let t1 = h + sha_S1 e + sha_ch e f g + k + w;
          t2 = sha_S0 a + sha_maj a b c
      in sha_rounds kws [t1 + t2, a, b, c, d + t1, e, f, g])"
| "sha_rounds _ hs = hs"

definition sha_word :: "byte list \<Rightarrow> u32w" where
  "sha_word bs = word_of_int (foldl (\<lambda>a b. 256 * a + uint b) 0 bs)"

fun groups :: "nat \<Rightarrow> 'a list \<Rightarrow> 'a list list" where
  "groups n xs = (if n = 0 \<or> xs = [] then [] else take n xs # groups n (drop n xs))"

declare groups.simps [simp del]

definition sha_block :: "u32w list \<Rightarrow> byte list \<Rightarrow> u32w list" where
  "sha_block hs blk =
     (let ws = sha_schedule 48 (rev (map sha_word (groups 4 blk)))
      in map2 (+) hs (sha_rounds (zip sha_K ws) hs))"

fun be_bytes :: "nat \<Rightarrow> int \<Rightarrow> byte list" where
  "be_bytes 0 x = []"
| "be_bytes (Suc n) x = be_bytes n (x div 256) @ [word_of_int (x mod 256)]"

definition sha_pad :: "byte list \<Rightarrow> byte list" where
  "sha_pad m =
     (let n = length m
      in m @ [0x80] @ replicate ((119 - n mod 64) mod 64) 0 @ be_bytes 8 (8 * int n))"

definition Sum256 :: "byte list \<Rightarrow> byte list" where
  "Sum256 m = concat (map (\<lambda>h. be_bytes 4 (uint h)) (foldl sha_block sha_H0 (groups 64 (sha_pad m))))"

section \<open>Strings and bytes\<close>

definition bytes_of :: "string \<Rightarrow> byte list" where
  "bytes_of s = map (\<lambda>c. word_of_nat (of_char c)) s"

definition string_of :: "byte list \<Rightarrow> string" where
  "string_of bs = map (\<lambda>b. char_of (unat b)) bs"

definition hex_digit :: "nat \<Rightarrow> char" where
  "hex_digit n = (if n < 10 then char_of (48 + n) else char_of (87 + n))"

text \<open>\<^verbatim>\<open>fmt.Sprintf("%x", bs)\<close>\<close>

definition hex :: "byte list \<Rightarrow> string" where
  "hex bs = concat (map (\<lambda>b. [hex_digit (unat b div 16), hex_digit (unat b mod 16)]) bs)"

section \<open>Base64, URL alphabet, no padding\<close>

definition b64_char :: "nat \<Rightarrow> char" where
  "b64_char n =
     (if n < 26 then char_of (65 + n)
      else if n < 52 then char_of (97 + (n - 26))
      else if n < 62 then char_of (48 + (n - 52))
      else if n = 62 then CHR ''-'' else CHR ''_'')"

fun b64_raw_url :: "byte list \<Rightarrow> string" where
  "b64_raw_url (a # b # c # bs) =
     (let v = (unat a * 256 + unat b) * 256 + unat c
      in [b64_char (v div 262144), b64_char (v div 4096 mod 64),
          b64_char (v div 64 mod 64), b64_char (v mod 64)] @ b64_raw_url bs)"
| "b64_raw_url [a, b] =
     (let v = (unat a * 256 + unat b) * 4
      in [b64_char (v div 4096), b64_char (v div 64 mod 64), b64_char (v mod 64)])"
| "b64_raw_url [a] =
     (let v = unat a * 16 in [b64_char (v div 64), b64_char (v mod 64)])"
| "b64_raw_url [] = []"

section \<open>Facts\<close>

lemma length_be_bytes [simp]: "length (be_bytes n x) = n"
  by (induction n arbitrary: x) simp_all

lemma length_hex [simp]: "length (hex bs) = 2 * length bs"
  by (induction bs) (simp_all add: hex_def)

lemma length_sha_rounds: "length hs = 8 \<Longrightarrow> length (sha_rounds kws hs) = 8"
  by (induction kws hs rule: sha_rounds.induct) (simp_all add: Let_def)

lemma length_sha_fold: "length hs = 8 \<Longrightarrow> length (foldl sha_block hs blks) = 8"
  by (induction blks arbitrary: hs) (simp_all add: sha_block_def Let_def length_sha_rounds)

lemma length_concat_const: "(\<And>x. x \<in> set xs \<Longrightarrow> length (f x) = k) \<Longrightarrow>
    length (concat (map f xs)) = k * length xs"
  by (induction xs) simp_all

lemma length_Sum256 [simp]: "length (Sum256 m) = 32"
  unfolding Sum256_def
  by (subst length_concat_const [where k = 4]) (simp_all add: length_sha_fold sha_H0_def)

lemma b64_nonempty [simp]: "b64_raw_url bs = [] \<longleftrightarrow> bs = []"
  by (cases bs rule: b64_raw_url.cases) (simp_all add: Let_def)

text \<open>Every encoded character is one of the 64 of the URL alphabet.\<close>

lemma length_b64: "length (b64_raw_url bs) = (4 * length bs + 2) div 3"
  by (induction bs rule: b64_raw_url.induct) (simp_all add: Let_def)

end
