(* ===== verification/World.thy ===== *)
theory World
  imports Api_Types Compat Go_Crypto
begin

text \<open>
  What the controllers call outside this repository: the Kubernetes API client, the HTTP
  transport, the clock, the random source, certificate generation and the helpers of
  controller-runtime and apimachinery. They are one parameter, a record \<open>'w sys\<close> of functions
  over an abstract external state \<open>'w\<close>: any call may return anything, and may change the
  external state in any way. Every call that is not a pure read of the clock or of
  randomness is appended to a log, so that a property about what the operator does is a
  property of the events one run adds to the log, for every behaviour of the outside.
\<close>

section \<open>HTTP\<close>

datatype http_method = MethodGet | MethodPost

record http_req =
  Req_Method :: http_method
  Req_URL :: string
  Req_Header :: "(string \<times> string) list"
  Req_Body :: "string option"

record http_resp =
  Resp_Status :: int
  Resp_Body :: string             \<comment> \<open>what \<^verbatim>\<open>io.ReadAll\<close> returns\<close>
  Resp_ReadErr :: "err option"    \<comment> \<open>the error it returns with it\<close>

section \<open>Objects and events\<close>

datatype kobj =
    KCluster HyperbytedbCluster | KBackup HyperbytedbBackup | KRestore HyperbytedbRestore
  | KSts sts | KPod pod | KPvc pvc | KSvc service | KCm config_map | KSecret secret
  | KPdb pdb | KHpa hpa | KDep deployment | KSm service_monitor | KJob job | KCron cron_job

datatype event =
    EvGet nn "kobj result"
  | EvList strmap "kobj list result"
  | EvCreate kobj "err option"
  | EvUpdate kobj "err option"
  | EvStatus kobj "err option"
  | EvPatch kobj kobj "err option"      \<comment> \<open>the object before and after\<close>
  | EvDelete kobj bool "err option"     \<comment> \<open>with orphan propagation?\<close>
  | EvNoRequest http_method string err  \<comment> \<open>\<^verbatim>\<open>http.NewRequest\<close> refused the URL: nothing was sent\<close>
  | EvHttp http_req "http_resp result"
  | EvRecord string string string       \<comment> \<open>type, reason and message of a Kubernetes event\<close>

section \<open>The outside\<close>

text \<open>
  One kind of object of the Kubernetes API. A successful write returns the object as the
  server answered it: the client decodes that answer into the object it was given.
\<close>

record ('o, 'w) kind_api =
  k_get :: "nn \<Rightarrow> 'w \<Rightarrow> 'o result \<times> 'w"
  k_list :: "string \<Rightarrow> strmap \<Rightarrow> 'w \<Rightarrow> 'o list result \<times> 'w"
  k_create :: "'o \<Rightarrow> 'w \<Rightarrow> 'o result \<times> 'w"
  k_update :: "'o \<Rightarrow> 'w \<Rightarrow> 'o result \<times> 'w"
  k_status :: "'o \<Rightarrow> 'w \<Rightarrow> 'o result \<times> 'w"
  k_patch :: "'o \<Rightarrow> 'o \<Rightarrow> 'w \<Rightarrow> 'o result \<times> 'w"
  k_delete :: "'o \<Rightarrow> bool \<Rightarrow> 'w \<Rightarrow> unit result \<times> 'w"

type_synonym ecdsa_key = string

record cert_template =
  Crt_Serial :: int
  Crt_CommonName :: string
  Crt_DNSNames :: "string list"
  Crt_NotBefore :: time
  Crt_NotAfter :: time
  Crt_IsCA :: bool
  Crt_KeyUsage :: "string list"
  Crt_ExtKeyUsage :: "string list"

record 'w sys =
  sys_semver :: semver
  api_cluster :: "(HyperbytedbCluster, 'w) kind_api"
  api_backup :: "(HyperbytedbBackup, 'w) kind_api"
  api_restore :: "(HyperbytedbRestore, 'w) kind_api"
  api_sts :: "(sts, 'w) kind_api"
  api_pod :: "(pod, 'w) kind_api"
  api_pvc :: "(pvc, 'w) kind_api"
  api_svc :: "(service, 'w) kind_api"
  api_cm :: "(config_map, 'w) kind_api"
  api_secret :: "(secret, 'w) kind_api"
  api_pdb :: "(pdb, 'w) kind_api"
  api_hpa :: "(hpa, 'w) kind_api"
  api_dep :: "(deployment, 'w) kind_api"
  api_sm :: "(service_monitor, 'w) kind_api"
  api_job :: "(job, 'w) kind_api"
  api_cron :: "(cron_job, 'w) kind_api"
  http_new_request :: "http_method \<Rightarrow> string \<Rightarrow> err option"
  http_round_trip :: "http_req \<Rightarrow> 'w \<Rightarrow> http_resp result \<times> 'w"
  sys_now :: "'w \<Rightarrow> time \<times> 'w"
  rand_read :: "nat \<Rightarrow> 'w \<Rightarrow> byte list result \<times> 'w"
  ecdsa_generate :: "'w \<Rightarrow> ecdsa_key result \<times> 'w"
  x509_create :: "cert_template \<Rightarrow> cert_template + string \<Rightarrow> ecdsa_key \<Rightarrow> ecdsa_key \<Rightarrow> 'w \<Rightarrow> string result \<times> 'w"
  x509_parse :: "string \<Rightarrow> string result"
  x509_marshal_key :: "ecdsa_key \<Rightarrow> string result"
  pem_encode :: "string \<Rightarrow> string \<Rightarrow> string"
  set_owner :: "object_meta \<Rightarrow> object_meta \<Rightarrow> object_meta result"
  contains_finalizer :: "object_meta \<Rightarrow> string \<Rightarrow> bool"
  add_finalizer :: "string \<Rightarrow> object_meta \<Rightarrow> object_meta"
  remove_finalizer :: "string \<Rightarrow> object_meta \<Rightarrow> object_meta"
  maps_equal :: "strmap \<Rightarrow> strmap \<Rightarrow> bool"
  set_condition :: "condition list \<Rightarrow> condition \<Rightarrow> 'w \<Rightarrow> condition list \<times> 'w"
  remove_condition :: "condition list \<Rightarrow> string \<Rightarrow> condition list"

record 'w world =
  ext :: 'w
  log :: "event list"

type_synonym ('w, 'a) prog = "('w world, 'a) state"

section \<open>Calls\<close>

definition call :: "('w \<Rightarrow> 'a \<times> 'w) \<Rightarrow> ('w, 'a) prog" where
  "call f = State (\<lambda>s. case f (ext s) of (a, x) \<Rightarrow> (a, s\<lparr> ext := x \<rparr>))"

definition emit :: "event \<Rightarrow> ('w, unit) prog" where
  "emit e = State (\<lambda>s. ((), s\<lparr> log := log s @ [e] \<rparr>))"

definition err_of :: "'a result \<Rightarrow> err option" where
  "err_of r = (case r of Inl e \<Rightarrow> Some e | Inr _ \<Rightarrow> None)"

definition Get :: "('o \<Rightarrow> kobj) \<Rightarrow> ('o, 'w) kind_api \<Rightarrow> nn \<Rightarrow> ('w, 'o result) prog" where
  "Get K api k = do {
     r \<leftarrow> call (k_get api k);
     emit (EvGet k (map_sum id K r));
     ret r }"

definition ListObjs :: "('o \<Rightarrow> kobj) \<Rightarrow> ('o, 'w) kind_api \<Rightarrow> string \<Rightarrow> strmap \<Rightarrow> ('w, 'o list result) prog" where
  "ListObjs K api ns sel = do {
     r \<leftarrow> call (k_list api ns sel);
     emit (EvList sel (map_sum id (map K) r));
     ret r }"

definition Create :: "('o \<Rightarrow> kobj) \<Rightarrow> ('o, 'w) kind_api \<Rightarrow> 'o \<Rightarrow> ('w, 'o result) prog" where
  "Create K api obj = do {
     r \<leftarrow> call (k_create api obj);
     emit (EvCreate (K obj) (err_of r));
     ret r }"

definition Update :: "('o \<Rightarrow> kobj) \<Rightarrow> ('o, 'w) kind_api \<Rightarrow> 'o \<Rightarrow> ('w, 'o result) prog" where
  "Update K api obj = do {
     r \<leftarrow> call (k_update api obj);
     emit (EvUpdate (K obj) (err_of r));
     ret r }"

definition StatusUpdate :: "('o \<Rightarrow> kobj) \<Rightarrow> ('o, 'w) kind_api \<Rightarrow> 'o \<Rightarrow> ('w, 'o result) prog" where
  "StatusUpdate K api obj = do {
     r \<leftarrow> call (k_status api obj);
     emit (EvStatus (K obj) (err_of r));
     ret r }"

definition Patch :: "('o \<Rightarrow> kobj) \<Rightarrow> ('o, 'w) kind_api \<Rightarrow> 'o \<Rightarrow> 'o \<Rightarrow> ('w, 'o result) prog" where
  "Patch K api base obj = do {
     r \<leftarrow> call (k_patch api base obj);
     emit (EvPatch (K base) (K obj) (err_of r));
     ret r }"

definition Delete :: "('o \<Rightarrow> kobj) \<Rightarrow> ('o, 'w) kind_api \<Rightarrow> 'o \<Rightarrow> bool \<Rightarrow> ('w, unit result) prog" where
  "Delete K api obj orphan = do {
     r \<leftarrow> call (k_delete api obj orphan);
     emit (EvDelete (K obj) orphan (err_of r));
     ret r }"

definition Now :: "'w sys \<Rightarrow> ('w, time) prog" where
  "Now S = call (sys_now S)"

definition RecordEvent :: "string \<Rightarrow> string \<Rightarrow> string \<Rightarrow> ('w, unit) prog" where
  "RecordEvent ty reason msg = emit (EvRecord ty reason msg)"

definition SetStatusCondition :: "'w sys \<Rightarrow> condition list \<Rightarrow> condition \<Rightarrow> ('w, condition list) prog" where
  "SetStatusCondition S conds cond = call (set_condition S conds cond)"

text \<open>\<^verbatim>\<open>if err := m; err != nil { return err }\<close>, the operator's commonest idiom.\<close>

definition attempt :: "('s, 'e + 'a) state \<Rightarrow> ('a \<Rightarrow> ('s, 'e + 'b) state) \<Rightarrow> ('s, 'e + 'b) state" where
  "attempt m f = do { r \<leftarrow> m; case r of Inl e \<Rightarrow> ret (Inl e) | Inr a \<Rightarrow> f a }"

text \<open>Dropping the value of a call that only matters for its error.\<close>

definition void :: "('s, 'e + 'a) state \<Rightarrow> ('s, 'e + unit) state" where
  "void m = do { r \<leftarrow> m; ret (map_sum id (\<lambda>_. ()) r) }"

text \<open>\<^verbatim>\<open>err != nil && !apierrors.IsNotFound(err)\<close> after a deletion.\<close>

definition ignoreNotFound :: "unit result \<Rightarrow> unit result" where
  "ignoreNotFound r = (case r of Inl e \<Rightarrow> if IsNotFound e then Inr () else Inl e | Inr _ \<Rightarrow> Inr ())"

section \<open>What a program may add to the log\<close>

definition emits :: "(event \<Rightarrow> bool) \<Rightarrow> ('w, 'a) prog \<Rightarrow> bool" where
  "emits P m \<longleftrightarrow> (\<forall>s. \<exists>es. log (snd (run_state m s)) = log s @ es \<and> list_all P es)"

named_theorems emits_intro \<open>which events a program adds to the log\<close>

lemma runE:
  obtains a t where "run_state m s = (a, t)"
  by (cases "run_state m s") blast

lemma emitsI: "(\<And>s a t. run_state m s = (a, t) \<Longrightarrow> \<exists>es. log t = log s @ es \<and> list_all P es) \<Longrightarrow> emits P m"
  unfolding emits_def by (metis prod.collapse)

lemma emitsD:
  assumes "emits P m" "run_state m s = (a, t)"
  obtains es where "log t = log s @ es" "list_all P es"
  using assms unfolding emits_def by (metis snd_conv)

lemma emits_return [emits_intro]: "emits P (ret a)"
  by (simp add: emits_def)

lemma emits_bind [emits_intro]:
  assumes "emits P m" "\<And>a. emits P (f a)"
  shows "emits P (State_Monad.bind m f)"
proof (rule emitsI)
  fix s b t
  assume run: "run_state (State_Monad.bind m f) s = (b, t)"
  obtain a u where m: "run_state m s = (a, u)" by fastforce
  with run have f: "run_state (f a) u = (b, t)" by simp
  obtain es where es: "log u = log s @ es" "list_all P es" using emitsD [OF assms(1) m] .
  obtain fs where fs: "log t = log u @ fs" "list_all P fs" using emitsD [OF assms(2) f] .
  from es fs show "\<exists>es. log t = log s @ es \<and> list_all P es"
    by (metis append_assoc list_all_append)
qed

lemma emits_if [emits_intro]:
  "(b \<Longrightarrow> emits P m) \<Longrightarrow> (\<not> b \<Longrightarrow> emits P n) \<Longrightarrow> emits P (if b then m else n)"
  by simp

lemma emits_sum [emits_intro]:
  "(\<And>e. r = Inl e \<Longrightarrow> emits P (f e)) \<Longrightarrow> (\<And>a. r = Inr a \<Longrightarrow> emits P (g a)) \<Longrightarrow>
   emits P (case r of Inl e \<Rightarrow> f e | Inr a \<Rightarrow> g a)"
  by (cases r) simp_all

lemma emits_option [emits_intro]:
  "(r = None \<Longrightarrow> emits P m) \<Longrightarrow> (\<And>a. r = Some a \<Longrightarrow> emits P (g a)) \<Longrightarrow>
   emits P (case r of None \<Rightarrow> m | Some a \<Rightarrow> g a)"
  by (cases r) simp_all

lemma emits_prod [emits_intro]:
  "(\<And>a b. r = (a, b) \<Longrightarrow> emits P (f a b)) \<Longrightarrow> emits P (case r of (a, b) \<Rightarrow> f a b)"
  by (cases r) simp

lemma emits_let [emits_intro]: "emits P (f a) \<Longrightarrow> emits P (let x = a in f x)"
  by simp

lemma emits_forEach [emits_intro]:
  "(\<And>x. x \<in> set xs \<Longrightarrow> emits P (f x)) \<Longrightarrow> emits P (forEach xs f)"
  by (induction xs) (auto intro!: emits_intro)

lemma emits_forErr [emits_intro]:
  "(\<And>x. x \<in> set xs \<Longrightarrow> emits P (f x)) \<Longrightarrow> emits P (forErr xs f)"
  by (induction xs) (auto intro!: emits_intro)

lemma emits_collect [emits_intro]:
  "(\<And>x. x \<in> set xs \<Longrightarrow> emits P (f x)) \<Longrightarrow> emits P (collect xs f)"
  by (induction xs) (auto intro!: emits_intro)

lemma emits_attempt [emits_intro]:
  "emits P m \<Longrightarrow> (\<And>a. emits P (f a)) \<Longrightarrow> emits P (attempt m f)"
  unfolding attempt_def by (intro emits_intro)

lemma emits_void [emits_intro]: "emits P m \<Longrightarrow> emits P (void m)"
  unfolding void_def by (intro emits_intro)

lemma emits_weaken: "emits P m \<Longrightarrow> (\<And>e. P e \<Longrightarrow> Q e) \<Longrightarrow> emits Q m"
  unfolding emits_def by (metis (no_types, lifting) list.pred_mono_strong)

subsection \<open>The calls themselves\<close>

lemma emits_call [emits_intro]: "emits P (call f)"
  by (auto simp: emits_def call_def split: prod.splits)

lemma emits_emit [emits_intro]: "P e \<Longrightarrow> emits P (emit e)"
  by (simp add: emits_def emit_def)

lemma emits_calls [emits_intro]:
  "(\<And>r. P (EvGet k r)) \<Longrightarrow> emits P (Get K api k)"
  "(\<And>r. P (EvList sel r)) \<Longrightarrow> emits P (ListObjs K api ns sel)"
  "(\<And>r. P (EvCreate (K obj) r)) \<Longrightarrow> emits P (Create K api obj)"
  "(\<And>r. P (EvUpdate (K obj) r)) \<Longrightarrow> emits P (Update K api obj)"
  "(\<And>r. P (EvStatus (K obj) r)) \<Longrightarrow> emits P (StatusUpdate K api obj)"
  "(\<And>r. P (EvPatch (K base) (K obj) r)) \<Longrightarrow> emits P (Patch K api base obj)"
  "(\<And>r. P (EvDelete (K obj) orphan r)) \<Longrightarrow> emits P (Delete K api obj orphan)"
  "emits P (Now S)"
  "P (EvRecord ty reason msg) \<Longrightarrow> emits P (RecordEvent ty reason msg)"
  "emits P (SetStatusCondition S conds cond)"
  unfolding Get_def ListObjs_def Create_def Update_def StatusUpdate_def Patch_def Delete_def Now_def
    RecordEvent_def SetStatusCondition_def
  by (auto intro!: emits_intro)

text \<open>Every program only appends to the log.\<close>

lemma emits_log_mono:
  assumes "emits P m" "run_state m s = (a, t)"
  shows "set (log s) \<subseteq> set (log t)"
  using emitsD [OF assms] by (metis set_append sup_ge1)

subsection \<open>Predicates of the suffix a run adds\<close>

text \<open>
  \<open>since l J\<close>: the events added to the log after \<open>l\<close> satisfy \<open>J\<close>. It is the shape of the
  invariants that relate several events of one run, used with \<open>triple\<close> and \<open>keeps\<close>.
\<close>

definition since :: "event list \<Rightarrow> (event list \<Rightarrow> bool) \<Rightarrow> 'w world \<Rightarrow> bool" where
  "since l J s \<longleftrightarrow> (\<exists>es. log s = l @ es \<and> J es)"

lemma since_start: "J [] \<Longrightarrow> since (log s) J s"
  by (simp add: since_def)

lemma since_emits:
  assumes "emits P m" "since l J s" "run_state m s = (a, t)"
    and "\<And>es fs. J es \<Longrightarrow> list_all P fs \<Longrightarrow> J (es @ fs)"
  shows "since l J t"
  using emitsD [OF assms(1,3)] assms(2,4) unfolding since_def by (metis append_assoc)

lemma keeps_since:
  "emits P m \<Longrightarrow> (\<And>es fs. J es \<Longrightarrow> list_all P fs \<Longrightarrow> J (es @ fs)) \<Longrightarrow> keeps (since l J) m"
  by (rule keepsI) (rule since_emits)

lemma run_Get:
  assumes "run_state (Get K api k) s = (r, t)"
  shows "log t = log s @ [EvGet k (map_sum id K r)]"
  using assms by (auto simp: Get_def call_def emit_def split: prod.splits)

lemma run_Delete:
  assumes "run_state (Delete K api obj orphan) s = (r, t)"
  shows "log t = log s @ [EvDelete (K obj) orphan (err_of r)]"
  using assms by (auto simp: Delete_def call_def emit_def split: prod.splits)

end
