(* ===== verification/Json.thy ===== *)
theory Json
  imports K8s_Types
begin

text \<open>
  The part of \<^verbatim>\<open>encoding/json\<close> the node client uses: marshalling of its flat request
  structs, and decoding of a response body into a struct. A body is first parsed into a
  JSON value and then assigned field by field, as the library does: unknown keys are
  skipped, \<open>null\<close> leaves a field alone, keys match without regard to case, and a value of
  the wrong type is an error after which the remaining fields are still assigned. Bodies are
  taken to be valid UTF-8; the wording of the library's errors is not modelled.
\<close>

section \<open>Values and parsing\<close>

datatype json =
    JNull | JBool bool | JNum string | JStr string | JArr "json list" | JObj "(string \<times> json) list"

definition json_ws :: "char \<Rightarrow> bool" where
  "json_ws c \<longleftrightarrow> c \<in> {CHR 0x09, CHR 0x0A, CHR 0x0D, CHR 0x20}"

definition skip_ws :: "string \<Rightarrow> string" where
  "skip_ws s = dropWhile json_ws s"

definition hex_val :: "char \<Rightarrow> nat option" where
  "hex_val c = (let n = of_char c :: nat in
     if 48 \<le> n \<and> n \<le> 57 then Some (n - 48)
     else if 97 \<le> n \<and> n \<le> 102 then Some (n - 87)
     else if 65 \<le> n \<and> n \<le> 70 then Some (n - 55) else None)"

fun hex4 :: "string \<Rightarrow> (nat \<times> string) option" where
  "hex4 (a # b # c # d # s) =
     (case (hex_val a, hex_val b, hex_val c, hex_val d) of
        (Some w, Some x, Some y, Some z) \<Rightarrow> Some (((w * 16 + x) * 16 + y) * 16 + z, s)
      | _ \<Rightarrow> None)"
| "hex4 _ = None"

text \<open>The UTF-8 bytes of a code point.\<close>

definition utf8 :: "nat \<Rightarrow> string" where
  "utf8 n =
     (if n < 128 then [char_of n]
      else if n < 2048 then [char_of (192 + n div 64), char_of (128 + n mod 64)]
      else if n < 65536
      then [char_of (224 + n div 4096), char_of (128 + n div 64 mod 64), char_of (128 + n mod 64)]
      else [char_of (240 + n div 262144), char_of (128 + n div 4096 mod 64),
            char_of (128 + n div 64 mod 64), char_of (128 + n mod 64)])"

text \<open>\<open>\\uXXXX\<close>, with surrogate pairs joined and a lone surrogate replaced by U+FFFD.\<close>

definition unescape_u :: "string \<Rightarrow> (string \<times> string) option" where
  "unescape_u s =
     (case hex4 s of
        None \<Rightarrow> None
      | Some (n, r) \<Rightarrow>
          if n < 55296 \<or> 57344 \<le> n then Some (utf8 n, r)
          else if 56320 \<le> n then Some (utf8 65533, r)
          else (case r of
                  b # u # r' \<Rightarrow>
                    if b = CHR 0x5C \<and> u = CHR ''u'' then
                      (case hex4 r' of
                         Some (m, r'') \<Rightarrow>
                           if 56320 \<le> m \<and> m < 57344
                           then Some (utf8 ((n - 55296) * 1024 + (m - 56320) + 65536), r'')
                           else Some (utf8 65533, r)
                       | None \<Rightarrow> None)
                    else Some (utf8 65533, r)
                | _ \<Rightarrow> Some (utf8 65533, r)))"

definition simple_escape :: "char \<Rightarrow> char option" where
  "simple_escape c =
     (if c \<in> {CHR 0x22, CHR 0x5C, CHR ''/''} then Some c
      else if c = CHR ''b'' then Some (CHR 0x08) else if c = CHR ''f'' then Some (CHR 0x0C)
      else if c = CHR ''n'' then Some (CHR 0x0A) else if c = CHR ''r'' then Some (CHR 0x0D)
      else if c = CHR ''t'' then Some (CHR 0x09) else None)"

text \<open>The rest of a string literal after its opening quote.\<close>

fun parse_string :: "nat \<Rightarrow> string \<Rightarrow> (string \<times> string) option" where
  "parse_string (Suc f) (c # s) =
     (if c = CHR 0x22 then Some ([], s)
      else if (of_char c :: nat) < 32 then None
      else if c \<noteq> CHR 0x5C then map_option (\<lambda>(t, r). (c # t, r)) (parse_string f s)
      else (case s of
              [] \<Rightarrow> None
            | e # s' \<Rightarrow>
                if e = CHR ''u'' then
                  (case unescape_u s' of
                     None \<Rightarrow> None
                   | Some (u, s'') \<Rightarrow> map_option (\<lambda>(t, r). (u @ t, r)) (parse_string f s''))
                else (case simple_escape e of
                        None \<Rightarrow> None
                      | Some d \<Rightarrow> map_option (\<lambda>(t, r). (d # t, r)) (parse_string f s'))))"
| "parse_string _ _ = None"

definition digits_of :: "string \<Rightarrow> string" where
  "digits_of s = takeWhile is_digit_char s"

text \<open>A number literal is kept as its text; \<open>None\<close> when there is none.\<close>

definition parse_number :: "string \<Rightarrow> (string \<times> string) option" where
  "parse_number s0 =
     (let sgn = (if has_prefix s0 ''-'' then ''-'' else []);
          s1 = drop (length sgn) s0;
          ip = (if has_prefix s1 ''0'' then ''0'' else digits_of s1);
          s2 = drop (length ip) s1;
          fp = (if has_prefix s2 ''.'' then ''.'' @ digits_of (tl s2) else []);
          s3 = drop (length fp) s2;
          ex = (if s3 \<noteq> [] \<and> hd s3 \<in> {CHR ''e'', CHR ''E''}
                then (let sg = (if tl s3 \<noteq> [] \<and> hd (tl s3) \<in> {CHR ''+'', CHR ''-''} then [hd (tl s3)] else [])
                      in [hd s3] @ sg @ digits_of (drop (length sg) (tl s3)))
                else [])
      in if ip = [] \<or> fp = ''.'' \<or> (ex \<noteq> [] \<and> \<not> is_digit_char (last ex)) then None
         else Some (sgn @ ip @ fp @ ex, drop (length ex) s3))"

fun parse_json :: "nat \<Rightarrow> string \<Rightarrow> (json \<times> string) option"
and parse_elems :: "nat \<Rightarrow> string \<Rightarrow> (json list \<times> string) option"
and parse_members :: "nat \<Rightarrow> string \<Rightarrow> ((string \<times> json) list \<times> string) option" where
  "parse_json 0 s0 = None"
| "parse_json (Suc f) s0 =
     (case skip_ws s0 of
        [] \<Rightarrow> None
      | c # s \<Rightarrow>
          if c = CHR 0x22 then map_option (\<lambda>(t, r). (JStr t, r)) (parse_string (length s + 1) s)
          else if c = CHR ''{'' then
            (if has_prefix (skip_ws s) ''}'' then Some (JObj [], tl (skip_ws s))
             else map_option (\<lambda>(m, r). (JObj m, r)) (parse_members f s))
          else if c = CHR ''['' then
            (if has_prefix (skip_ws s) '']'' then Some (JArr [], tl (skip_ws s))
             else map_option (\<lambda>(m, r). (JArr m, r)) (parse_elems f s))
          else if has_prefix (c # s) ''null'' then Some (JNull, drop 3 s)
          else if has_prefix (c # s) ''true'' then Some (JBool True, drop 3 s)
          else if has_prefix (c # s) ''false'' then Some (JBool False, drop 4 s)
          else map_option (\<lambda>(n, r). (JNum n, r)) (parse_number (c # s)))"
| "parse_elems 0 s = None"
| "parse_elems (Suc f) s =
     (case parse_json f s of
        None \<Rightarrow> None
      | Some (v, r) \<Rightarrow>
          (case skip_ws r of
             [] \<Rightarrow> None
           | c # r' \<Rightarrow>
               if c = CHR '','' then map_option (\<lambda>(vs, t). (v # vs, t)) (parse_elems f r')
               else if c = CHR '']'' then Some ([v], r') else None))"
| "parse_members 0 s = None"
| "parse_members (Suc f) s =
     (case skip_ws s of
        [] \<Rightarrow> None
      | q # s1 \<Rightarrow>
          if q \<noteq> CHR 0x22 then None else
          case parse_string (length s1 + 1) s1 of
            None \<Rightarrow> None
          | Some (k, s2) \<Rightarrow>
              (case skip_ws s2 of
                 [] \<Rightarrow> None
               | col # s3 \<Rightarrow>
                   if col \<noteq> CHR '':'' then None else
                   case parse_json f s3 of
                     None \<Rightarrow> None
                   | Some (v, r) \<Rightarrow>
                       (case skip_ws r of
                          [] \<Rightarrow> None
                        | c # r' \<Rightarrow>
                            if c = CHR '','' then map_option (\<lambda>(ms, t). ((k, v) # ms, t)) (parse_members f r')
                            else if c = CHR ''}'' then Some ([(k, v)], r') else None)))"

text \<open>
  \<^verbatim>\<open>json.Unmarshal\<close> needs the whole body to be one value; a \<^verbatim>\<open>json.Decoder\<close> reads the first
  value of the stream and ignores what follows. The fuel exceeds the number of nested and
  successive values a body of that length can hold.
\<close>

definition json_whole :: "string \<Rightarrow> json option" where
  "json_whole s =
     (case parse_json (2 * length s + 2) s of
        Some (v, r) \<Rightarrow> if skip_ws r = [] then Some v else None
      | None \<Rightarrow> None)"

definition json_first :: "string \<Rightarrow> json option" where
  "json_first s = map_option fst (parse_json (2 * length s + 2) s)"

section \<open>Assigning fields\<close>

definition to_lower :: "string \<Rightarrow> string" where
  "to_lower s = map (\<lambda>c. let n = of_char c :: nat in if 65 \<le> n \<and> n \<le> 90 then char_of (n + 32) else c) s"

definition json_int :: "string \<Rightarrow> int option" where
  "json_int s =
     (let neg = has_prefix s ''-''; ds = (if neg then tl s else s)
      in if ds \<noteq> [] \<and> list_all is_digit_char ds
         then Some (if neg then - int (undec_nat ds) else int (undec_nat ds)) else None)"

text \<open>A setter takes the JSON value and the old field value and says whether the type fits.\<close>

fun set_str :: "json \<Rightarrow> string \<Rightarrow> string \<times> bool" where
  "set_str (JStr s) old = (s, True)"
| "set_str JNull old = (old, True)"
| "set_str _ old = (old, False)"

fun set_bool :: "json \<Rightarrow> bool \<Rightarrow> bool \<times> bool" where
  "set_bool (JBool b) old = (b, True)"
| "set_bool JNull old = (old, True)"
| "set_bool _ old = (old, False)"

fun set_int :: "int \<Rightarrow> int \<Rightarrow> json \<Rightarrow> int \<Rightarrow> int \<times> bool" where
  "set_int lo hi (JNum n) old =
     (case json_int n of Some i \<Rightarrow> if lo \<le> i \<and> i < hi then (i, True) else (old, False)
      | None \<Rightarrow> (old, False))"
| "set_int lo hi JNull old = (old, True)"
| "set_int lo hi _ old = (old, False)"

abbreviation set_i64 :: "json \<Rightarrow> int \<Rightarrow> int \<times> bool" where
  "set_i64 \<equiv> set_int (- 9223372036854775808) 9223372036854775808"
abbreviation set_u64 :: "json \<Rightarrow> int \<Rightarrow> int \<times> bool" where
  "set_u64 \<equiv> set_int 0 18446744073709551616"

text \<open>A pointer field: \<open>null\<close> is nil, otherwise a new value is allocated and assigned.\<close>

fun set_ptr :: "'a \<Rightarrow> (json \<Rightarrow> 'a \<Rightarrow> 'a \<times> bool) \<Rightarrow> json \<Rightarrow> 'a option \<Rightarrow> 'a option \<times> bool" where
  "set_ptr z f JNull old = (None, True)"
| "set_ptr z f v old = (case f v (deref z old) of (x, ok) \<Rightarrow> (Some x, ok))"

fun set_slice :: "'a \<Rightarrow> (json \<Rightarrow> 'a \<Rightarrow> 'a \<times> bool) \<Rightarrow> json \<Rightarrow> 'a list \<Rightarrow> 'a list \<times> bool" where
  "set_slice z f (JArr vs) old = (map (\<lambda>v. fst (f v z)) vs, list_all (\<lambda>v. snd (f v z)) vs)"
| "set_slice z f JNull old = ([], True)"
| "set_slice z f _ old = (old, False)"

text \<open>A struct: its fields as a function from the key to the setter of the whole struct.\<close>

fun set_struct :: "(string \<Rightarrow> (json \<Rightarrow> 'a \<Rightarrow> 'a \<times> bool) option) \<Rightarrow> json \<Rightarrow> 'a \<Rightarrow> 'a \<times> bool" where
  "set_struct flds (JObj ms) old =
     foldl (\<lambda>(x, ok) (k, v).
        case flds (to_lower k) of
          None \<Rightarrow> (x, ok)
        | Some f \<Rightarrow> (case f v x of (x', ok') \<Rightarrow> (x', ok \<and> ok'))) (old, True) ms"
| "set_struct flds JNull old = (old, True)"
| "set_struct flds _ old = (old, False)"

section \<open>Marshalling\<close>

text \<open>
  Strings are escaped as \<^verbatim>\<open>encoding/json\<close> does with its default HTML escaping; the two line
  separators U+2028 and U+2029, which no host name has, are not singled out.
\<close>

definition json_escape :: "char \<Rightarrow> string" where
  "json_escape c =
     (let n = of_char c :: nat;
          d = (\<lambda>k. if k < 10 then char_of (48 + k) else char_of (87 + k)) in
      if c = CHR 0x22 then [CHR 0x5C, CHR 0x22]
      else if c = CHR 0x5C then [CHR 0x5C, CHR 0x5C]
      else if c = CHR 0x08 then [CHR 0x5C, CHR ''b''] else if c = CHR 0x0C then [CHR 0x5C, CHR ''f'']
      else if c = CHR 0x0A then [CHR 0x5C, CHR ''n''] else if c = CHR 0x0D then [CHR 0x5C, CHR ''r'']
      else if c = CHR 0x09 then [CHR 0x5C, CHR ''t'']
      else if n < 32 \<or> c \<in> {CHR ''<'', CHR ''>'', CHR ''&''}
      then [CHR 0x5C, CHR ''u'', CHR ''0'', CHR ''0'', d (n div 16), d (n mod 16)]
      else [c])"

definition json_string :: "string \<Rightarrow> string" where
  "json_string s = dquote (concat (map json_escape s))"

definition json_object :: "(string \<times> string) list \<Rightarrow> string" where
  "json_object kvs = ''{'' @ Join (map (\<lambda>(k, v). dquote k @ '':'' @ v) kvs) '','' @ ''}''"

end
