(* ===== verification/Node_Client.thy ===== *)
theory Node_Client
  imports World Json
begin

text \<open>
  The HTTP client of the database's cluster API and of the proxies' admin API,
  \<^verbatim>\<open>internal/hyperbytedb/client.go\<close>, with the token transport of \<^verbatim>\<open>auth.go\<close>. The request
  context of the source carries at most the cluster token; it is the argument \<open>tok\<close>, empty
  when there is none. Every call leaves exactly one event in the log: the request with its
  outcome, or the refusal to build it.
\<close>

section \<open>Responses\<close>

record ClusterMetrics =
  CMx_Mode :: string
  CMx_NodeAddr :: string
  CMx_NodeID :: int
  CMx_Peers :: "string list"
  CMx_PeerCount :: int

record NodeInfo =
  NI_NodeID :: int
  NI_Addr :: string
  NI_State :: string
  NI_Self :: bool
  NI_LastHeartbeat :: int

record HealthStatus =
  HS_Status :: string
  HS_Message :: string
  HS_NodeID :: int
  HS_State :: string

record ParquetFileManifest =
  PF_Path :: string
  PF_SizeBytes :: int
  PF_OriginNodeID :: "int option"
  PF_MinTime :: int
  PF_MaxTime :: int
  PF_Checksum :: int

record MeasurementManifest =
  MM_Name :: string
  MM_RP :: string
  MM_ParquetFiles :: "ParquetFileManifest list"

record DatabaseManifest =
  DM_Name :: string
  DM_Measurements :: "MeasurementManifest list"

record SyncManifest =
  SMa_NodeID :: int
  SMa_WALLastSeq :: int
  SMa_Databases :: "DatabaseManifest list"

record LeaderInfo =
  LI_LeaderID :: "int option"
  LI_LeaderAddr :: "string option"
  LI_ThisNodeID :: int
  LI_IsLeader :: bool
  LI_Term :: int

record AddNodeResponse =
  AN_NodeID :: int
  AN_Addr :: string
  AN_AddedAsLearner :: bool
  AN_PromotedToVoter :: bool
  AN_LeaderID :: "int option"

record RemoveNodeResponse =
  RN_NodeID :: int
  RN_RemovedFromVoter :: bool
  RN_LeaderID :: "int option"
  RN_RemainingVoters :: "int list"

record ProxyBackendStatus =
  PB_Addr :: string
  PB_Port :: int
  PB_Health :: string
  PB_Excluded :: bool
  PB_Inflight :: int
  PB_ConsecutiveFailures :: int

record NotLeaderBody =
  NL_Error :: string
  NL_LeaderID :: "int option"

subsection \<open>Decoding\<close>

type_synonym 'a setter = "json \<Rightarrow> 'a \<Rightarrow> 'a \<times> bool"

definition fld :: "('s \<Rightarrow> 'a) \<Rightarrow> (('a \<Rightarrow> 'a) \<Rightarrow> 's \<Rightarrow> 's) \<Rightarrow> 'a setter \<Rightarrow> 's setter" where
  "fld g u f = (\<lambda>v x. case f v (g x) of (y, ok) \<Rightarrow> (u (\<lambda>_. y) x, ok))"

definition zero_ClusterMetrics :: ClusterMetrics where
  "zero_ClusterMetrics = \<lparr> CMx_Mode = [], CMx_NodeAddr = [], CMx_NodeID = 0, CMx_Peers = [], CMx_PeerCount = 0 \<rparr>"
definition set_ClusterMetrics :: "ClusterMetrics setter" where
  "set_ClusterMetrics = set_struct (map_of
     [(''mode'', fld CMx_Mode CMx_Mode_update set_str), (''node_addr'', fld CMx_NodeAddr CMx_NodeAddr_update set_str),
      (''node_id'', fld CMx_NodeID CMx_NodeID_update set_i64),
      (''peers'', fld CMx_Peers CMx_Peers_update (set_slice [] set_str)),
      (''peer_count'', fld CMx_PeerCount CMx_PeerCount_update set_i64)])"

definition zero_NodeInfo :: NodeInfo where
  "zero_NodeInfo = \<lparr> NI_NodeID = 0, NI_Addr = [], NI_State = [], NI_Self = False, NI_LastHeartbeat = 0 \<rparr>"
definition set_NodeInfo :: "NodeInfo setter" where
  "set_NodeInfo = set_struct (map_of
     [(''node_id'', fld NI_NodeID NI_NodeID_update set_i64), (''addr'', fld NI_Addr NI_Addr_update set_str),
      (''state'', fld NI_State NI_State_update set_str), (''self'', fld NI_Self NI_Self_update set_bool),
      (''last_heartbeat'', fld NI_LastHeartbeat NI_LastHeartbeat_update set_i64)])"
definition set_nodesResponse :: "NodeInfo list setter" where
  "set_nodesResponse = set_struct (map_of [(''nodes'', set_slice zero_NodeInfo set_NodeInfo)])"

definition zero_HealthStatus :: HealthStatus where
  "zero_HealthStatus = \<lparr> HS_Status = [], HS_Message = [], HS_NodeID = 0, HS_State = [] \<rparr>"
definition set_HealthStatus :: "HealthStatus setter" where
  "set_HealthStatus = set_struct (map_of
     [(''status'', fld HS_Status HS_Status_update set_str), (''message'', fld HS_Message HS_Message_update set_str),
      (''node_id'', fld HS_NodeID HS_NodeID_update set_i64), (''state'', fld HS_State HS_State_update set_str)])"

definition set_ParquetFileManifest :: "ParquetFileManifest setter" where
  "set_ParquetFileManifest = set_struct (map_of
     [(''path'', fld PF_Path PF_Path_update set_str), (''size_bytes'', fld PF_SizeBytes PF_SizeBytes_update set_i64),
      (''origin_node_id'', fld PF_OriginNodeID PF_OriginNodeID_update (set_ptr 0 set_u64)),
      (''min_time'', fld PF_MinTime PF_MinTime_update set_i64), (''max_time'', fld PF_MaxTime PF_MaxTime_update set_i64),
      (''checksum'', fld PF_Checksum PF_Checksum_update (set_int 0 4294967296))])"
definition set_MeasurementManifest :: "MeasurementManifest setter" where
  "set_MeasurementManifest = set_struct (map_of
     [(''name'', fld MM_Name MM_Name_update set_str), (''rp'', fld MM_RP MM_RP_update set_str),
      (''parquet_files'', fld MM_ParquetFiles MM_ParquetFiles_update (set_slice
         \<lparr> PF_Path = [], PF_SizeBytes = 0, PF_OriginNodeID = None, PF_MinTime = 0, PF_MaxTime = 0, PF_Checksum = 0 \<rparr>
         set_ParquetFileManifest))])"
definition set_DatabaseManifest :: "DatabaseManifest setter" where
  "set_DatabaseManifest = set_struct (map_of
     [(''name'', fld DM_Name DM_Name_update set_str),
      (''measurements'', fld DM_Measurements DM_Measurements_update (set_slice
         \<lparr> MM_Name = [], MM_RP = [], MM_ParquetFiles = [] \<rparr> set_MeasurementManifest))])"
definition set_SyncManifest :: "SyncManifest setter" where
  "set_SyncManifest = set_struct (map_of
     [(''node_id'', fld SMa_NodeID SMa_NodeID_update set_i64),
      (''wal_last_seq'', fld SMa_WALLastSeq SMa_WALLastSeq_update set_i64),
      (''databases'', fld SMa_Databases SMa_Databases_update (set_slice
         \<lparr> DM_Name = [], DM_Measurements = [] \<rparr> set_DatabaseManifest))])"

definition zero_LeaderInfo :: LeaderInfo where
  "zero_LeaderInfo = \<lparr> LI_LeaderID = None, LI_LeaderAddr = None, LI_ThisNodeID = 0, LI_IsLeader = False, LI_Term = 0 \<rparr>"
definition set_LeaderInfo :: "LeaderInfo setter" where
  "set_LeaderInfo = set_struct (map_of
     [(''leader_id'', fld LI_LeaderID LI_LeaderID_update (set_ptr 0 set_u64)),
      (''leader_addr'', fld LI_LeaderAddr LI_LeaderAddr_update (set_ptr [] set_str)),
      (''this_node_id'', fld LI_ThisNodeID LI_ThisNodeID_update set_u64),
      (''is_leader'', fld LI_IsLeader LI_IsLeader_update set_bool), (''term'', fld LI_Term LI_Term_update set_u64)])"

definition zero_AddNodeResponse :: AddNodeResponse where
  "zero_AddNodeResponse = \<lparr> AN_NodeID = 0, AN_Addr = [], AN_AddedAsLearner = False, AN_PromotedToVoter = False, AN_LeaderID = None \<rparr>"
definition set_AddNodeResponse :: "AddNodeResponse setter" where
  "set_AddNodeResponse = set_struct (map_of
     [(''node_id'', fld AN_NodeID AN_NodeID_update set_u64), (''addr'', fld AN_Addr AN_Addr_update set_str),
      (''added_as_learner'', fld AN_AddedAsLearner AN_AddedAsLearner_update set_bool),
      (''promoted_to_voter'', fld AN_PromotedToVoter AN_PromotedToVoter_update set_bool),
      (''leader_id'', fld AN_LeaderID AN_LeaderID_update (set_ptr 0 set_u64))])"

definition zero_RemoveNodeResponse :: RemoveNodeResponse where
  "zero_RemoveNodeResponse = \<lparr> RN_NodeID = 0, RN_RemovedFromVoter = False, RN_LeaderID = None, RN_RemainingVoters = [] \<rparr>"
definition set_RemoveNodeResponse :: "RemoveNodeResponse setter" where
  "set_RemoveNodeResponse = set_struct (map_of
     [(''node_id'', fld RN_NodeID RN_NodeID_update set_u64),
      (''removed_from_voters'', fld RN_RemovedFromVoter RN_RemovedFromVoter_update set_bool),
      (''leader_id'', fld RN_LeaderID RN_LeaderID_update (set_ptr 0 set_u64)),
      (''remaining_voters'', fld RN_RemainingVoters RN_RemainingVoters_update (set_slice 0 set_u64))])"

definition set_ProxyBackendStatus :: "ProxyBackendStatus setter" where
  "set_ProxyBackendStatus = set_struct (map_of
     [(''addr'', fld PB_Addr PB_Addr_update set_str), (''port'', fld PB_Port PB_Port_update set_i64),
      (''health'', fld PB_Health PB_Health_update set_str), (''excluded'', fld PB_Excluded PB_Excluded_update set_bool),
      (''inflight'', fld PB_Inflight PB_Inflight_update set_i64),
      (''consecutive_failures'', fld PB_ConsecutiveFailures PB_ConsecutiveFailures_update set_i64)])"

definition set_NotLeaderBody :: "NotLeaderBody setter" where
  "set_NotLeaderBody = set_struct (map_of
     [(''error'', fld NL_Error NL_Error_update set_str),
      (''leader_id'', fld NL_LeaderID NL_LeaderID_update (set_ptr 0 set_u64))])"

text \<open>\<^verbatim>\<open>json.NewDecoder(resp.Body).Decode(&x)\<close> into a zero value.\<close>

definition Decode :: "'a setter \<Rightarrow> 'a \<Rightarrow> string \<Rightarrow> 'a result" where
  "Decode f z body =
     (case json_first body of
        None \<Rightarrow> Inl (PlainErr ''invalid JSON'')
      | Some v \<Rightarrow> (case f v z of (x, ok) \<Rightarrow>
          if ok then Inr x else Inl (PlainErr ''json: cannot unmarshal value into Go struct field'')))"

section \<open>Sending\<close>

definition ClusterTokenHeader :: string where
  "ClusterTokenHeader = ''x-hyperbytedb-cluster-token''"

definition RoundTrip :: "'w sys \<Rightarrow> string \<Rightarrow> http_req \<Rightarrow> ('w, http_resp result) prog" where
  "RoundTrip S tok req =
     (let req' = (if tok \<noteq> [] then req\<lparr> Req_Header := Req_Header req @ [(ClusterTokenHeader, tok)] \<rparr> else req)
      in do { r \<leftarrow> call (http_round_trip S req'); emit (EvHttp req' r); ret r })"

definition endpoint :: "string \<Rightarrow> int \<Rightarrow> string \<Rightarrow> string" where
  "endpoint host port path = ''http://'' @ host @ '':'' @ dec port @ path"

text \<open>
  \<^verbatim>\<open>http.NewRequestWithContext\<close> and \<^verbatim>\<open>httpClient.Do\<close>; the flag of the first component says
  that the request could not even be built (some callers wrap only the error of \<^verbatim>\<open>Do\<close>).
\<close>

definition send :: "'w sys \<Rightarrow> string \<Rightarrow> http_method \<Rightarrow> string \<Rightarrow> string option \<Rightarrow> ('w, (bool \<times> err) + http_resp) prog" where
  "send S tok m u body =
     (case http_new_request S m u of
        Some e \<Rightarrow> do { emit (EvNoRequest m u e); ret (Inl (True, e)) }
      | None \<Rightarrow> do {
          r \<leftarrow> RoundTrip S tok \<lparr> Req_Method = m, Req_URL = u,
                 Req_Header = (if body = None then [] else [(''Content-Type'', ''application/json'')]),
                 Req_Body = body \<rparr>;
          ret (map_sum (Pair False) id r) })"

definition sendE :: "'w sys \<Rightarrow> string \<Rightarrow> http_method \<Rightarrow> string \<Rightarrow> string option \<Rightarrow> ('w, http_resp result) prog" where
  "sendE S tok m u body = do { r \<leftarrow> send S tok m u body; ret (map_sum snd id r) }"

definition status_err :: "string \<Rightarrow> http_resp \<Rightarrow> err" where
  "status_err what resp =
     PlainErr (what @ '' returned '' @ dec (Resp_Status resp) @ '': '' @ Resp_Body resp)"

text \<open>
  The client's calls all send one request and compute their result from the response. Three
  shapes occur: a query whose 200 answer is decoded, a command accepted by a list of status
  codes, and a membership change, where 503 means that the target is not the leader (its
  body may name the leader).
\<close>

definition exchange ::
  "'w sys \<Rightarrow> string \<Rightarrow> http_method \<Rightarrow> string \<Rightarrow> string option \<Rightarrow> (http_resp \<Rightarrow> 'a result) \<Rightarrow> ('w, 'a result) prog" where
  "exchange S tok m u body g = attempt (sendE S tok m u body) (\<lambda>resp. ret (g resp))"

definition fetched :: "string \<Rightarrow> string \<Rightarrow> 'a setter \<Rightarrow> 'a \<Rightarrow> http_resp \<Rightarrow> 'a result" where
  "fetched what decoding f z resp =
     (if Resp_Status resp \<noteq> 200 then Inl (status_err what resp)
      else map_sum (WrapErr decoding) id (Decode f z (Resp_Body resp)))"

definition accepted :: "int list \<Rightarrow> string \<Rightarrow> http_resp \<Rightarrow> unit result" where
  "accepted good what resp =
     (if Resp_Status resp \<in> set good then Inr () else Inl (status_err what resp))"

definition not_leader :: "http_resp \<Rightarrow> err" where
  "not_leader resp =
     ErrNotLeader (case json_first (Resp_Body resp) of
        None \<Rightarrow> None
      | Some v \<Rightarrow> NL_LeaderID (fst (set_NotLeaderBody v \<lparr> NL_Error = [], NL_LeaderID = None \<rparr>)))"

definition changed_member :: "string \<Rightarrow> string \<Rightarrow> 'a setter \<Rightarrow> 'a \<Rightarrow> http_resp \<Rightarrow> 'a result" where
  "changed_member what decoding f z resp =
     (if Resp_Status resp = 503 then Inl (not_leader resp) else fetched what decoding f z resp)"

section \<open>The client\<close>

definition GetClusterMetrics :: "'w sys \<Rightarrow> string \<Rightarrow> string \<Rightarrow> int \<Rightarrow> ('w, ClusterMetrics result) prog" where
  "GetClusterMetrics S tok host port =
     exchange S tok MethodGet (endpoint host port ''/cluster/metrics'') None
       (fetched ''cluster/metrics'' ''decoding cluster metrics'' set_ClusterMetrics zero_ClusterMetrics)"

definition GetClusterNodes :: "'w sys \<Rightarrow> string \<Rightarrow> string \<Rightarrow> int \<Rightarrow> ('w, NodeInfo list result) prog" where
  "GetClusterNodes S tok host port =
     exchange S tok MethodGet (endpoint host port ''/cluster/nodes'') None
       (fetched ''cluster/nodes'' ''decoding cluster nodes'' set_nodesResponse [])"

definition DrainNode :: "'w sys \<Rightarrow> string \<Rightarrow> string \<Rightarrow> int \<Rightarrow> ('w, unit result) prog" where
  "DrainNode S tok host port =
     exchange S tok MethodPost (endpoint host port ''/internal/drain'') None
       (accepted [200, 204, 202] ''drain'')"

definition DecommissionNode :: "'w sys \<Rightarrow> string \<Rightarrow> string \<Rightarrow> int \<Rightarrow> ('w, unit result) prog" where
  "DecommissionNode S tok host port =
     exchange S tok MethodPost (endpoint host port ''/internal/decommission'') None
       (accepted [200, 204, 202] ''decommission'')"

text \<open>
  What \<^verbatim>\<open>GetNodeHealth\<close> makes of a response: a body that is not JSON counts as the basic
  endpoint, a body with a field of the wrong type keeps the fields decoded so far.
\<close>

definition health_of_response :: "http_resp \<Rightarrow> HealthStatus result" where
  "health_of_response resp =
     (case Resp_ReadErr resp of
        Some e \<Rightarrow> Inl (WrapErr ''reading health response'' e)
      | None \<Rightarrow>
          (let (hs0, ok) = (case json_whole (Resp_Body resp) of
                 None \<Rightarrow> (zero_HealthStatus, False)
               | Some v \<Rightarrow> set_HealthStatus v zero_HealthStatus);
               hs1 = (if ok then hs0
                      else if Resp_Status resp = 200 then hs0\<lparr> HS_Status := ''Active'' \<rparr>
                      else hs0\<lparr> HS_Status := ''Unhealthy'' \<rparr>);
               hs2 = (if Resp_Status resp = 503 \<and> HS_Status hs1 = []
                      then hs1\<lparr> HS_Status := ''Unavailable'' \<rparr> else hs1)
           in Inr hs2))"

definition GetNodeHealth :: "'w sys \<Rightarrow> string \<Rightarrow> string \<Rightarrow> int \<Rightarrow> ('w, HealthStatus result) prog" where
  "GetNodeHealth S tok host port =
     exchange S tok MethodGet (endpoint host port ''/health'') None health_of_response"

definition CheckHealth :: "'w sys \<Rightarrow> string \<Rightarrow> string \<Rightarrow> int \<Rightarrow> ('w, unit result) prog" where
  "CheckHealth S tok host port =
     exchange S tok MethodGet (endpoint host port ''/health'') None (\<lambda>resp.
       if Resp_Status resp \<noteq> 200
       then Inl (PlainErr (''health check returned '' @ dec (Resp_Status resp)))
       else Inr ())"

definition TotalParquetFiles :: "SyncManifest \<Rightarrow> int" where
  "TotalParquetFiles m =
     sum_list (concat (map (\<lambda>db. map (\<lambda>meas. int (length (MM_ParquetFiles meas))) (DM_Measurements db))
                           (SMa_Databases m)))"

definition GetSyncManifest :: "'w sys \<Rightarrow> string \<Rightarrow> string \<Rightarrow> int \<Rightarrow> ('w, SyncManifest result) prog" where
  "GetSyncManifest S tok host port =
     exchange S tok MethodGet (endpoint host port ''/internal/sync/manifest'') None
       (fetched ''sync/manifest'' ''decoding sync manifest'' set_SyncManifest
          \<lparr> SMa_NodeID = 0, SMa_WALLastSeq = 0, SMa_Databases = [] \<rparr>)"

definition join_node_body :: "int \<Rightarrow> string \<Rightarrow> string" where
  "join_node_body nodeID nodeAddr = json_object [(''node_id'', dec nodeID), (''addr'', json_string nodeAddr)]"

definition JoinNode :: "'w sys \<Rightarrow> string \<Rightarrow> string \<Rightarrow> int \<Rightarrow> int \<Rightarrow> string \<Rightarrow> ('w, unit result) prog" where
  "JoinNode S tok host port nodeID nodeAddr =
     exchange S tok MethodPost (endpoint host port ''/internal/membership/join'')
       (Some (join_node_body nodeID nodeAddr))
       (accepted [200, 201] ''membership/join'')"

definition GetClusterLeader :: "'w sys \<Rightarrow> string \<Rightarrow> string \<Rightarrow> int \<Rightarrow> ('w, LeaderInfo result) prog" where
  "GetClusterLeader S tok host port =
     exchange S tok MethodGet (endpoint host port ''/cluster/leader'') None
       (fetched ''cluster/leader'' ''decoding cluster leader'' set_LeaderInfo zero_LeaderInfo)"

definition add_node_body :: "int \<Rightarrow> string \<Rightarrow> bool \<Rightarrow> string" where
  "add_node_body nodeID nodeAddr promote =
     json_object [(''node_id'', dec nodeID), (''addr'', json_string nodeAddr), (''promote'', fmt_t promote)]"

definition AddClusterNode ::
  "'w sys \<Rightarrow> string \<Rightarrow> string \<Rightarrow> int \<Rightarrow> int \<Rightarrow> string \<Rightarrow> bool \<Rightarrow> ('w, AddNodeResponse result) prog" where
  "AddClusterNode S tok host port nodeID nodeAddr promote =
     exchange S tok MethodPost (endpoint host port ''/cluster/membership/add-node'')
       (Some (add_node_body nodeID nodeAddr promote))
       (changed_member ''membership/add-node'' ''decoding add-node response'' set_AddNodeResponse zero_AddNodeResponse)"

definition node_id_body :: "int \<Rightarrow> string" where
  "node_id_body nodeID = json_object [(''node_id'', dec nodeID)]"

definition RemoveClusterNode ::
  "'w sys \<Rightarrow> string \<Rightarrow> string \<Rightarrow> int \<Rightarrow> int \<Rightarrow> ('w, RemoveNodeResponse result) prog" where
  "RemoveClusterNode S tok host port nodeID =
     exchange S tok MethodPost (endpoint host port ''/cluster/membership/remove-node'') (Some (node_id_body nodeID))
       (changed_member ''membership/remove-node'' ''decoding remove-node response''
          set_RemoveNodeResponse zero_RemoveNodeResponse)"

definition LeaveNode :: "'w sys \<Rightarrow> string \<Rightarrow> string \<Rightarrow> int \<Rightarrow> int \<Rightarrow> ('w, unit result) prog" where
  "LeaveNode S tok host port departedNodeID =
     exchange S tok MethodPost (endpoint host port ''/internal/membership/leave'') (Some (node_id_body departedNodeID))
       (accepted [200, 204] ''membership/leave'')"

definition ExcludeProxyBackend :: "'w sys \<Rightarrow> string \<Rightarrow> string \<Rightarrow> int \<Rightarrow> string \<Rightarrow> ('w, unit result) prog" where
  "ExcludeProxyBackend S tok proxyHost port ip = do {
     r \<leftarrow> send S tok MethodPost (endpoint proxyHost port (''/admin/backends/'' @ ip @ ''/exclude'')) None;
     case r of
       Inl (unbuilt, e) \<Rightarrow> ret (Inl (if unbuilt then e else WrapErr (''exclude backend '' @ ip) e))
     | Inr resp \<Rightarrow>
         if Resp_Status resp = 200 \<or> Resp_Status resp = 409 then ret (Inr ())
         else if Resp_Status resp = 404 \<and> Contains (Resp_Body resp) ''not found in pool'' then ret (Inr ())
         else ret (Inl (status_err (''exclude backend '' @ ip) resp)) }"

definition IncludeProxyBackend :: "'w sys \<Rightarrow> string \<Rightarrow> string \<Rightarrow> int \<Rightarrow> string \<Rightarrow> ('w, unit result) prog" where
  "IncludeProxyBackend S tok proxyHost port ip = do {
     r \<leftarrow> send S tok MethodPost (endpoint proxyHost port (''/admin/backends/'' @ ip @ ''/include'')) None;
     case r of
       Inl (unbuilt, e) \<Rightarrow> ret (Inl (if unbuilt then e else WrapErr (''include backend '' @ ip) e))
     | Inr resp \<Rightarrow>
         if Resp_Status resp \<noteq> 200 then ret (Inl (status_err (''include backend '' @ ip) resp))
         else ret (Inr ()) }"

definition GetProxyPoolState :: "'w sys \<Rightarrow> string \<Rightarrow> string \<Rightarrow> int \<Rightarrow> ('w, ProxyBackendStatus list result) prog" where
  "GetProxyPoolState S tok proxyHost port = do {
     r \<leftarrow> send S tok MethodGet (endpoint proxyHost port ''/admin/pool'') None;
     case r of
       Inl (unbuilt, e) \<Rightarrow> ret (Inl (if unbuilt then e else WrapErr ''get proxy pool state'' e))
     | Inr resp \<Rightarrow>
         if Resp_Status resp \<noteq> 200 then ret (Inl (status_err ''proxy pool state'' resp))
         else ret (map_sum (WrapErr ''decoding proxy pool state'') id
                (Decode (set_slice \<lparr> PB_Addr = [], PB_Port = 0, PB_Health = [], PB_Excluded = False,
                           PB_Inflight = 0, PB_ConsecutiveFailures = 0 \<rparr> set_ProxyBackendStatus)
                   [] (Resp_Body resp))) }"

section \<open>One call, one event\<close>

fun http_to :: "http_method \<Rightarrow> string \<Rightarrow> string option \<Rightarrow> event \<Rightarrow> bool" where
  "http_to m u body (EvHttp q _) \<longleftrightarrow> Req_Method q = m \<and> Req_URL q = u \<and> Req_Body q = body"
| "http_to m u body (EvNoRequest m' u' _) \<longleftrightarrow> m' = m \<and> u' = u"
| "http_to m u body _ \<longleftrightarrow> False"

text \<open>The response an event of the client stands for, and a call's result as a function of it.\<close>

fun answer :: "event \<Rightarrow> http_resp result" where
  "answer (EvHttp _ r) = r"
| "answer (EvNoRequest _ _ e) = Inl e"
| "answer _ = Inl (PlainErr [])"

definition result_of :: "(http_resp \<Rightarrow> 'a result) \<Rightarrow> event \<Rightarrow> 'a result" where
  "result_of g e = (case answer e of Inl x \<Rightarrow> Inl x | Inr resp \<Rightarrow> g resp)"

text \<open>Requests of the client carry the cluster token whenever the context has one.\<close>

definition token_sent :: "string \<Rightarrow> event \<Rightarrow> bool" where
  "token_sent tok e \<longleftrightarrow> (case e of EvHttp q _ \<Rightarrow> tok \<noteq> [] \<longrightarrow> (ClusterTokenHeader, tok) \<in> set (Req_Header q) | _ \<Rightarrow> True)"

lemma send_one:
  assumes "run_state (send S tok m u body) s = (r, t)"
  obtains e where "log t = log s @ [e]" "http_to m u body e" "token_sent tok e" "map_sum snd id r = answer e"
proof (cases "http_new_request S m u")
  case (Some x)
  with assms have "log t = log s @ [EvNoRequest m u x]" "r = Inl (True, x)"
    by (auto simp: send_def emit_def)
  with that show ?thesis by (fastforce simp: token_sent_def)
next
  case None
  define q where "q = \<lparr> Req_Method = m, Req_URL = u,
     Req_Header = (if body = None then [] else [(''Content-Type'', ''application/json'')])
       @ (if tok \<noteq> [] then [(ClusterTokenHeader, tok)] else []), Req_Body = body \<rparr>"
  obtain a x where call: "http_round_trip S q (ext s) = (a, x)" by fastforce
  have "log t = log s @ [EvHttp q a]" "r = map_sum (Pair False) id a"
    using assms None call
    by (auto simp: send_def RoundTrip_def Let_def call_def emit_def q_def split: prod.splits if_splits)
  moreover have "map_sum snd id (map_sum (Pair False) id a) = a" by (cases a) simp_all
  ultimately show ?thesis
    by (intro that [of "EvHttp q a"]) (simp_all add: token_sent_def q_def)
qed

lemma exchange_one:
  assumes "run_state (exchange S tok m u body g) s = (r, t)"
  obtains e where "log t = log s @ [e]" "http_to m u body e" "token_sent tok e" "r = result_of g e"
proof -
  obtain r0 t0 where s0: "run_state (send S tok m u body) s = (r0, t0)" by fastforce
  obtain e where e: "log t0 = log s @ [e]" "http_to m u body e" "token_sent tok e" "map_sum snd id r0 = answer e"
    using send_one [OF s0] .
  have "t = t0" "r = (case map_sum snd id r0 of Inl x \<Rightarrow> Inl x | Inr a \<Rightarrow> g a)"
    using assms s0 by (auto simp: exchange_def attempt_def sendE_def split: sum.splits)
  with e that show thesis by (simp add: result_of_def)
qed

lemma emits_exchange:
  "(\<And>e. http_to m u body e \<Longrightarrow> token_sent tok e \<Longrightarrow> P e) \<Longrightarrow> emits P (exchange S tok m u body g)"
  by (rule emitsI) (metis exchange_one list.pred_inject)

lemma emits_send:
  "(\<And>e. http_to m u body e \<Longrightarrow> token_sent tok e \<Longrightarrow> P e) \<Longrightarrow> emits P (send S tok m u body)"
  by (rule emitsI) (metis send_one list.pred_inject)

lemmas client_defs = GetClusterMetrics_def GetClusterNodes_def DrainNode_def DecommissionNode_def
  GetNodeHealth_def CheckHealth_def GetSyncManifest_def JoinNode_def GetClusterLeader_def
  AddClusterNode_def RemoveClusterNode_def LeaveNode_def

lemma emits_client:
  "(\<And>e. http_to MethodGet (endpoint h p ''/cluster/nodes'') None e \<Longrightarrow> P e) \<Longrightarrow> emits P (GetClusterNodes S tok h p)"
  "(\<And>e. http_to MethodPost (endpoint h p ''/internal/decommission'') None e \<Longrightarrow> P e) \<Longrightarrow>
     emits P (DecommissionNode S tok h p)"
  "(\<And>e. http_to MethodGet (endpoint h p ''/health'') None e \<Longrightarrow> P e) \<Longrightarrow> emits P (GetNodeHealth S tok h p)"
  "(\<And>e. http_to MethodGet (endpoint h p ''/internal/sync/manifest'') None e \<Longrightarrow> P e) \<Longrightarrow>
     emits P (GetSyncManifest S tok h p)"
  "(\<And>e. http_to MethodGet (endpoint h p ''/cluster/leader'') None e \<Longrightarrow> P e) \<Longrightarrow> emits P (GetClusterLeader S tok h p)"
  "(\<And>e. http_to MethodPost (endpoint h p ''/cluster/membership/add-node'') (Some (add_node_body i a b)) e \<Longrightarrow> P e) \<Longrightarrow>
     emits P (AddClusterNode S tok h p i a b)"
  "(\<And>e. http_to MethodPost (endpoint h p ''/cluster/membership/remove-node'') (Some (node_id_body i)) e \<Longrightarrow> P e) \<Longrightarrow>
     emits P (RemoveClusterNode S tok h p i)"
  "(\<And>e. http_to MethodPost (endpoint h p ''/internal/membership/leave'') (Some (node_id_body i)) e \<Longrightarrow> P e) \<Longrightarrow>
     emits P (LeaveNode S tok h p i)"
  unfolding client_defs by (auto intro: emits_exchange)

lemma emits_proxy_client:
  "(\<And>e. http_to MethodPost (endpoint h p (''/admin/backends/'' @ ip @ ''/exclude'')) None e \<Longrightarrow> P e) \<Longrightarrow>
     emits P (ExcludeProxyBackend S tok h p ip)"
  "(\<And>e. http_to MethodPost (endpoint h p (''/admin/backends/'' @ ip @ ''/include'')) None e \<Longrightarrow> P e) \<Longrightarrow>
     emits P (IncludeProxyBackend S tok h p ip)"
  unfolding ExcludeProxyBackend_def IncludeProxyBackend_def
  by (intro emits_intro emits_send; blast)+

end
