(* ===== verification/Semver_Ref.thy ===== *)
theory Semver_Ref
  imports Compat "HOL-Library.Char_ord" "HOL-Library.List_Lexorder" "HOL-Library.Product_Lexorder"
begin

text \<open>
  SemVer 2.0 precedence as the documentation of \<^verbatim>\<open>github.com/Masterminds/semver/v3\<close>
  states it: an optional leading \<^verbatim>\<open>v\<close>, one to three numeric parts (missing ones are 0),
  an optional pre-release after \<open>-\<close> whose dot-separated identifiers compare numerically
  or by byte, build metadata after \<open>+\<close> ignored, a pre-release before its release. It is
  the concrete semver library the theorems with the parameter \<^typ>\<open>semver\<close> are evaluated with.
\<close>

fun split_on :: "char \<Rightarrow> string \<Rightarrow> string list" where
  "split_on d [] = [[]]"
| "split_on d (c # s) =
     (if c = d then [] # split_on d s
      else case split_on d s of [] \<Rightarrow> [[c]] | w # ws \<Rightarrow> (c # w) # ws)"

fun cut_at :: "char \<Rightarrow> string \<Rightarrow> string \<times> string option" where
  "cut_at d [] = ([], None)"
| "cut_at d (c # s) = (if c = d then ([], Some s) else case cut_at d s of (a, b) \<Rightarrow> (c # a, b))"

definition all_digits :: "string \<Rightarrow> bool" where
  "all_digits s \<longleftrightarrow> s \<noteq> [] \<and> list_all is_digit_char s"

type_synonym version_key = "nat \<times> nat \<times> nat \<times> nat \<times> (nat \<times> nat \<times> string) list"

definition ident_key :: "string \<Rightarrow> nat \<times> nat \<times> string" where
  "ident_key s = (if all_digits s then (0, undec_nat s, []) else (1, 0, s))"

definition version_key :: "string \<Rightarrow> version_key option" where
  "version_key s0 =
     (let s = TrimPrefix s0 ''v'';
          (core_pre, _) = cut_at CHR ''+'' s;
          (core, pre) = cut_at CHR ''-'' core_pre;
          parts = split_on CHR ''.'' core;
          nums = map undec_nat parts;
          tail = (case pre of None \<Rightarrow> Some (1, []) | Some p \<Rightarrow>
                    (let ids = split_on CHR ''.'' p
                     in if list_all (\<lambda>i. i \<noteq> []) ids then Some (0, map ident_key ids) else None))
      in if list_all all_digits parts \<and> length parts \<le> 3
         then (case tail of None \<Rightarrow> None | Some (rel, ids) \<Rightarrow>
            Some (nums ! 0, (if length nums > 1 then nums ! 1 else 0),
                  (if length nums > 2 then nums ! 2 else 0), rel, ids))
         else None)"

definition semver_ref :: semver where
  "semver_ref = \<lparr> sv_valid = (\<lambda>s. version_key s \<noteq> None),
     sv_compare = (\<lambda>a b. let ka = deref (0, 0, 0, 0, []) (version_key a);
                             kb = deref (0, 0, 0, 0, []) (version_key b)
                         in if ka < kb then -1 else if kb < ka then 1 else 0) \<rparr>"

lemma version_key_constants:
  "version_key ''0.8.0'' = Some (0, 8, 0, 1, [])"
  "version_key ''0.9.0-beta'' = Some (0, 9, 0, 0, [(1, 0, ''beta'')])"
  "version_key ''0.9.1-beta'' = Some (0, 9, 1, 0, [(1, 0, ''beta'')])"
  "version_key ''0.9.3-beta'' = Some (0, 9, 3, 0, [(1, 0, ''beta'')])"
  by code_simp+

interpretation ref_semver: semver_laws semver_ref
proof
  fix u v w :: string
  let ?k = "\<lambda>s. deref (0, 0, 0, 0, []) (version_key s)"
  show "sv_compare semver_ref v v = 0"
    by (simp add: semver_ref_def)
  show "sv_compare semver_ref v w < 0 \<longleftrightarrow> sv_compare semver_ref w v > 0"
    by (auto simp: semver_ref_def Let_def)
  have ge: "sv_compare semver_ref a b \<ge> 0 \<longleftrightarrow> ?k b \<le> ?k a" for a b
    by (auto simp: semver_ref_def Let_def)
  assume "sv_compare semver_ref u v \<ge> 0" "sv_compare semver_ref v w \<ge> 0"
  then show "sv_compare semver_ref u w \<ge> 0"
    unfolding ge by (rule order_trans [rotated])
qed (simp_all add: semver_ref_def version_key_constants Let_def)

section \<open>Properties\<close>

text \<open>
  Capability gating is monotone in the version, for every semver library whose
  comparison is a total preorder: if a resolved database version supports a capability,
  a cluster resolving to the same or a later version supports it too, and any version
  that supports cluster authentication supports every capability of the matrix.
\<close>

lemma Supports_monotone:
  assumes "semver_laws sv"
    and "DV_Version (ResolveDatabaseVersion sv c) = Some v"
    and "DV_Version (ResolveDatabaseVersion sv d) = Some w"
    and "sv_compare sv w v \<ge> 0"
  shows "(Supports sv c cap \<longrightarrow> Supports sv d cap) \<and>
         (Supports sv c CapabilityClusterAuth \<longrightarrow> Supports sv d cap)"
  using semver_laws.supports_mono [OF assms(1) _ assms(4)]
    semver_laws.auth_implies_all [OF assms(1)] assms(2,3)
  by (auto simp: Supports_def)

definition versioned_cluster :: "string \<Rightarrow> HyperbytedbCluster" where
  "versioned_cluster v = (new_cluster ''tsdb'' ''prod'')\<lparr> Spec := zero_ClusterSpec\<lparr> Spec_Version := v \<rparr> \<rparr>"

lemma versioned_cluster_resolves:
  "DV_Version (ResolveDatabaseVersion semver_ref (versioned_cluster ''v0.9.1-beta'')) = Some ''0.9.1-beta''"
  "DV_Version (ResolveDatabaseVersion semver_ref (versioned_cluster ''0.9.3-beta'')) = Some ''0.9.3-beta''"
  by code_simp+

lemma Supports_monotone_ref:
  "Supports semver_ref (versioned_cluster ''v0.9.1-beta'') CapabilityClusterAuth \<and>
   Supports semver_ref (versioned_cluster ''0.9.3-beta'') CapabilitySharding"
proof -
  have le: "sv_compare semver_ref ''0.9.3-beta'' ''0.9.1-beta'' \<ge> 0" by code_simp
  have "Supports semver_ref (versioned_cluster ''v0.9.1-beta'') CapabilityClusterAuth" by code_simp
  with Supports_monotone [OF ref_semver.semver_laws_axioms versioned_cluster_resolves le]
  show ?thesis by blast
qed

end
