(* ===== verification/Sim.thy ===== *)
theory Sim
  imports Node_Client Semver_Ref "HOL-Library.AList"
begin

text \<open>
  A concrete outside: an in-memory Kubernetes API that keeps the objects of every kind in an
  association list and answers as the API server documents (NotFound, AlreadyExists), a
  table of HTTP answers, a clock that stands still. It instantiates the parameter \<^typ>\<open>'w sys\<close>
  of the controllers, so that theorems about every outside can be evaluated on one.
\<close>

record sim =
  sim_now :: time
  sim_http :: "(string \<times> http_resp) list"   \<comment> \<open>URL and answer; any other host is unreachable\<close>
  sim_clusters :: "(nn \<times> HyperbytedbCluster) list"
  sim_backups :: "(nn \<times> HyperbytedbBackup) list"
  sim_restores :: "(nn \<times> HyperbytedbRestore) list"
  sim_sts :: "(nn \<times> sts) list"
  sim_pods :: "(nn \<times> pod) list"
  sim_pvcs :: "(nn \<times> pvc) list"
  sim_svcs :: "(nn \<times> service) list"
  sim_cms :: "(nn \<times> config_map) list"
  sim_secrets :: "(nn \<times> secret) list"
  sim_pdbs :: "(nn \<times> pdb) list"
  sim_hpas :: "(nn \<times> hpa) list"
  sim_deps :: "(nn \<times> deployment) list"
  sim_sms :: "(nn \<times> service_monitor) list"
  sim_jobs :: "(nn \<times> job) list"
  sim_crons :: "(nn \<times> cron_job) list"

definition sim_empty :: sim where
  "sim_empty = \<lparr> sim_now = 0, sim_http = [], sim_clusters = [], sim_backups = [], sim_restores = [],
     sim_sts = [], sim_pods = [], sim_pvcs = [], sim_svcs = [], sim_cms = [], sim_secrets = [],
     sim_pdbs = [], sim_hpas = [], sim_deps = [], sim_sms = [], sim_jobs = [], sim_crons = [] \<rparr>"

definition key_of :: "object_meta \<Rightarrow> nn" where
  "key_of m = \<lparr> NN_Namespace = Meta_Namespace m, NN_Name = Meta_Name m \<rparr>"

definition no_such :: err where "no_such = ApiErr NotFound ''not found''"

text \<open>An API over one list of the simulated state.\<close>

definition mem_api ::
  "('o \<Rightarrow> object_meta) \<Rightarrow> ('w \<Rightarrow> (nn \<times> 'o) list) \<Rightarrow>
   (((nn \<times> 'o) list \<Rightarrow> (nn \<times> 'o) list) \<Rightarrow> 'w \<Rightarrow> 'w) \<Rightarrow> ('o, 'w) kind_api" where
  "mem_api mt objs upd =
     (let replace = (\<lambda>obj w. if map_of (objs w) (key_of (mt obj)) = None then (Inl no_such, w)
                       else (Inr obj, upd (AList.update (key_of (mt obj)) obj) w))
      in \<lparr> k_get = (\<lambda>k w. (case map_of (objs w) k of None \<Rightarrow> Inl no_such | Some obj \<Rightarrow> Inr obj, w)),
           k_list = (\<lambda>ns sel w. (Inr (filter (\<lambda>obj. Meta_Namespace (mt obj) = ns \<and> selects sel (Meta_Labels (mt obj)))
                                       (map snd (objs w))), w)),
           k_create = (\<lambda>obj w. if map_of (objs w) (key_of (mt obj)) \<noteq> None
                          then (Inl (ApiErr AlreadyExists ''already exists''), w)
                          else (Inr obj, upd ((#) (key_of (mt obj), obj)) w)),
           k_update = replace,
           k_status = replace,
           k_patch = (\<lambda>_. replace),
           k_delete = (\<lambda>obj _ w. if map_of (objs w) (key_of (mt obj)) = None then (Inl no_such, w)
                          else (Inr (), upd (filter (\<lambda>(k, _). k \<noteq> key_of (mt obj))) w)) \<rparr>)"

text \<open>The documented behaviour of the status-condition helpers of apimachinery.\<close>

definition ref_set_condition :: "condition list \<Rightarrow> condition \<Rightarrow> time \<Rightarrow> condition list" where
  "ref_set_condition cs n now =
     (if list_ex (\<lambda>c. Cond_Type c = Cond_Type n) cs
      then map (\<lambda>c. if Cond_Type c \<noteq> Cond_Type n then c
                    else n\<lparr> Cond_LastTransitionTime :=
                           (if Cond_Status c \<noteq> Cond_Status n
                            then Some (deref now (Cond_LastTransitionTime n)) else Cond_LastTransitionTime c) \<rparr>) cs
      else cs @ [n\<lparr> Cond_LastTransitionTime := Some (deref now (Cond_LastTransitionTime n)) \<rparr>])"

definition ref_remove_condition :: "condition list \<Rightarrow> string \<Rightarrow> condition list" where
  "ref_remove_condition cs ty = filter (\<lambda>c. Cond_Type c \<noteq> ty) cs"

definition sim_sys :: "semver \<Rightarrow> sim sys" where
  "sim_sys sv =
     \<lparr> sys_semver = sv,
       api_cluster = mem_api Meta sim_clusters sim_clusters_update,
       api_backup = mem_api BMeta sim_backups sim_backups_update,
       api_restore = mem_api RMeta sim_restores sim_restores_update,
       api_sts = mem_api Sts_Meta sim_sts sim_sts_update,
       api_pod = mem_api Pod_Meta sim_pods sim_pods_update,
       api_pvc = mem_api PVC_Meta sim_pvcs sim_pvcs_update,
       api_svc = mem_api Svc_Meta sim_svcs sim_svcs_update,
       api_cm = mem_api CM_Meta sim_cms sim_cms_update,
       api_secret = mem_api Sec_Meta sim_secrets sim_secrets_update,
       api_pdb = mem_api PDB_Meta sim_pdbs sim_pdbs_update,
       api_hpa = mem_api HPA_Meta sim_hpas sim_hpas_update,
       api_dep = mem_api Dep_Meta sim_deps sim_deps_update,
       api_sm = mem_api SM_Meta sim_sms sim_sms_update,
       api_job = mem_api Job_Meta sim_jobs sim_jobs_update,
       api_cron = mem_api CJ_Meta sim_crons sim_crons_update,
       http_new_request = (\<lambda>_ _. None),
       http_round_trip = (\<lambda>q w. (case map_of (sim_http w) (Req_URL q) of
           None \<Rightarrow> Inl (PlainErr ''connection refused'') | Some r \<Rightarrow> Inr r, w)),
       sys_now = (\<lambda>w. (sim_now w, w)),
       rand_read = (\<lambda>n w. (Inr (replicate n 7), w)),
       ecdsa_generate = (\<lambda>w. (Inr ''key'', w)),
       x509_create = (\<lambda>_ _ _ _ w. (Inr ''cert'', w)),
       x509_parse = Inr,
       x509_marshal_key = Inr,
       pem_encode = (\<lambda>ty b. ty @ b),
       set_owner = (\<lambda>owner m. Inr (m\<lparr> Meta_Owners := [Meta_Name owner] \<rparr>)),
       contains_finalizer = (\<lambda>m f. f \<in> set (Meta_Finalizers m)),
       add_finalizer = (\<lambda>f m. m\<lparr> Meta_Finalizers := Meta_Finalizers m @ [f] \<rparr>),
       remove_finalizer = (\<lambda>f m. m\<lparr> Meta_Finalizers := filter (\<lambda>g. g \<noteq> f) (Meta_Finalizers m) \<rparr>),
       maps_equal = (\<lambda>a b. a ''config.toml'' = b ''config.toml''),
       set_condition = (\<lambda>cs n w. (ref_set_condition cs n (sim_now w), w)),
       remove_condition = ref_remove_condition \<rparr>"

definition start :: "'w \<Rightarrow> 'w world" where
  "start w = \<lparr> ext = w, log = [] \<rparr>"

definition ok_json :: "(string \<times> string) list \<Rightarrow> http_resp" where
  "ok_json kvs = \<lparr> Resp_Status = 200, Resp_Body = json_object kvs, Resp_ReadErr = None \<rparr>"

end
