(* ===== verification/Config.thy ===== *)
theory Config
  imports Compat Go_Crypto "HOL-Library.Sublist"
begin

text \<open>
  The generated database configuration, \<^verbatim>\<open>internal/hyperbytedb/configmap.go\<close>: the TOML
  document mounted into every pod and the digest of its static part that triggers a
  rolling restart. The \<^verbatim>\<open>strings.Builder\<close> is kept as the list of lines written to it: a
  \<^verbatim>\<open>WriteString\<close> or \<^verbatim>\<open>Fprintf\<close> of the source writes one line, or a blank line and a section
  header. The lemmas show that the document reads back to exactly the settings written,
  that no key is set twice, and that the digest does not see the replica count.
\<close>

section \<open>Lines of a TOML document\<close>

datatype toml_line =
    Blank
  | Header string
  | KInt string int
  | KBool string bool
  | KStr string string

fun print_line :: "toml_line \<Rightarrow> string" where
  "print_line Blank = []"
| "print_line (Header s) = ''['' @ s @ '']''"
| "print_line (KInt k v) = k @ '' = '' @ dec v"
| "print_line (KBool k v) = k @ '' = '' @ fmt_t v"
| "print_line (KStr k v) = k @ '' = '' @ dquote v"

definition builder_String :: "toml_line list \<Rightarrow> string" where
  "builder_String ls = concat (map (\<lambda>l. print_line l @ NL) ls)"

definition emit_if :: "bool \<Rightarrow> 'a \<Rightarrow> 'a list" where
  "emit_if b x = (if b then [x] else [])"

text \<open>The default of an integer or string setting, as every section applies it.\<close>

definition pos_or :: "int \<Rightarrow> int \<Rightarrow> int" where
  "pos_or v d = (if v > 0 then v else d)"

definition str_or :: "string \<Rightarrow> string \<Rightarrow> string" where
  "str_or s d = (if s \<noteq> [] then s else d)"

section \<open>The sections\<close>

definition writeServerSection :: "HyperbytedbClusterSpec \<Rightarrow> toml_line list" where
  "writeServerSection spec =
     (let s = Spec_Server spec
      in [Header ''server'', KStr ''bind_address'' ''0.0.0.0'', KInt ''port'' (pos_or (Server_Port s) 8086)]
         @ emit_if (Server_MaxBodySizeBytes s > 0) (KInt ''max_body_size_bytes'' (Server_MaxBodySizeBytes s))
         @ emit_if (Server_RequestTimeoutSecs s > 0) (KInt ''request_timeout_secs'' (Server_RequestTimeoutSecs s))
         @ emit_if (Server_QueryTimeoutSecs s > 0) (KInt ''query_timeout_secs'' (Server_QueryTimeoutSecs s))
         @ emit_if (Server_MaxConcurrentQueries s > 0)
             (KInt ''max_concurrent_queries'' (Server_MaxConcurrentQueries s))
         @ (case Server_TLS s of
              None \<Rightarrow> []
            | Some t \<Rightarrow>
                if TLS_Enabled t
                then [KBool ''tls_enabled'' True, KStr ''tls_cert_path'' ''/etc/hyperbytedb/tls/tls.crt'',
                      KStr ''tls_key_path'' ''/etc/hyperbytedb/tls/tls.key'']
                else []))"

definition writeStorageSection :: "HyperbytedbClusterSpec \<Rightarrow> toml_line list" where
  "writeStorageSection spec =
     [Blank, Header ''storage'', KStr ''wal_dir'' ''/var/lib/hyperbytedb/wal'',
      KStr ''meta_dir'' ''/var/lib/hyperbytedb/meta'',
      KStr ''wal_format'' (str_or (Storage_WALFormat (Spec_Storage spec)) ''bincode'')]"

definition writeFlushSection :: "HyperbytedbClusterSpec \<Rightarrow> toml_line list" where
  "writeFlushSection spec =
     (let f = Spec_Flush spec
      in [Blank, Header ''flush'', KInt ''interval_secs'' (pos_or (Flush_IntervalSecs f) 10),
          KInt ''max_points_per_batch'' (pos_or (Flush_MaxPointsPerBatch f) 50000)]
         @ emit_if (Flush_WALBatchSize f > 0) (KInt ''wal_batch_size'' (Flush_WALBatchSize f))
         @ emit_if (Flush_WALBatchDelayUs f > 0) (KInt ''wal_batch_delay_us'' (Flush_WALBatchDelayUs f))
         @ [KBool ''arrow_wal_enabled'' (deref True (Flush_ArrowWALEnabled f))])"

definition writeChdbSection :: "semver \<Rightarrow> HyperbytedbCluster \<Rightarrow> toml_line list" where
  "writeChdbSection sv c =
     (let d = Spec_ChDB (Spec c)
      in [Blank, Header ''chdb'',
          KStr ''session_data_path'' (str_or (ChDB_SessionDataPath d) ''/var/lib/hyperbytedb/chdb'')]
         @ (if \<not> Supports sv c CapabilitySplitChdbPools
            then [KInt ''pool_size'' (pos_or (ChDB_PoolSize d) (pos_or (ChDB_QueryPoolSize d) 1))]
            else emit_if (ChDB_QueryPoolSize d > 0) (KInt ''query_pool_size'' (ChDB_QueryPoolSize d))
                 @ emit_if (ChDB_WritePoolSize d > 0) (KInt ''write_pool_size'' (ChDB_WritePoolSize d))
                 @ (if ChDB_QueryPoolSize d \<le> 0 \<and> ChDB_WritePoolSize d \<le> 0
                    then if ChDB_PoolSize d > 0 then [KInt ''pool_size'' (ChDB_PoolSize d)]
                         else if Supports sv c CapabilityAutoQueryPool then [KInt ''write_pool_size'' 1]
                         else [KInt ''pool_size'' 1]
                    else [])))"

definition writeAuthSection :: "HyperbytedbClusterSpec \<Rightarrow> toml_line list" where
  "writeAuthSection spec =
     [Blank, Header ''auth'', KBool ''enabled'' (Auth_Enabled (Spec_Auth spec))]"

definition writeCardinalitySection :: "HyperbytedbClusterSpec \<Rightarrow> toml_line list" where
  "writeCardinalitySection spec =
     (let d = Spec_Cardinality spec
      in [Blank, Header ''cardinality'',
          KInt ''max_tag_values_per_measurement'' (pos_or (Card_MaxTagValuesPerMeasurement d) 100000),
          KInt ''max_measurements_per_database'' (pos_or (Card_MaxMeasurementsPerDatabase d) 10000)])"

definition writeLoggingSection :: "HyperbytedbClusterSpec \<Rightarrow> toml_line list" where
  "writeLoggingSection spec =
     (let l = Spec_Logging spec
      in [Blank, Header ''logging'', KStr ''level'' (str_or (Logging_Level l) ''info''),
          KStr ''format'' (str_or (Logging_Format l) ''text'')])"

definition writeStatementSummarySection :: "HyperbytedbClusterSpec \<Rightarrow> toml_line list" where
  "writeStatementSummarySection spec =
     (let s = Spec_StatementSummary spec
      in [Blank, Header ''statement_summary'', KBool ''enabled'' (deref True (SS_Enabled s)),
          KInt ''max_entries'' (pos_or (SS_MaxEntries s) 1000)])"

definition writeHintedHandoffSection :: "HyperbytedbClusterSpec \<Rightarrow> toml_line list" where
  "writeHintedHandoffSection spec =
     (let h = Spec_HintedHandoff spec
      in [Blank, Header ''hinted_handoff'', KBool ''enabled'' (deref True (HH_Enabled h)),
          KInt ''max_hints_per_peer'' (pos_or (HH_MaxHintsPerPeer h) 100000),
          KInt ''max_hint_age_secs'' (pos_or (HH_MaxHintAgeSecs h) 3600)])"

definition writeRateLimitSection :: "HyperbytedbClusterSpec \<Rightarrow> toml_line list" where
  "writeRateLimitSection spec =
     (let r = Spec_RateLimit spec
      in if RL_Enabled r = None \<and> RL_MaxRequestsPerSecond r = 0 then []
         else [Blank, Header ''rate_limit'']
              @ (case RL_Enabled r of None \<Rightarrow> [] | Some e \<Rightarrow> [KBool ''enabled'' e])
              @ emit_if (RL_MaxRequestsPerSecond r > 0)
                  (KInt ''max_requests_per_second'' (RL_MaxRequestsPerSecond r)))"

definition writeRetentionSection :: "HyperbytedbClusterSpec \<Rightarrow> toml_line list" where
  "writeRetentionSection spec =
     (let r = Spec_Retention spec
      in [Blank, Header ''retention'', KBool ''enabled'' (deref True (Ret_Enabled r)),
          KStr ''interval'' (str_or (Ret_Interval r) ''12h'')])"

fun writeMinAcks :: "intstr \<Rightarrow> toml_line list" where
  "writeMinAcks (IntVal i) = [KInt ''min_acks'' i]"
| "writeMinAcks (StrVal s) = [KStr ''min_acks'' s]"

definition writeReplicationSubsections :: "ReplicationSpec option \<Rightarrow> toml_line list" where
  "writeReplicationSubsections repl =
     (case repl of
        None \<Rightarrow> []
      | Some r \<Rightarrow>
          [Blank, Header ''cluster.replication'', KStr ''mode'' (str_or (Repl_Mode r) ''async'')]
          @ emit_if (Repl_AckTimeoutMs r > 0) (KInt ''ack_timeout_ms'' (Repl_AckTimeoutMs r))
          @ (case Repl_SyncQuorum r of
               None \<Rightarrow> []
             | Some q \<Rightarrow>
                 (case SQ_MinAcks q of
                    None \<Rightarrow> []
                  | Some m \<Rightarrow> [Blank, Header ''cluster.replication.sync_quorum''] @ writeMinAcks m)))"

definition writeClusterSection :: "semver \<Rightarrow> HyperbytedbCluster \<Rightarrow> bool \<Rightarrow> toml_line list" where
  "writeClusterSection sv c clusterEnabled =
     (let t = Spec_Cluster (Spec c)
      in [Blank, Header ''cluster'', KBool ''enabled'' clusterEnabled, KStr ''peers'' [],
          KStr ''replication_log_dir'' ''/var/lib/hyperbytedb/replication_log'',
          KStr ''raft_dir'' ''/var/lib/hyperbytedb/raft'']
         @ emit_if (ControlListenerEnabled sv c clusterEnabled) (KInt ''control_port'' (ControlPort c))
         @ [KInt ''heartbeat_interval_secs'' (pos_or (Tune_HeartbeatIntervalSecs t) 2),
            KInt ''heartbeat_miss_threshold'' (pos_or (Tune_HeartbeatMissThreshold t) 5),
            KInt ''replication_max_retries'' (pos_or (Tune_ReplicationMaxRetries t) 5),
            KInt ''replication_queue_depth'' (pos_or (Tune_ReplicationQueueDepth t) 8192),
            KInt ''replication_max_inflight_batches'' (pos_or (Tune_ReplicationMaxInflightBatches t) 8),
            KInt ''replication_max_coalesce_body_bytes''
              (pos_or (Tune_ReplicationMaxCoalesceBodyBytes t) (8 * 1024 * 1024)),
            KInt ''replicate_receiver_queue_depth'' (pos_or (Tune_ReplicateReceiverQueueDepth t) 1024),
            KInt ''replication_truncate_stale_peer_multiplier''
              (pos_or (Tune_ReplicationTruncateStalePeerMultiplier t) 2)]
         @ emit_if (Tune_RaftHeartbeatIntervalMs t > 0)
             (KInt ''raft_heartbeat_interval_ms'' (Tune_RaftHeartbeatIntervalMs t))
         @ emit_if (Tune_RaftElectionTimeoutMs t > 0)
             (KInt ''raft_election_timeout_ms'' (Tune_RaftElectionTimeoutMs t))
         @ emit_if (Tune_RaftSnapshotThreshold t > 0)
             (KInt ''raft_snapshot_threshold'' (Tune_RaftSnapshotThreshold t))
         @ writeReplicationSubsections (Tune_Replication t))"

definition emit_some :: "('a \<Rightarrow> 'b) \<Rightarrow> 'a option \<Rightarrow> 'b list" where
  "emit_some f x = (case x of None \<Rightarrow> [] | Some v \<Rightarrow> [f v])"

definition writeShardingSection :: "semver \<Rightarrow> HyperbytedbCluster \<Rightarrow> toml_line list" where
  "writeShardingSection sv c =
     (case Spec_Sharding (Spec c) of
        None \<Rightarrow> []
      | Some s \<Rightarrow>
          if \<not> Supports sv c CapabilitySharding then []
          else [Blank, Header ''sharding'', KBool ''enabled'' (Shard_Enabled s)]
            @ emit_if (Shard_ReplicationFactor s > 0) (KInt ''replication_factor'' (Shard_ReplicationFactor s))
            @ emit_if (Shard_RegionSplitSeries s > 0) (KInt ''region_split_series'' (Shard_RegionSplitSeries s))
            @ emit_if (Shard_RegionMaxSeries s > 0) (KInt ''region_max_series'' (Shard_RegionMaxSeries s))
            @ emit_if (Shard_RegionMergeSeries s > 0) (KInt ''region_merge_series'' (Shard_RegionMergeSeries s))
            @ emit_if (Shard_SplitMergeIntervalSecs s > 0)
                (KInt ''split_merge_interval_secs'' (Shard_SplitMergeIntervalSecs s))
            @ emit_if (Shard_ScheduleLimit s > 0) (KInt ''schedule_limit'' (Shard_ScheduleLimit s))
            @ emit_if (Shard_HeartbeatIntervalSecs s > 0)
                (KInt ''heartbeat_interval_secs'' (Shard_HeartbeatIntervalSecs s))
            @ emit_if (Shard_BootstrapTimeoutMs s > 0)
                (KInt ''bootstrap_timeout_ms'' (Shard_BootstrapTimeoutMs s))
            @ emit_if (Shard_PrimaryFailoverAfterSecs s > 0)
                (KInt ''primary_failover_after_secs'' (Shard_PrimaryFailoverAfterSecs s))
            @ emit_some (KBool ''add_peer_proposals_enabled'') (Shard_AddPeerProposalsEnabled s)
            @ emit_some (KBool ''remove_peer_proposals_enabled'') (Shard_RemovePeerProposalsEnabled s)
            @ emit_if (Shard_ScatterPeerTimeoutMs s > 0)
                (KInt ''scatter_peer_timeout_ms'' (Shard_ScatterPeerTimeoutMs s))
            @ emit_if (Shard_ScatterMaxPeerAttempts s > 0)
                (KInt ''scatter_max_peer_attempts'' (Shard_ScatterMaxPeerAttempts s))
            @ emit_some (KInt ''load_split_qps_threshold'') (Shard_LoadSplitQpsThreshold s)
            @ emit_if (Shard_MaxRegionsPerMeasurement s > 0)
                (KInt ''max_regions_per_measurement'' (Shard_MaxRegionsPerMeasurement s)))"

section \<open>The document and its digest\<close>

definition config_lines :: "semver \<Rightarrow> HyperbytedbCluster \<Rightarrow> bool \<Rightarrow> toml_line list" where
  "config_lines sv c clusterEnabled =
     (let spec = Spec c
      in writeServerSection spec @ writeStorageSection spec @ writeFlushSection spec
         @ writeChdbSection sv c @ writeAuthSection spec @ writeCardinalitySection spec
         @ writeLoggingSection spec @ writeStatementSummarySection spec
         @ writeHintedHandoffSection spec @ writeRateLimitSection spec
         @ writeRetentionSection spec @ writeClusterSection sv c clusterEnabled
         @ writeShardingSection sv c)"

definition renderConfigTOMLWithClusterEnabled :: "semver \<Rightarrow> HyperbytedbCluster \<Rightarrow> bool \<Rightarrow> string" where
  "renderConfigTOMLWithClusterEnabled sv c clusterEnabled =
     builder_String (config_lines sv c clusterEnabled)"

definition clusterMetadataEnabled :: "HyperbytedbCluster \<Rightarrow> bool" where
  "clusterMetadataEnabled c \<longleftrightarrow>
     replicas_of c > 1 \<or>
     (case Spec_Sharding (Spec c) of None \<Rightarrow> False | Some s \<Rightarrow> Shard_Enabled s)"

definition renderConfigTOML :: "semver \<Rightarrow> HyperbytedbCluster \<Rightarrow> string" where
  "renderConfigTOML sv c = renderConfigTOMLWithClusterEnabled sv c (clusterMetadataEnabled c)"

definition ConfigHash :: "semver \<Rightarrow> HyperbytedbCluster \<Rightarrow> string" where
  "ConfigHash sv c =
     hex (take 8 (Sum256 (bytes_of (renderConfigTOMLWithClusterEnabled sv c False))))"

definition BuildConfigMap :: "semver \<Rightarrow> HyperbytedbCluster \<Rightarrow> config_map" where
  "BuildConfigMap sv c =
     \<lparr> CM_Meta = new_meta (ConfigMapName c) (Namespace c) (CommonLabels c),
       CM_Data = [''config.toml'' \<mapsto> renderConfigTOML sv c] \<rparr>"

section \<open>Reading a document back\<close>

fun read_lines :: "string \<Rightarrow> string \<Rightarrow> string list" where
  "read_lines acc [] = (if acc = [] then [] else [rev acc])"
| "read_lines acc (x # s) = (if x = CHR 0x0A then rev acc # read_lines [] s else read_lines (x # acc) s)"

definition undec :: "string \<Rightarrow> int option" where
  "undec s =
     (let neg = s \<noteq> [] \<and> hd s = CHR ''-''; ds = (if neg then tl s else s)
      in if ds \<noteq> [] \<and> list_all is_digit_char ds
         then Some (if neg then - int (undec_nat ds) else int (undec_nat ds)) else None)"

definition plain_char :: "char \<Rightarrow> bool" where
  "plain_char x \<longleftrightarrow> x \<noteq> CHR 0x22 \<and> x \<noteq> CHR 0x5C \<and> x \<noteq> CHR 0x0A"

definition plain :: "string \<Rightarrow> bool" where
  "plain s \<longleftrightarrow> list_all plain_char s"

definition parse_value :: "string \<Rightarrow> string \<Rightarrow> toml_line option" where
  "parse_value k v =
     (if v = ''true'' then Some (KBool k True)
      else if v = ''false'' then Some (KBool k False)
      else if v \<noteq> [] \<and> hd v = CHR 0x22
      then (if length v \<ge> 2 \<and> last v = CHR 0x22 \<and> plain (butlast (tl v))
            then Some (KStr k (butlast (tl v))) else None)
      else map_option (KInt k) (undec v))"

definition parse_line :: "string \<Rightarrow> toml_line option" where
  "parse_line s =
     (if s = [] then Some Blank
      else if hd s = CHR ''[''
      then (if length s \<ge> 2 \<and> last s = CHR '']'' then Some (Header (butlast (tl s))) else None)
      else (let k = takeWhile (\<lambda>x. x \<noteq> CHR '' '') s; r = drop (length k) s
            in if k = [] \<or> take 3 r \<noteq> '' = '' then None else parse_value k (drop 3 r)))"

definition read_toml :: "string \<Rightarrow> toml_line list option" where
  "read_toml s = those (map parse_line (read_lines [] s))"

definition bare :: "string \<Rightarrow> bool" where
  "bare k \<longleftrightarrow> k \<noteq> [] \<and> list_all (\<lambda>x. x \<notin> {CHR '' '', CHR ''['', CHR 0x0A}) k"

fun wf_line :: "toml_line \<Rightarrow> bool" where
  "wf_line Blank = True"
| "wf_line (Header s) = (CHR 0x0A \<notin> set s)"
| "wf_line (KInt k _) = bare k"
| "wf_line (KBool k _) = bare k"
| "wf_line (KStr k v) = (bare k \<and> plain v)"

lemma undec_dec [simp]: "undec (dec i) = Some i"
proof (cases "i < 0")
  case True
  then show ?thesis
    by (auto simp: undec_def dec_def list_all_iff Let_def dest: dec_nat_digits)
next
  case False
  moreover have "hd (dec_nat (nat i)) \<noteq> CHR ''-''"
    using minus_not_digit [of "nat i"] hd_in_set [of "dec_nat (nat i)"] by fastforce
  ultimately show ?thesis
    by (auto simp: undec_def dec_def list_all_iff Let_def dest: dec_nat_digits)
qed

lemma parse_kv:
  assumes "bare k"
  shows "parse_line (k @ CHR '' '' # CHR ''='' # CHR '' '' # v) = parse_value k v"
proof -
  obtain x k' where k: "k = x # k'" using assms by (cases k) (auto simp: bare_def)
  have *: "takeWhile (\<lambda>y. y \<noteq> CHR '' '') (k @ CHR '' '' # w) = k" for w
    using assms by (induction k) (auto simp: bare_def takeWhile_eq_all_conv list_all_iff)
  show ?thesis
    using assms by (simp add: parse_line_def * Let_def) (simp add: k bare_def)
qed

lemma hd_dec_not_quote: "hd (dec v) \<noteq> CHR 0x22"
  using dec_chars [OF hd_in_set [OF dec_nonempty], of v] by (auto simp: is_digit_char_def)

lemma dec_not_word: "dec v \<noteq> ''true''" "dec v \<noteq> ''false''"
  using dec_chars [of "CHR ''e''" v] by (auto simp: is_digit_char_def)

lemma parse_value_print:
  "parse_value k (dec v) = Some (KInt k v)"
  "parse_value k (fmt_t b) = Some (KBool k b)"
  "plain s \<Longrightarrow> parse_value k (dquote s) = Some (KStr k s)"
proof -
  show "parse_value k (dec v) = Some (KInt k v)"
    unfolding parse_value_def using hd_dec_not_quote dec_not_word by simp
  show "parse_value k (fmt_t b) = Some (KBool k b)"
    by (cases b) (simp_all add: parse_value_def fmt_t_def)
  assume "plain s"
  then show "parse_value k (dquote s) = Some (KStr k s)"
    by (simp add: parse_value_def dquote_def butlast_append)
qed

lemma parse_print_line: "wf_line l \<Longrightarrow> parse_line (print_line l) = Some l"
  by (cases l) (simp_all add: parse_kv parse_value_print, simp_all add: parse_line_def)

lemma newline_not_in_dec: "CHR 0x0A \<notin> set (dec i)"
  using dec_chars [of "CHR 0x0A" i] by (auto simp: is_digit_char_def)

lemma newline_not_in_parts:
  "bare k \<Longrightarrow> CHR 0x0A \<notin> set k" "plain s \<Longrightarrow> CHR 0x0A \<notin> set s" "CHR 0x0A \<notin> set (fmt_t b)"
  by (auto simp: bare_def plain_def plain_char_def list_all_iff fmt_t_def)

lemma print_line_no_newline: "wf_line l \<Longrightarrow> CHR 0x0A \<notin> set (print_line l)"
  by (cases l) (simp_all add: newline_not_in_dec newline_not_in_parts dquote_def)

lemma read_lines_step:
  "CHR 0x0A \<notin> set l \<Longrightarrow> read_lines acc (l @ NL @ s) = (rev acc @ l) # read_lines [] s"
  by (induction l arbitrary: acc) (auto simp: NL_def)

lemma read_toml_builder:
  "list_all wf_line ls \<Longrightarrow> read_toml (builder_String ls) = Some ls"
proof -
  assume wf: "list_all wf_line ls"
  have "read_lines [] (builder_String ls) = map print_line ls"
    using wf by (induction ls)
      (auto simp: builder_String_def read_lines_step print_line_no_newline)
  moreover have "those (map (\<lambda>l. parse_line (print_line l)) ls) = Some ls"
    using wf by (induction ls) (auto simp: parse_print_line)
  ultimately show ?thesis by (simp add: read_toml_def comp_def)
qed

section \<open>The document is well formed\<close>

text \<open>The strings a user can put into the document have no quote, backslash or newline.\<close>

definition plain_settings :: "HyperbytedbClusterSpec \<Rightarrow> bool" where
  "plain_settings spec \<longleftrightarrow>
     plain (Storage_WALFormat (Spec_Storage spec)) \<and>
     plain (ChDB_SessionDataPath (Spec_ChDB spec)) \<and>
     plain (Logging_Level (Spec_Logging spec)) \<and> plain (Logging_Format (Spec_Logging spec)) \<and>
     plain (Ret_Interval (Spec_Retention spec)) \<and>
     (case Tune_Replication (Spec_Cluster spec) of
        None \<Rightarrow> True
      | Some r \<Rightarrow> plain (Repl_Mode r) \<and>
          (case Repl_SyncQuorum r of
             None \<Rightarrow> True
           | Some q \<Rightarrow> (case SQ_MinAcks q of Some (StrVal v) \<Rightarrow> plain v | _ \<Rightarrow> True)))"

lemma plain_str_or [simp]: "plain s \<Longrightarrow> plain d \<Longrightarrow> plain (str_or s d)"
  by (simp add: str_or_def)

lemma list_all_emit [simp]:
  "list_all P (emit_if b x) \<longleftrightarrow> (b \<longrightarrow> P x)"
  "list_all P (emit_some f y) \<longleftrightarrow> (\<forall>v. y = Some v \<longrightarrow> P (f v))"
  by (auto simp: emit_if_def emit_some_def split: option.split)

lemma wf_sections:
  assumes "plain_settings (Spec c)"
  shows "list_all wf_line (writeServerSection (Spec c))"
    "list_all wf_line (writeStorageSection (Spec c))"
    "list_all wf_line (writeFlushSection (Spec c))"
    "list_all wf_line (writeChdbSection sv c)"
    "list_all wf_line (writeLoggingSection (Spec c))"
    "list_all wf_line (writeRetentionSection (Spec c))"
  using assms
  by (simp_all add: plain_settings_def writeServerSection_def writeStorageSection_def writeFlushSection_def
      writeChdbSection_def writeLoggingSection_def writeRetentionSection_def
      Let_def bare_def plain_def [of "_ # _"] plain_def [of "[]"] plain_char_def split: option.split)

lemma wf_replication:
  assumes "plain_settings (Spec c)"
  shows "list_all wf_line (writeReplicationSubsections (Tune_Replication (Spec_Cluster (Spec c))))"
proof -
  have "plain ''async''" by (simp add: plain_def plain_char_def)
  with assms show ?thesis
    unfolding plain_settings_def writeReplicationSubsections_def
    by (auto simp: bare_def split: option.splits intstr.splits)
qed

lemma wf_sections_fixed:
  "list_all wf_line (writeAuthSection spec)"
  "list_all wf_line (writeCardinalitySection spec)"
  "list_all wf_line (writeStatementSummarySection spec)"
  "list_all wf_line (writeHintedHandoffSection spec)"
  "list_all wf_line (writeRateLimitSection spec)"
  "list_all wf_line (writeShardingSection sv c)"
  by (simp_all add: writeAuthSection_def writeCardinalitySection_def writeStatementSummarySection_def
      writeHintedHandoffSection_def writeRateLimitSection_def writeShardingSection_def Let_def bare_def
      split: option.split)

lemma wf_config_lines:
  assumes "plain_settings (Spec c)"
  shows "list_all wf_line (config_lines sv c b)"
proof -
  have "list_all wf_line (writeClusterSection sv c b)"
    using wf_replication [OF assms]
    by (simp add: writeClusterSection_def Let_def bare_def plain_def plain_char_def)
  then show ?thesis
    by (simp add: config_lines_def Let_def wf_sections [OF assms] wf_sections_fixed)
qed

subsection \<open>No key twice\<close>

fun toml_keys :: "string \<Rightarrow> toml_line list \<Rightarrow> (string \<times> string) list" where
  "toml_keys sec [] = []"
| "toml_keys sec (Blank # ls) = toml_keys sec ls"
| "toml_keys sec (Header s # ls) = toml_keys s ls"
| "toml_keys sec (KInt k _ # ls) = (sec, k) # toml_keys sec ls"
| "toml_keys sec (KBool k _ # ls) = (sec, k) # toml_keys sec ls"
| "toml_keys sec (KStr k _ # ls) = (sec, k) # toml_keys sec ls"

fun headed :: "toml_line list \<Rightarrow> bool" where
  "headed [] = True"
| "headed (Blank # ls) = headed ls"
| "headed (Header _ # ls) = True"
| "headed _ = False"

lemma headed_append [simp]: "headed a \<Longrightarrow> headed b \<Longrightarrow> headed (a @ b)"
  by (induction a rule: headed.induct) auto

lemma toml_keys_headed: "headed ls \<Longrightarrow> toml_keys s ls = toml_keys t ls"
  by (induction ls rule: headed.induct) auto

lemma toml_keys_append: "headed b \<Longrightarrow> toml_keys s (a @ b) = toml_keys s a @ toml_keys [] b"
  by (induction s a rule: toml_keys.induct) (auto intro: toml_keys_headed)

text \<open>The keys a section may set, in order; the emitted keys are a subsequence.\<close>

lemma subseq_keys_rules:
  "subseq (toml_keys s []) ys"
  "subseq (toml_keys s ls) ys \<Longrightarrow> subseq (toml_keys s (KInt k v # ls)) ((s, k) # ys)"
  "subseq (toml_keys s ls) ys \<Longrightarrow> subseq (toml_keys s (KBool k b # ls)) ((s, k) # ys)"
  "subseq (toml_keys s ls) ys \<Longrightarrow> subseq (toml_keys s (KStr k w # ls)) ((s, k) # ys)"
  "subseq (toml_keys s ls) ys \<Longrightarrow> subseq (toml_keys s (emit_if p (KInt k v) @ ls)) ((s, k) # ys)"
  "subseq (toml_keys s ls) ys \<Longrightarrow> subseq (toml_keys s (emit_some (KBool k) mb @ ls)) ((s, k) # ys)"
  "subseq (toml_keys s ls) ys \<Longrightarrow> subseq (toml_keys s (emit_some (KInt k) mv @ ls)) ((s, k) # ys)"
  "subseq (toml_keys s (emit_if p (KInt k v))) [(s, k)]"
  by (auto simp: emit_if_def emit_some_def split: option.split)

definition section_keys :: "(string \<times> string list) list" where
  "section_keys =
    [(''server'', [''bind_address'', ''port'', ''max_body_size_bytes'', ''request_timeout_secs'',
        ''query_timeout_secs'', ''max_concurrent_queries'', ''tls_enabled'', ''tls_cert_path'', ''tls_key_path'']),
     (''storage'', [''wal_dir'', ''meta_dir'', ''wal_format'']),
     (''flush'', [''interval_secs'', ''max_points_per_batch'', ''wal_batch_size'', ''wal_batch_delay_us'',
        ''arrow_wal_enabled'']),
     (''chdb'', [''session_data_path'', ''query_pool_size'', ''write_pool_size'', ''pool_size'']),
     (''auth'', [''enabled'']),
     (''cardinality'', [''max_tag_values_per_measurement'', ''max_measurements_per_database'']),
     (''logging'', [''level'', ''format'']),
     (''statement_summary'', [''enabled'', ''max_entries'']),
     (''hinted_handoff'', [''enabled'', ''max_hints_per_peer'', ''max_hint_age_secs'']),
     (''rate_limit'', [''enabled'', ''max_requests_per_second'']),
     (''retention'', [''enabled'', ''interval'']),
     (''cluster'', [''enabled'', ''peers'', ''replication_log_dir'', ''raft_dir'', ''control_port'',
        ''heartbeat_interval_secs'', ''heartbeat_miss_threshold'', ''replication_max_retries'',
        ''replication_queue_depth'', ''replication_max_inflight_batches'',
        ''replication_max_coalesce_body_bytes'', ''replicate_receiver_queue_depth'',
        ''replication_truncate_stale_peer_multiplier'', ''raft_heartbeat_interval_ms'',
        ''raft_election_timeout_ms'', ''raft_snapshot_threshold'']),
     (''cluster.replication'', [''mode'', ''ack_timeout_ms'']),
     (''cluster.replication.sync_quorum'', [''min_acks'']),
     (''sharding'', [''enabled'', ''replication_factor'', ''region_split_series'', ''region_max_series'',
        ''region_merge_series'', ''split_merge_interval_secs'', ''schedule_limit'',
        ''heartbeat_interval_secs'', ''bootstrap_timeout_ms'', ''primary_failover_after_secs'',
        ''add_peer_proposals_enabled'', ''remove_peer_proposals_enabled'', ''scatter_peer_timeout_ms'',
        ''scatter_max_peer_attempts'', ''load_split_qps_threshold'', ''max_regions_per_measurement''])]"

definition keys_of :: "string \<Rightarrow> (string \<times> string) list" where
  "keys_of s = map (Pair s) (deref [] (map_of section_keys s))"

lemma keys_of_sections:
  "subseq (toml_keys [] (writeServerSection spec)) (keys_of ''server'')"
  "subseq (toml_keys [] (writeStorageSection spec)) (keys_of ''storage'')"
  "subseq (toml_keys [] (writeFlushSection spec)) (keys_of ''flush'')"
  "subseq (toml_keys [] (writeChdbSection sv c)) (keys_of ''chdb'')"
  "subseq (toml_keys [] (writeAuthSection spec)) (keys_of ''auth'')"
  "subseq (toml_keys [] (writeCardinalitySection spec)) (keys_of ''cardinality'')"
  "subseq (toml_keys [] (writeLoggingSection spec)) (keys_of ''logging'')"
  "subseq (toml_keys [] (writeStatementSummarySection spec)) (keys_of ''statement_summary'')"
  "subseq (toml_keys [] (writeHintedHandoffSection spec)) (keys_of ''hinted_handoff'')"
  "subseq (toml_keys [] (writeRetentionSection spec)) (keys_of ''retention'')"
  by (auto simp: writeServerSection_def writeStorageSection_def writeFlushSection_def writeAuthSection_def
      writeCardinalitySection_def writeLoggingSection_def writeStatementSummarySection_def
      writeHintedHandoffSection_def writeRetentionSection_def writeChdbSection_def emit_if_def
      keys_of_def section_keys_def Let_def split: option.split)

lemma keys_of_optional_sections:
  "subseq (toml_keys [] (writeRateLimitSection spec)) (keys_of ''rate_limit'')"
  "subseq (toml_keys [] (writeReplicationSubsections r))
     (keys_of ''cluster.replication'' @ keys_of ''cluster.replication.sync_quorum'')"
proof -
  have acks: "toml_keys s (writeMinAcks m) = [(s, ''min_acks'')]" for s m by (cases m) simp_all
  show "subseq (toml_keys [] (writeRateLimitSection spec)) (keys_of ''rate_limit'')"
    by (auto simp: writeRateLimitSection_def emit_if_def keys_of_def section_keys_def Let_def
        split: option.split)
  show "subseq (toml_keys [] (writeReplicationSubsections r))
      (keys_of ''cluster.replication'' @ keys_of ''cluster.replication.sync_quorum'')"
    by (auto simp: writeReplicationSubsections_def emit_if_def keys_of_def section_keys_def acks
        split: option.split)
qed

lemma headed_replication: "headed (writeReplicationSubsections r)"
  by (auto simp: writeReplicationSubsections_def split: option.split)

lemma keys_of_cluster_section:
  "subseq (toml_keys [] (writeClusterSection sv c b))
     (keys_of ''cluster'' @ keys_of ''cluster.replication'' @ keys_of ''cluster.replication.sync_quorum'')"
proof -
  have tail: "subseq (toml_keys s (writeReplicationSubsections r))
      (keys_of ''cluster.replication'' @ keys_of ''cluster.replication.sync_quorum'')" for s r
    using keys_of_optional_sections(2) toml_keys_headed [OF headed_replication] by metis
  show ?thesis
    unfolding writeClusterSection_def Let_def keys_of_def [of "''cluster''"]
    by (simp add: section_keys_def subseq_keys_rules tail)
qed

lemma keys_of_sharding_section:
  "subseq (toml_keys [] (writeShardingSection sv c)) (keys_of ''sharding'')"
  by (auto simp: writeShardingSection_def keys_of_def section_keys_def subseq_keys_rules
      split: option.split)

lemma headed_sections:
  "headed (writeStorageSection spec)" "headed (writeFlushSection spec)" "headed (writeChdbSection sv c)"
  "headed (writeAuthSection spec)" "headed (writeCardinalitySection spec)"
  "headed (writeLoggingSection spec)" "headed (writeStatementSummarySection spec)"
  "headed (writeHintedHandoffSection spec)" "headed (writeRateLimitSection spec)"
  "headed (writeRetentionSection spec)" "headed (writeClusterSection sv c b)"
  "headed (writeShardingSection sv c)"
  by (auto simp: writeStorageSection_def writeFlushSection_def writeChdbSection_def writeAuthSection_def
      writeCardinalitySection_def writeLoggingSection_def writeStatementSummarySection_def
      writeHintedHandoffSection_def writeRateLimitSection_def writeRetentionSection_def
      writeClusterSection_def writeShardingSection_def Let_def split: option.split)

lemma subseq_config_keys:
  "subseq (toml_keys [] (config_lines sv c b)) (concat (map (keys_of \<circ> fst) section_keys))"
proof -
  have "subseq (toml_keys [] (config_lines sv c b))
    (keys_of ''server'' @ keys_of ''storage'' @ keys_of ''flush'' @ keys_of ''chdb'' @ keys_of ''auth''
     @ keys_of ''cardinality'' @ keys_of ''logging'' @ keys_of ''statement_summary''
     @ keys_of ''hinted_handoff'' @ keys_of ''rate_limit'' @ keys_of ''retention''
     @ (keys_of ''cluster'' @ keys_of ''cluster.replication'' @ keys_of ''cluster.replication.sync_quorum'')
     @ keys_of ''sharding'')"
    unfolding config_lines_def Let_def
    by (simp only: toml_keys_append headed_sections headed_append)
       (intro list_emb_append_mono keys_of_sections keys_of_optional_sections keys_of_cluster_section
          keys_of_sharding_section)
  then show ?thesis by (simp add: section_keys_def)
qed

lemma distinct_config_keys: "distinct (toml_keys [] (config_lines sv c b))"
proof -
  have "distinct (concat (map (keys_of \<circ> fst) section_keys))" by code_simp
  then show ?thesis by (metis subseq_config_keys subseq_conv_nths distinct_nthsI)
qed

section \<open>Replica count and digest\<close>

lemma sections_with_replicas:
  "writeChdbSection sv (with_replicas r c) = writeChdbSection sv c"
  "writeClusterSection sv (with_replicas r c) b = writeClusterSection sv c b"
  "writeShardingSection sv (with_replicas r c) = writeShardingSection sv c"
  unfolding writeChdbSection_def writeClusterSection_def writeShardingSection_def
    compat_with_replicas naming_with_replicas with_replicas_simps by (rule refl)+

lemma config_lines_with_replicas [simp]:
  "config_lines sv (with_replicas r c) b = config_lines sv c b"
  unfolding config_lines_def Let_def sections_with_replicas
  by (simp add: writeServerSection_def writeStorageSection_def
      writeFlushSection_def writeAuthSection_def writeCardinalitySection_def
      writeLoggingSection_def writeStatementSummarySection_def writeHintedHandoffSection_def
      writeRateLimitSection_def writeRetentionSection_def)

lemma render_with_replicas [simp]:
  "renderConfigTOMLWithClusterEnabled sv (with_replicas r c) b = renderConfigTOMLWithClusterEnabled sv c b"
  by (simp add: renderConfigTOMLWithClusterEnabled_def)

text \<open>The two renderings of a cluster differ: they set \<open>[cluster].enabled\<close> differently.\<close>

lemma builder_String_append [simp]: "builder_String (a @ b) = builder_String a @ builder_String b"
  by (simp add: builder_String_def)

lemma builder_String_Cons: "builder_String (l # ls) = print_line l @ NL @ builder_String ls"
  by (simp add: builder_String_def)

lemma render_differs: "renderConfigTOMLWithClusterEnabled sv c True \<noteq> renderConfigTOMLWithClusterEnabled sv c False"
  by (simp add: renderConfigTOMLWithClusterEnabled_def config_lines_def Let_def writeClusterSection_def
      builder_String_Cons fmt_t_def)

lemma length_ConfigHash [simp]: "length (ConfigHash sv c) = 16"
  by (simp add: ConfigHash_def length_hex length_Sum256)

section \<open>Properties\<close>

text \<open>
  Scaling never triggers a rolling restart through the configuration digest: the hash is
  the same for every replica count, while the live document is the same exactly when
  \<open>[cluster].enabled\<close> is, so the mounted file does follow the replica count.
\<close>

lemma ConfigHash_with_replicas:
  "ConfigHash sv (with_replicas r c) = ConfigHash sv c \<and> length (ConfigHash sv c) = 16 \<and>
   (renderConfigTOML sv (with_replicas r c) = renderConfigTOML sv c \<longleftrightarrow>
      clusterMetadataEnabled (with_replicas r c) = clusterMetadataEnabled c)"
  using render_differs [of sv c]
  by (cases "clusterMetadataEnabled (with_replicas r c)"; cases "clusterMetadataEnabled c")
     (auto simp: ConfigHash_def [of sv "with_replicas r c"] ConfigHash_def [of sv c, symmetric]
        renderConfigTOML_def)


definition no_semver :: semver where
  "no_semver = \<lparr> sv_valid = (\<lambda>_. False), sv_compare = (\<lambda>_ _. 0) \<rparr>"

definition config_example :: HyperbytedbCluster where
  "config_example = (new_cluster ''tsdb'' ''prod'')\<lparr> Spec := zero_ClusterSpec\<lparr> Spec_Replicas := Some 3,
     Spec_Logging := \<lparr> Logging_Level = ''debug'', Logging_Format = ''json'' \<rparr> \<rparr> \<rparr>"


end
