(* ===== verification/Secrets.thy ===== *)
theory Secrets
  imports Sim Config
begin

text \<open>
  Credentials: \<^verbatim>\<open>internal/hyperbytedb/auth.go\<close> (the auth Secret and its generated values, the
  environment that hands it to the database) and \<^verbatim>\<open>internal/hyperbytedb/tls.go\<close> (the self-signed
  certificate bundle). Randomness, the clock and \<^verbatim>\<open>crypto/x509\<close> are parameters.
\<close>

section \<open>The auth Secret\<close>

definition AuthSecretClusterTokenKey :: string where "AuthSecretClusterTokenKey = ''cluster-token''"
definition AuthSecretAdminUsernameKey :: string where "AuthSecretAdminUsernameKey = ''admin-username''"
definition AuthSecretAdminPasswordKey :: string where "AuthSecretAdminPasswordKey = ''admin-password''"

text \<open>The buffer has the requested length; \<^verbatim>\<open>rand.Read\<close> overwrites what it fills.\<close>

definition randomSecret :: "'w sys \<Rightarrow> nat \<Rightarrow> ('w, string result) prog" where
  "randomSecret S n = do {
     r \<leftarrow> call (rand_read S n);
     ret (map_sum id (\<lambda>bs. b64_raw_url (take n (bs @ replicate n 0))) r) }"

definition auth_values :: "'w sys \<Rightarrow> (string \<times> ('w, string result) prog) list" where
  "auth_values S =
     [(AuthSecretClusterTokenKey, randomSecret S 32),
      (AuthSecretAdminUsernameKey, ret (Inr ''admin'')),
      (AuthSecretAdminPasswordKey, randomSecret S 24)]"

fun fill_keys ::
  "(string \<times> ('w, string result) prog) list \<Rightarrow> strmap \<Rightarrow> bool \<Rightarrow> ('w, strmap \<times> bool result) prog" where
  "fill_keys [] data changed = ret (data, Inr changed)"
| "fill_keys ((key, val) # ks) data changed =
     (if length (mget data key) > 0 then fill_keys ks data changed
      else do {
        r \<leftarrow> val;
        case r of
          Inl e \<Rightarrow> ret (data, Inl e)
        | Inr v \<Rightarrow> fill_keys ks (data(key \<mapsto> v)) True })"

text \<open>The Secret is filled in place: it is returned with the result, also on an error.\<close>

definition FillAuthSecret :: "'w sys \<Rightarrow> secret \<Rightarrow> ('w, secret \<times> bool result) prog" where
  "FillAuthSecret S sec = do {
     (data, r) \<leftarrow> fill_keys (auth_values S) (Sec_Data sec) False;
     ret (sec\<lparr> Sec_Data := data \<rparr>, r) }"

definition BuildAuthSecret :: "'w sys \<Rightarrow> HyperbytedbCluster \<Rightarrow> ('w, secret result) prog" where
  "BuildAuthSecret S c = do {
     (sec, r) \<leftarrow> FillAuthSecret S \<lparr> Sec_Meta = new_meta (AuthSecretName c) (Namespace c) (CommonLabels c),
                   Sec_Type = ''Opaque'', Sec_Data = Map.empty \<rparr>;
     ret (map_sum id (\<lambda>_. sec) r) }"

definition authEnv :: "HyperbytedbCluster \<Rightarrow> env_var list" where
  "authEnv c =
     (let from = (\<lambda>name key. \<lparr> Env_Name = name, Env_Source = EnvSecretKey (AuthSecretName c) key \<rparr>)
      in [from ''HYPERBYTEDB__AUTH__CLUSTER_TOKEN'' AuthSecretClusterTokenKey,
          from ''HYPERBYTEDB__AUTH__ADMIN_USERNAME'' AuthSecretAdminUsernameKey,
          from ''HYPERBYTEDB__AUTH__ADMIN_PASSWORD'' AuthSecretAdminPasswordKey])"

section \<open>The self-signed certificate\<close>

definition hour :: int where "hour = 3600000000000"

definition cert_dns_names :: "HyperbytedbCluster \<Rightarrow> string \<Rightarrow> int \<Rightarrow> string list" where
  "cert_dns_names c ns replicas =
     (let svc = HeadlessServiceName c
      in [''*.'' @ svc @ ''.'' @ ns @ ''.svc.cluster.local'',
          svc @ ''.'' @ ns @ ''.svc.cluster.local'',
          ClientServiceName c @ ''.'' @ ns @ ''.svc.cluster.local'']
         @ map (\<lambda>i. StatefulSetName c @ ''-'' @ dec i @ ''.'' @ svc @ ''.'' @ ns @ ''.svc.cluster.local'')
             (ords_up 0 replicas))"

definition ca_template :: "HyperbytedbCluster \<Rightarrow> time \<Rightarrow> time \<Rightarrow> cert_template" where
  "ca_template c t1 t2 =
     \<lparr> Crt_Serial = 1, Crt_CommonName = Name c @ '' CA'', Crt_DNSNames = [], Crt_NotBefore = t1 - hour,
       Crt_NotAfter = t2 + 10 * 365 * 24 * hour, Crt_IsCA = True,
       Crt_KeyUsage = [''CertSign'', ''CRLSign''], Crt_ExtKeyUsage = [] \<rparr>"

definition server_template :: "HyperbytedbCluster \<Rightarrow> string list \<Rightarrow> time \<Rightarrow> time \<Rightarrow> cert_template" where
  "server_template c names t1 t2 =
     \<lparr> Crt_Serial = 2, Crt_CommonName = Name c, Crt_DNSNames = names, Crt_NotBefore = t1 - hour,
       Crt_NotAfter = t2 + 365 * 24 * hour, Crt_IsCA = False,
       Crt_KeyUsage = [''DigitalSignature'', ''KeyEncipherment''],
       Crt_ExtKeyUsage = [''ServerAuth'', ''ClientAuth''] \<rparr>"

definition wrapped :: "string \<Rightarrow> ('w, 'a result) prog \<Rightarrow> ('w, 'a result) prog" where
  "wrapped msg m = do { r \<leftarrow> m; ret (map_sum (WrapErr msg) id r) }"

definition BuildSelfSignedTLSSecret :: "'w sys \<Rightarrow> HyperbytedbCluster \<Rightarrow> string \<Rightarrow> int \<Rightarrow> ('w, secret result) prog" where
  "BuildSelfSignedTLSSecret S c ns replicas =
     (if i32 (3 + replicas) < 0 then ret (Inl MakeSlice)
      else attempt (wrapped ''generating CA key'' (call (ecdsa_generate S))) (\<lambda>caKey. do {
        t1 \<leftarrow> Now S;
        t2 \<leftarrow> Now S;
        let caTemplate = ca_template c t1 t2;
        attempt (wrapped ''creating CA cert'' (call (x509_create S caTemplate (Inl caTemplate) caKey caKey))) (\<lambda>caCertDER.
        attempt (wrapped ''generating server key'' (call (ecdsa_generate S))) (\<lambda>serverKey. do {
        t3 \<leftarrow> Now S;
        t4 \<leftarrow> Now S;
        let serverTemplate = server_template c (cert_dns_names c ns replicas) t3 t4;
        attempt (wrapped ''parsing CA cert'' (ret (x509_parse S caCertDER))) (\<lambda>caCert.
        attempt (wrapped ''creating server cert''
                  (call (x509_create S serverTemplate (Inr caCert) serverKey caKey))) (\<lambda>serverCertDER.
        attempt (wrapped ''marshaling server key'' (ret (x509_marshal_key S serverKey))) (\<lambda>serverKeyDER.
        ret (Inr \<lparr> Sec_Meta = new_meta (TLSSecretName c) ns (CommonLabels c),
                   Sec_Type = ''kubernetes.io/tls'',
                   Sec_Data = [''tls.crt'' \<mapsto> pem_encode S ''CERTIFICATE'' serverCertDER,
                               ''tls.key'' \<mapsto> pem_encode S ''EC PRIVATE KEY'' serverKeyDER,
                               ''ca.crt'' \<mapsto> pem_encode S ''CERTIFICATE'' caCertDER] \<rparr>)))) })) }))"

section \<open>Generated values\<close>

lemma length_randomSecret:
  "run_state (randomSecret S n) s = (Inr v, t) \<Longrightarrow> length v = (4 * n + 2) div 3"
  by (auto simp: randomSecret_def call_def length_b64 split: prod.splits)
     (cases "fst (rand_read S n (ext s))"; auto simp: length_b64)

text \<open>The keys the operator owns; filling touches no others and never an existing value.\<close>

definition auth_keys :: "string list" where
  "auth_keys = [AuthSecretClusterTokenKey, AuthSecretAdminUsernameKey, AuthSecretAdminPasswordKey]"

lemma fill_keys_kept:
  "run_state (fill_keys ks data ch) s = ((data', r), t) \<Longrightarrow>
   (k \<notin> fst ` set ks \<or> mget data k \<noteq> [] \<longrightarrow> data' k = data k) \<and>
   (r = Inr False \<longrightarrow> data' = data \<and> t = s \<and> \<not> ch)"
proof (induction ks data ch arbitrary: s rule: fill_keys.induct)
  case (2 key val ks data ch)
  show ?case
  proof (cases "length (mget data key) > 0")
    case True
    with 2 show ?thesis by auto
  next
    case False
    obtain q u where q: "run_state val s = (q, u)" by (rule runE)
    show ?thesis
    proof (cases q)
      case (Inr v)
      have "run_state (fill_keys ks (data(key \<mapsto> v)) True) u = ((data', r), t)"
        using 2(3) False q Inr by simp
      note IH = 2(2) [OF False this]
      show ?thesis
      proof (cases "k = key")
        case other: False
        then have same: "mget (data(key \<mapsto> v)) k = mget data k" "(data(key \<mapsto> v)) k = data k" by simp_all
        show ?thesis using IH other unfolding same by simp
      qed (use IH False in simp)
    qed (use 2(3) False q in auto)
  qed
qed auto


definition generates :: "(string \<Rightarrow> string \<Rightarrow> bool) \<Rightarrow> (string \<times> ('w, string result) prog) list \<Rightarrow> bool" where
  "generates Q ks \<longleftrightarrow> (\<forall>(k, val)\<in>set ks. \<forall>s v t. run_state val s = (Inr v, t) \<longrightarrow> Q k v)"

lemma fill_keys_ok:
  assumes "run_state (fill_keys ks data ch) s = ((data', Inr ch'), t)"
    and "generates Q ks"
    and "\<And>k v. Q k v \<Longrightarrow> v \<noteq> []"
  shows "\<forall>k\<in>fst ` set ks. mget data k \<noteq> [] \<or> (\<exists>v. data' k = Some v \<and> Q k v)"
    and "ch' \<longleftrightarrow> ch \<or> (\<exists>k\<in>fst ` set ks. mget data k = [])"
proof -
  have "(\<forall>k\<in>fst ` set ks. mget data k \<noteq> [] \<or> (\<exists>v. data' k = Some v \<and> Q k v)) \<and>
    (ch' \<longleftrightarrow> ch \<or> (\<exists>k\<in>fst ` set ks. mget data k = []))"
    using assms(1,2)
  proof (induction ks data ch arbitrary: s rule: fill_keys.induct)
    case (2 key val ks data ch)
    have rule: "generates Q ks" using 2(4) by (simp add: generates_def)
    show ?case
    proof (cases "length (mget data key) > 0")
      case True
      with 2(3) have "run_state (fill_keys ks data ch) s = ((data', Inr ch'), t)" by simp
      from 2(1) [OF True this rule] True show ?thesis by auto
    next
      case False
      obtain q u where q: "run_state val s = (q, u)" by (rule runE)
      with 2(3) False obtain v where v: "q = Inr v" by (cases q) auto
      have rest: "run_state (fill_keys ks (data(key \<mapsto> v)) True) u = ((data', Inr ch'), t)"
        using 2(3) False q v by simp
      have Q: "Q key v" using 2(4) q v unfolding generates_def by fastforce
      then have "data' key = Some v"
        using fill_keys_kept [OF rest, of key] assms(3) by (simp add: mget_def)
      with 2(2) [OF False rest rule] Q False show ?thesis
        by (auto simp del: fun_upd_apply split: if_splits)
    qed
  qed simp
  then show "\<forall>k\<in>fst ` set ks. mget data k \<noteq> [] \<or> (\<exists>v. data' k = Some v \<and> Q k v)"
    and "ch' \<longleftrightarrow> ch \<or> (\<exists>k\<in>fst ` set ks. mget data k = [])" by blast+
qed

lemma fill_keys_full:
  "\<forall>k\<in>fst ` set ks. mget data k \<noteq> [] \<Longrightarrow> run_state (fill_keys ks data ch) s = ((data, Inr ch), s)"
  by (induction ks data ch rule: fill_keys.induct) auto

definition auth_value_ok :: "string \<Rightarrow> string \<Rightarrow> bool" where
  "auth_value_ok k v \<longleftrightarrow>
     (k = AuthSecretClusterTokenKey \<longrightarrow> length v = 43) \<and> (k = AuthSecretAdminUsernameKey \<longrightarrow> v = ''admin'') \<and>
     (k = AuthSecretAdminPasswordKey \<longrightarrow> length v = 32) \<and> v \<noteq> []"

lemmas auth_key_defs = auth_keys_def AuthSecretClusterTokenKey_def AuthSecretAdminUsernameKey_def
  AuthSecretAdminPasswordKey_def

lemma auth_values_ok: "generates auth_value_ok (auth_values S)"
  using length_randomSecret [of S 32] length_randomSecret [of S 24]
  by (fastforce simp: generates_def auth_values_def auth_value_ok_def auth_key_defs)

lemma fst_auth_values [simp]: "fst ` set (auth_values S) = set auth_keys"
  by (simp add: auth_values_def auth_keys_def)

section \<open>Properties\<close>

text \<open>
  C40. Filling the auth Secret never changes a value that is there nor a key that is not the
  operator's, also when it fails. When it succeeds the three keys are set, the generated ones
  to 43 and 32 characters of base64 and the user to \<^verbatim>\<open>admin\<close>; it reports a change exactly when
  one was missing; and filling again changes nothing and draws no randomness.
\<close>

theorem FillAuthSecret_spec:
  assumes "run_state (FillAuthSecret S sec) s = ((sec', r), t)"
  shows "(\<forall>k. k \<notin> set auth_keys \<or> mget (Sec_Data sec) k \<noteq> [] \<longrightarrow> Sec_Data sec' k = Sec_Data sec k) \<and>
     Sec_Meta sec' = Sec_Meta sec \<and> Sec_Type sec' = Sec_Type sec \<and>
     (\<forall>ch. r = Inr ch \<longrightarrow>
        (\<forall>k\<in>set auth_keys. mget (Sec_Data sec) k = [] \<longrightarrow> auth_value_ok k (mget (Sec_Data sec') k)) \<and>
        (ch \<longleftrightarrow> (\<exists>k\<in>set auth_keys. mget (Sec_Data sec) k = [])) \<and>
        (\<forall>u. run_state (FillAuthSecret S sec') u = ((sec', Inr False), u)))"
proof -
  obtain data where run: "run_state (fill_keys (auth_values S) (Sec_Data sec) False) s = ((data, r), t)"
    and sec': "sec' = sec\<lparr> Sec_Data := data \<rparr>"
    using assms by (auto simp: FillAuthSecret_def split: prod.splits)
  have kept: "k \<notin> set auth_keys \<or> mget (Sec_Data sec) k \<noteq> [] \<longrightarrow> data k = Sec_Data sec k" for k
    using fill_keys_kept [OF run, of k] by simp
  have filled: "mget (Sec_Data sec) k \<noteq> [] \<or> (\<exists>v. data k = Some v \<and> auth_value_ok k v)"
    and change: "ch \<longleftrightarrow> (\<exists>k\<in>set auth_keys. mget (Sec_Data sec) k = [])"
    if "r = Inr ch" "k \<in> set auth_keys" for ch k
    using fill_keys_ok [OF run [unfolded that(1)] auth_values_ok] that(2)
    unfolding fst_auth_values by (auto simp: auth_value_ok_def)
  have full: "\<forall>k\<in>set auth_keys. mget data k \<noteq> []" if "r = Inr ch" for ch
  proof
    fix k assume "k \<in> set auth_keys"
    with filled [OF that this] kept [of k] show "mget data k \<noteq> []"
      by (auto simp: mget_def auth_value_ok_def)
  qed
  have again: "run_state (FillAuthSecret S sec') u = ((sec', Inr False), u)" if "r = Inr ch" for ch u
    using fill_keys_full [of "auth_values S" data False u] full [OF that] sec'
    by (simp add: FillAuthSecret_def)
  have vals: "auth_value_ok k (mget data k)" if "r = Inr ch" "k \<in> set auth_keys" "mget (Sec_Data sec) k = []" for ch k
    using filled [OF that(1,2)] that(3) by (auto simp: mget_def)
  have "AuthSecretClusterTokenKey \<in> set auth_keys" by (simp add: auth_keys_def)
  with kept again change vals sec' show ?thesis by simp
qed

text \<open>A Secret with a password of the user's: the token is generated, the password stays.\<close>

definition partial_secret :: secret where
  "partial_secret = \<lparr> Sec_Meta = new_meta ''t-auth'' ''p'' Map.empty, Sec_Type = ''Opaque'',
     Sec_Data = [AuthSecretAdminPasswordKey \<mapsto> ''mine''] \<rparr>"

theorem FillAuthSecret_spec_witness:
  "\<exists>sec' t. run_state (FillAuthSecret (sim_sys no_semver) partial_secret) (start sim_empty) = ((sec', Inr True), t) \<and>
     Sec_Data sec' AuthSecretAdminPasswordKey = Some ''mine'' \<and>
     length (mget (Sec_Data sec') AuthSecretClusterTokenKey) = 43"
proof -
  let ?run = "run_state (FillAuthSecret (sim_sys no_semver) partial_secret) (start sim_empty)"
  have "snd (fst ?run) = Inr True"
    by (simp add: FillAuthSecret_def auth_values_def randomSecret_def call_def sim_sys_def partial_secret_def
        auth_key_defs mget_def del: b64_raw_url.simps)
  then have run: "?run = ((fst (fst ?run), Inr True), snd ?run)" by (metis prod.collapse)
  note spec = FillAuthSecret_spec [OF run]
  have "mget (Sec_Data partial_secret) AuthSecretAdminPasswordKey \<noteq> []"
    "mget (Sec_Data partial_secret) AuthSecretClusterTokenKey = []"
    by (simp_all add: partial_secret_def auth_key_defs mget_def)
  then have "Sec_Data (fst (fst ?run)) AuthSecretAdminPasswordKey = Sec_Data partial_secret AuthSecretAdminPasswordKey"
    "auth_value_ok AuthSecretClusterTokenKey (mget (Sec_Data (fst (fst ?run))) AuthSecretClusterTokenKey)"
    using spec by (blast, auto simp: auth_keys_def)
  then have "Sec_Data (fst (fst ?run)) AuthSecretAdminPasswordKey = Some ''mine''"
    "length (mget (Sec_Data (fst (fst ?run))) AuthSecretClusterTokenKey) = 43"
    by (simp_all add: partial_secret_def auth_value_ok_def)
  with run show ?thesis by blast
qed

end
