(* ===== verification/Workloads.thy ===== *)
theory Workloads
  imports Secrets
begin

text \<open>
  The Kubernetes objects the operator generates: \<^verbatim>\<open>statefulset.go\<close>, \<^verbatim>\<open>service.go\<close>,
  \<^verbatim>\<open>proxy.go\<close> and \<^verbatim>\<open>servicemonitor.go\<close> of \<^verbatim>\<open>internal/hyperbytedb\<close>. The builders are pure
  functions of the cluster; the sections of \<^verbatim>\<open>BuildStatefulSet\<close> are definitions of their own.
\<close>

section \<open>Services\<close>

definition http_port :: "int \<Rightarrow> int \<Rightarrow> service_port" where
  "http_port port nodePort =
     \<lparr> SP_Name = ''http'', SP_Port = port, SP_TargetPort = ''http'', SP_NodePort = nodePort \<rparr>"

definition BuildHeadlessService :: "HyperbytedbCluster \<Rightarrow> service" where
  "BuildHeadlessService c =
     \<lparr> Svc_Meta = new_meta (HeadlessServiceName c) (Namespace c) (CommonLabels c), Svc_Type = [],
       Svc_ClusterIP = ''None'', Svc_Selector = CommonLabels c, Svc_PublishNotReady = True,
       Svc_Ports = [http_port (ServerPort c) 0] \<rparr>"

definition BuildClientService :: "HyperbytedbCluster \<Rightarrow> service" where
  "BuildClientService c =
     \<lparr> Svc_Meta = new_meta (ClientServiceName c) (Namespace c) (CommonLabels c), Svc_Type = ''ClusterIP'',
       Svc_ClusterIP = [], Svc_Selector = CommonLabels c, Svc_PublishNotReady = False,
       Svc_Ports = [http_port (ServerPort c) 0] \<rparr>"

definition BuildProxyService :: "HyperbytedbCluster \<Rightarrow> service" where
  "BuildProxyService c =
     (let svcType = (case Spec_Proxy (Spec c) of
                       Some p \<Rightarrow> if Proxy_ServiceType p \<noteq> [] then Proxy_ServiceType p else ''ClusterIP''
                     | None \<Rightarrow> ''ClusterIP'');
          nodePort = (case Spec_Proxy (Spec c) of
                       Some p \<Rightarrow> if svcType = ''NodePort'' \<and> Proxy_NodePort p > 0 then Proxy_NodePort p else 0
                     | None \<Rightarrow> 0)
      in \<lparr> Svc_Meta = new_meta (ProxyServiceName c) (Namespace c) (proxyLabels c), Svc_Type = svcType,
           Svc_ClusterIP = [], Svc_Selector = proxyLabels c, Svc_PublishNotReady = False,
           Svc_Ports = [http_port (proxyPort c) nodePort] \<rparr>)"

section \<open>The StatefulSet\<close>

definition drainAckWaitSecs :: int where "drainAckWaitSecs = 90"
definition podTerminationGraceSecs :: int where "podTerminationGraceSecs = 120"

definition tls_on :: "HyperbytedbCluster \<Rightarrow> bool" where
  "tls_on c = (case Server_TLS (Spec_Server (Spec c)) of None \<Rightarrow> False | Some t \<Rightarrow> TLS_Enabled t)"

definition lines_of :: "string list \<Rightarrow> string" where
  "lines_of ls = concat (map (\<lambda>l. l @ NL) ls)"

text \<open>A shell text with every backquote in the source of the model standing for a double quote.\<close>

definition dq :: "string \<Rightarrow> string" where
  "dq s = map (\<lambda>x. if x = CHR 0x60 then CHR 0x22 else x) s"

definition init_script :: "HyperbytedbCluster \<Rightarrow> string" where
  "init_script c = lines_of
     [''#!/bin/sh'',
      ''set -e'',
      dq ''ORDINAL=$(echo `$HOSTNAME` | rev | cut -d'-' -f1 | rev)'',
      ''NODE_ID=$((ORDINAL + 1))'',
      dq ''SELF_ADDR=`${HOSTNAME}.'' @ HeadlessServiceName c @ ''.'' @ Namespace c @ ''.svc.cluster.local:''
        @ dec (ServerPort c) @ [CHR 0x22],
      ''{'',
      dq ''  echo `export HYPERBYTEDB__CLUSTER__NODE_ID=$NODE_ID`'',
      dq ''  echo `export HYPERBYTEDB__CLUSTER__CLUSTER_ADDR=$SELF_ADDR`'',
      dq ''  echo `export HYPERBYTEDB__CLUSTER__PEERS=`'',
      ''} > /shared/env.sh'']"

definition entrypoint :: string where
  "entrypoint = lines_of
     [''#!/bin/sh'', ''. /shared/env.sh'', ''exec hyperbytedb --config /etc/hyperbytedb/config.toml serve'']"

definition clusterPreStopScript :: "int \<Rightarrow> bool \<Rightarrow> string" where
  "clusterPreStopScript port clusterAuth =
     (let auth = (if clusterAuth then dq '' -H `'' @ ClusterTokenHeader
                    @ dq '': $HYPERBYTEDB__AUTH__CLUSTER_TOKEN`'' else [])
      in lines_of
        [''curl -sf'' @ auth @ '' -X POST http://localhost:'' @ dec port @ ''/internal/drain || true'',
         ''for i in $(seq 1 '' @ dec drainAckWaitSecs @ ''); do'',
         ''  if curl -sf'' @ auth @ '' http://localhost:'' @ dec port
           @ dq ''/cluster/metrics 2>/dev/null | grep -q '`state`:`leaving`'; then'',
         ''    exit 0'',
         ''  fi'',
         ''  sleep 1'',
         ''done''] @ ''exit 0'')"

definition containerPorts :: "int \<Rightarrow> bool \<Rightarrow> int \<Rightarrow> container_port list" where
  "containerPorts port controlListener controlPort =
     \<lparr> CP_Name = ''http'', CP_Port = port \<rparr> #
     (if controlListener then [\<lparr> CP_Name = ''control'', CP_Port = controlPort \<rparr>] else [])"

definition podManagementPolicy :: "HyperbytedbCluster \<Rightarrow> bool \<Rightarrow> string" where
  "podManagementPolicy c clusterEnabled =
     (if clusterEnabled \<and> mget (Annotations c) ParallelPodsAnnotation \<noteq> annotationTrue
      then ''OrderedReady'' else ''Parallel'')"

definition sts_volumes :: "HyperbytedbCluster \<Rightarrow> volume list" where
  "sts_volumes c =
     [\<lparr> Vol_Name = ''config'', Vol_Source = VolConfigMap (ConfigMapName c) \<rparr>,
      \<lparr> Vol_Name = ''shared'', Vol_Source = VolEmptyDir \<rparr>,
      \<lparr> Vol_Name = ''entrypoint'', Vol_Source = VolEmptyDir \<rparr>]
     @ (case Server_TLS (Spec_Server (Spec c)) of
          Some t \<Rightarrow> if TLS_Enabled t
            then [\<lparr> Vol_Name = ''tls'', Vol_Source =
                     VolSecret (if TLS_SecretName t = [] then Name c @ ''-tls'' else TLS_SecretName t) \<rparr>]
            else []
        | None \<Rightarrow> [])
     @ Spec_AdditionalVolumes (Spec c)"

definition plain_container :: "string \<Rightarrow> string \<Rightarrow> container" where
  "plain_container name img =
     \<lparr> C_Name = name, C_Image = img, C_PullPolicy = [], C_Command = [], C_Env = [], C_Ports = [],
       C_VolumeMounts = [], C_StartupProbe = None, C_LivenessProbe = None, C_ReadinessProbe = None,
       C_Resources = [], C_PreStop = None \<rparr>"

definition mount :: "string \<Rightarrow> string \<Rightarrow> bool \<Rightarrow> volume_mount" where
  "mount name path ro = \<lparr> VM_Name = name, VM_Path = path, VM_ReadOnly = ro \<rparr>"

definition init_containers :: "HyperbytedbCluster \<Rightarrow> container list" where
  "init_containers c =
     [(plain_container ''init-node-id'' ''busybox:1.36'')
        \<lparr> C_Command := [''sh'', ''-c'', init_script c], C_VolumeMounts := [mount ''shared'' ''/shared'' False] \<rparr>,
      (plain_container ''init-entrypoint'' ''busybox:1.36'')
        \<lparr> C_Command := [''sh'', ''-c'', ''printf '%s' '' @ [CHR 0x27] @ entrypoint
            @ [CHR 0x27] @ '' > /entrypoint/start.sh && chmod +x /entrypoint/start.sh''],
          C_VolumeMounts := [mount ''entrypoint'' ''/entrypoint'' False] \<rparr>]"

definition env_value :: "string \<Rightarrow> string \<Rightarrow> env_var" where
  "env_value n v = \<lparr> Env_Name = n, Env_Source = EnvValue v \<rparr>"

definition sts_env :: "semver \<Rightarrow> HyperbytedbCluster \<Rightarrow> env_var list" where
  "sts_env sv c =
     [env_value ''HYPERBYTEDB__STORAGE__WAL_DIR'' ''/var/lib/hyperbytedb/wal'',
      env_value ''HYPERBYTEDB__STORAGE__META_DIR'' ''/var/lib/hyperbytedb/meta'',
      env_value ''HYPERBYTEDB__CHDB__SESSION_DATA_PATH''
        (str_or (ChDB_SessionDataPath (Spec_ChDB (Spec c))) ''/var/lib/hyperbytedb/chdb''),
      env_value ''HYPERBYTEDB__LOGGING__LEVEL'' (str_or (Logging_Level (Spec_Logging (Spec c))) ''info'')]
     @ (if ClusterAuthEnabled sv c then authEnv c else [])"

definition sts_mounts :: "HyperbytedbCluster \<Rightarrow> volume_mount list" where
  "sts_mounts c =
     [mount ''data'' ''/var/lib/hyperbytedb'' False, mount ''config'' ''/etc/hyperbytedb'' True,
      mount ''shared'' ''/shared'' True, mount ''entrypoint'' ''/entrypoint'' True]
     @ (if tls_on c then [mount ''tls'' ''/etc/hyperbytedb/tls'' True] else [])
     @ Spec_AdditionalVolumeMounts (Spec c)"

definition http_probe :: "string \<Rightarrow> string \<Rightarrow> string \<Rightarrow> int \<Rightarrow> int \<Rightarrow> int \<Rightarrow> int \<Rightarrow> probe" where
  "http_probe path port scheme delay period timeout failures =
     \<lparr> Probe_Path = path, Probe_Port = port, Probe_Scheme = scheme, Probe_InitialDelay = delay,
       Probe_Period = period, Probe_Timeout = timeout, Probe_FailureThreshold = failures \<rparr>"

definition main_container :: "semver \<Rightarrow> HyperbytedbCluster \<Rightarrow> container" where
  "main_container sv c =
     (let clusterEnabled = clusterMetadataEnabled c;
          port = ServerPort c;
          probeScheme = (if tls_on c then ''HTTPS'' else ''HTTP'');
          controlListener = ControlListenerEnabled sv c clusterEnabled
      in \<lparr> C_Name = ''hyperbytedb'', C_Image = ResolveHyperbytedbImage c,
           C_PullPolicy = str_or (Spec_ImagePullPolicy (Spec c)) ''IfNotPresent'',
           C_Command = [''sh'', ''/entrypoint/start.sh''],
           C_Env = sts_env sv c,
           C_Ports = containerPorts port controlListener (ControlPort c),
           C_VolumeMounts = sts_mounts c,
           C_StartupProbe = Some (http_probe ''/ping'' ''http'' probeScheme 5 5 3 120),
           C_LivenessProbe = Some (if controlListener then http_probe ''/ping'' ''control'' ''HTTP'' 15 10 3 0
                                   else http_probe ''/ping'' ''http'' probeScheme 15 10 3 0),
           C_ReadinessProbe = Some (http_probe ''/health'' ''http'' probeScheme 5 5 3 0),
           C_Resources = Spec_Resources (Spec c),
           C_PreStop = (if clusterEnabled
                        then Some [''sh'', ''-c'', clusterPreStopScript port (ClusterAuthEnabled sv c)]
                        else None) \<rparr>)"

definition data_claim :: "HyperbytedbCluster \<Rightarrow> pvc" where
  "data_claim c =
     (let vct = Storage_VolumeClaimTemplate (Spec_Storage (Spec c))
      in \<lparr> PVC_Meta = new_meta ''data'' [] Map.empty, PVC_AccessModes = [''ReadWriteOnce''],
           PVC_Storage = (case vct of Some t \<Rightarrow> if VCT_Size t \<noteq> 0 then VCT_Size t else 10 * 2 ^ 30
                                    | None \<Rightarrow> 10 * 2 ^ 30),
           PVC_StorageClassName = (case vct of Some t \<Rightarrow> VCT_StorageClassName t | None \<Rightarrow> None) \<rparr>)"

definition spread :: "strmap \<Rightarrow> affinity" where
  "spread labels = PreferSpread 100 labels ''kubernetes.io/hostname''"

definition sts_pod_spec :: "semver \<Rightarrow> HyperbytedbCluster \<Rightarrow> pod_spec" where
  "sts_pod_spec sv c =
     \<lparr> PS_GracePeriodSeconds = Some podTerminationGraceSecs,
       PS_ImagePullSecrets = Spec_ImagePullSecrets (Spec c),
       PS_InitContainers = init_containers c,
       PS_Containers = [main_container sv c],
       PS_Volumes = sts_volumes c,
       PS_Tolerations = Spec_Tolerations (Spec c),
       PS_Affinity = (case Spec_Affinity (Spec c) of
           Some a \<Rightarrow> Some (UserAffinity a)
         | None \<Rightarrow> if clusterMetadataEnabled c then Some (spread (CommonLabels c)) else None),
       PS_TopologySpread = Spec_TopologySpreadConstraints (Spec c),
       PS_RestartPolicy = [] \<rparr>"

definition config_hash_annotation :: string where
  "config_hash_annotation = ''hyperbytedb.hyperbyte.cloud/config-hash''"

definition BuildStatefulSet :: "semver \<Rightarrow> HyperbytedbCluster \<Rightarrow> string \<Rightarrow> sts" where
  "BuildStatefulSet sv c configHash =
     \<lparr> Sts_Meta = new_meta (StatefulSetName c) (Namespace c) (CommonLabels c),
       Sts_Replicas = Some (deref 1 (Spec_Replicas (Spec c))),
       Sts_ServiceName = HeadlessServiceName c,
       Sts_Selector = CommonLabels c,
       Sts_PodManagementPolicy = podManagementPolicy c (clusterMetadataEnabled c),
       Sts_UpdateType = ''RollingUpdate'',
       Sts_RollingUpdate = None,
       Sts_Template =
         \<lparr> T_Labels = CommonLabels c ++ Spec_PodLabels (Spec c),
           T_Annotations = (if configHash \<noteq> []
             then (Spec_PodAnnotations (Spec c))(config_hash_annotation \<mapsto> configHash)
             else Spec_PodAnnotations (Spec c)),
           T_Spec = sts_pod_spec sv c \<rparr>,
       Sts_VolumeClaimTemplates = [data_claim c],
       StsS_Replicas = 0, StsS_ReadyReplicas = 0, StsS_UpdatedReplicas = 0,
       StsS_CurrentRevision = [], StsS_UpdateRevision = [] \<rparr>"

section \<open>The proxy\<close>

definition or_positive :: "int \<Rightarrow> int \<Rightarrow> int" where
  "or_positive v d = (if v > 0 then v else d)"

definition proxy_env :: "semver \<Rightarrow> HyperbytedbCluster \<Rightarrow> ProxySpec \<Rightarrow> env_var list" where
  "proxy_env sv c spec =
     [env_value ''HYPERBYTEDB_PROXY_LISTEN'' (''0.0.0.0:'' @ dec (proxyPort c)),
      env_value ''HYPERBYTEDB_PROXY_BACKEND_SERVICE''
        (HeadlessServiceName c @ ''.'' @ Namespace c @ ''.svc.cluster.local''),
      env_value ''HYPERBYTEDB_PROXY_BACKEND_PORT'' (dec (ServerPort c)),
      env_value ''HYPERBYTEDB_PROXY_HEALTH_PATH'' (str_or (Proxy_HealthPath spec) ''/health''),
      env_value ''HYPERBYTEDB_PROXY_HOLD_TIMEOUT_SECS'' (dec (or_positive (Proxy_HoldTimeoutSecs spec) 30)),
      env_value ''HYPERBYTEDB_PROXY_MAX_RETRIES''
        (dec (if Proxy_MaxRetries spec \<ge> 0 \<and> Proxy_MaxRetries spec \<noteq> 0 then Proxy_MaxRetries spec else 2)),
      env_value ''HYPERBYTEDB_PROXY_SHUTDOWN_GRACE_SECS'' (dec (or_positive (Proxy_ShutdownGraceSecs spec) 30)),
      env_value ''HYPERBYTEDB_PROXY_REQUEST_TIMEOUT_SECS''
        (dec (or_positive (Proxy_RequestTimeoutSecs spec)
                (or_positive (Server_RequestTimeoutSecs (Spec_Server (Spec c))) 60))),
      \<lparr> Env_Name = ''HYPERBYTEDB_PROXY_SELF_IP'', Env_Source = EnvField ''status.podIP'' \<rparr>]
     @ (if Logging_Format (Spec_Logging (Spec c)) = ''json'' then [env_value ''LOG_FORMAT'' ''json''] else [])
     @ (if ProxySupports sv c CapabilityProxyAdminListener
        then [env_value ''HYPERBYTEDB_PROXY_ADMIN_LISTEN'' (''0.0.0.0:'' @ dec (ProxyAdminPort sv c))] else [])"

definition proxy_container :: "semver \<Rightarrow> HyperbytedbCluster \<Rightarrow> ProxySpec \<Rightarrow> container" where
  "proxy_container sv c spec =
     (let admin = ProxySupports sv c CapabilityProxyAdminListener;
          probePort = (if admin then ''admin'' else ''http'')
      in (plain_container ''proxy'' (ResolveProxyImage c))
           \<lparr> C_PullPolicy := str_or (Proxy_ImagePullPolicy spec) ''IfNotPresent'',
             C_Env := proxy_env sv c spec,
             C_Ports := \<lparr> CP_Name = ''http'', CP_Port = proxyPort c \<rparr> #
               (if admin then [\<lparr> CP_Name = ''admin'', CP_Port = ProxyAdminPort sv c \<rparr>] else []),
             C_LivenessProbe := Some (http_probe ''/healthz'' probePort [] 2 10 2 0),
             C_ReadinessProbe := Some (http_probe ''/readyz'' probePort [] 1 2 2 0),
             C_Resources := Proxy_Resources spec \<rparr>)"

definition BuildProxyDeployment :: "semver \<Rightarrow> HyperbytedbCluster \<Rightarrow> deployment" where
  "BuildProxyDeployment sv c =
     (let spec = deref zero_ProxySpec (Spec_Proxy (Spec c));
          graceSecs = or_positive (Proxy_ShutdownGraceSecs spec) 30
      in \<lparr> Dep_Meta = new_meta (ProxyDeploymentName c) (Namespace c) (proxyLabels c),
           Dep_Replicas = Some (deref 2 (Proxy_Replicas spec)),
           Dep_Selector = proxyLabels c,
           Dep_StrategyType = ''RollingUpdate'',
           Dep_MaxUnavailable = Some (IntVal 0),
           Dep_MaxSurge = Some (IntVal 1),
           Dep_Template =
             \<lparr> T_Labels = proxyLabels c ++ Proxy_PodLabels spec,
               T_Annotations = Proxy_PodAnnotations spec,
               T_Spec =
                 \<lparr> PS_GracePeriodSeconds = Some (i32 (graceSecs + 10)),
                   PS_ImagePullSecrets = Proxy_ImagePullSecrets spec,
                   PS_InitContainers = [],
                   PS_Containers = [proxy_container sv c spec],
                   PS_Volumes = [], PS_Tolerations = [],
                   PS_Affinity = Some (spread (proxyLabels c)),
                   PS_TopologySpread = [], PS_RestartPolicy = [] \<rparr> \<rparr> \<rparr>)"

section \<open>The ServiceMonitor\<close>

definition BuildServiceMonitor :: "HyperbytedbCluster \<Rightarrow> service_monitor" where
  "BuildServiceMonitor c =
     \<lparr> SM_Meta = new_meta (Name c) (Namespace c) (CommonLabels c), SM_Selector = CommonLabels c,
       SM_Port = ''http'', SM_Path = ''/metrics'', SM_Interval = ''15s'', SM_Namespaces = [Namespace c] \<rparr>"

section \<open>Generated templates are well formed\<close>

text \<open>
  What the API server or the kubelet demands of a template: container ports with distinct names
  and numbers, probes on ports of their container, mounts of volumes (or claims) that exist.
\<close>

definition probe_ok :: "container \<Rightarrow> probe option \<Rightarrow> bool" where
  "probe_ok k p = (case p of None \<Rightarrow> True | Some q \<Rightarrow> Probe_Port q \<in> set (map CP_Name (C_Ports k)))"

definition container_ok :: "string list \<Rightarrow> container \<Rightarrow> bool" where
  "container_ok vols k \<longleftrightarrow>
     distinct (map CP_Name (C_Ports k)) \<and> distinct (map CP_Port (C_Ports k)) \<and>
     probe_ok k (C_StartupProbe k) \<and> probe_ok k (C_LivenessProbe k) \<and> probe_ok k (C_ReadinessProbe k) \<and>
     list_all (\<lambda>m. VM_Name m \<in> set vols) (C_VolumeMounts k)"

definition template_ok :: "string list \<Rightarrow> pod_template \<Rightarrow> bool" where
  "template_ok claims t \<longleftrightarrow>
     list_all (container_ok (claims @ map Vol_Name (PS_Volumes (T_Spec t))))
       (PS_InitContainers (T_Spec t) @ PS_Containers (T_Spec t))"

text \<open>Label selection over all keys, as Kubernetes does it.\<close>

definition matches :: "strmap \<Rightarrow> strmap \<Rightarrow> bool" where
  "matches sel labels \<longleftrightarrow> sel \<subseteq>\<^sub>m labels"

lemma ServerPort_pos: "0 < ServerPort c"
  by (simp add: ServerPort_def)

lemma control_ne_server: "in_i32 (ServerPort c + 1) \<Longrightarrow> ControlPort c \<noteq> ServerPort c"
  by (simp add: ControlPort_def)

lemma admin_ne_client: "ProxySupports sv c CapabilityProxyAdminListener \<Longrightarrow> ProxyAdminPort sv c \<noteq> proxyPort c"
  by (simp add: ProxyAdminPort_def proxyAdminListenPort_def i32_def)

lemma more_with_replicas:
  "Spec_PodLabels (Spec (with_replicas r c)) = Spec_PodLabels (Spec c)"
  "Spec_PodAnnotations (Spec (with_replicas r c)) = Spec_PodAnnotations (Spec c)"
  "Spec_Affinity (Spec (with_replicas r c)) = Spec_Affinity (Spec c)"
  "Spec_TopologySpreadConstraints (Spec (with_replicas r c)) = Spec_TopologySpreadConstraints (Spec c)"
  "Spec_Tolerations (Spec (with_replicas r c)) = Spec_Tolerations (Spec c)"
  "Spec_AdditionalVolumes (Spec (with_replicas r c)) = Spec_AdditionalVolumes (Spec c)"
  "Spec_AdditionalVolumeMounts (Spec (with_replicas r c)) = Spec_AdditionalVolumeMounts (Spec c)"
  "Spec_ImagePullSecrets (Spec (with_replicas r c)) = Spec_ImagePullSecrets (Spec c)"
  "Spec_ImagePullPolicy (Spec (with_replicas r c)) = Spec_ImagePullPolicy (Spec c)"
  "Spec_Resources (Spec (with_replicas r c)) = Spec_Resources (Spec c)"
  "Meta (with_replicas r c) = Meta c"
  by (simp_all add: with_replicas_def)

lemma workload_with_replicas:
  "sts_volumes (with_replicas r c) = sts_volumes c"
  "init_containers (with_replicas r c) = init_containers c"
  "sts_env sv (with_replicas r c) = sts_env sv c"
  "sts_mounts (with_replicas r c) = sts_mounts c"
  "data_claim (with_replicas r c) = data_claim c"
  "podManagementPolicy (with_replicas r c) b = podManagementPolicy c b"
  "tls_on (with_replicas r c) = tls_on c"
  unfolding sts_volumes_def init_containers_def init_script_def sts_env_def authEnv_def sts_mounts_def tls_on_def
    data_claim_def podManagementPolicy_def more_with_replicas with_replicas_simps naming_with_replicas
    compat_with_replicas by (rule refl)+

lemma main_container_with_replicas:
  assumes "clusterMetadataEnabled (with_replicas r c) = clusterMetadataEnabled c"
  shows "main_container sv (with_replicas r c) = main_container sv c"
  unfolding main_container_def Let_def assms workload_with_replicas more_with_replicas naming_with_replicas
    compat_with_replicas by (rule refl)

lemma sts_with_replicas:
  assumes "clusterMetadataEnabled (with_replicas r c) = clusterMetadataEnabled c"
  shows "BuildStatefulSet sv (with_replicas r c) h = (BuildStatefulSet sv c h)\<lparr> Sts_Replicas := Some (deref 1 r) \<rparr>"
  unfolding BuildStatefulSet_def sts_pod_spec_def workload_with_replicas main_container_with_replicas [OF assms] assms
    more_with_replicas naming_with_replicas
  by (simp add: with_replicas_def)

lemma sts_pre_stop:
  "C_PreStop (hd (PS_Containers (T_Spec (Sts_Template (BuildStatefulSet sv c h))))) \<noteq> None
     \<longleftrightarrow> clusterMetadataEnabled c"
  by (simp add: BuildStatefulSet_def sts_pod_spec_def main_container_def Let_def)

lemma volume_names:
  "{''config'', ''shared'', ''entrypoint''} \<subseteq> Vol_Name ` set (sts_volumes c)"
  "tls_on c \<Longrightarrow> ''tls'' \<in> Vol_Name ` set (sts_volumes c)"
proof -
  show "{''config'', ''shared'', ''entrypoint''} \<subseteq> Vol_Name ` set (sts_volumes c)"
    by (simp add: sts_volumes_def)
  assume "tls_on c"
  then obtain t where "Server_TLS (Spec_Server (Spec c)) = Some t" "TLS_Enabled t"
    by (auto simp: tls_on_def split: option.splits)
  then show "''tls'' \<in> Vol_Name ` set (sts_volumes c)" by (simp add: sts_volumes_def)
qed

lemma sts_mounts_ok:
  assumes "\<forall>m\<in>set (Spec_AdditionalVolumeMounts (Spec c)). VM_Name m \<in> set (''data'' # map Vol_Name (sts_volumes c))"
  shows "list_all (\<lambda>m. VM_Name m \<in> set (''data'' # map Vol_Name (sts_volumes c))) (sts_mounts c)"
  using assms volume_names [of c] unfolding sts_mounts_def list_all_append
  by (simp add: mount_def list_all_iff)

section \<open>Properties\<close>

text \<open>
  C33. Scaling does not restart pods: the configuration digest is the same for every replica count.
  The StatefulSets generated before and after a change of \<^verbatim>\<open>spec.replicas\<close> differ in the replica count
  only, their pod templates are equal and the mounted configuration is the same, exactly when the change
  does not switch cluster mode on or off (one replica without sharding).
\<close>

theorem BuildStatefulSet_scaling:
  "ConfigHash sv (with_replicas r c) = ConfigHash sv c \<and>
   (renderConfigTOML sv (with_replicas r c) = renderConfigTOML sv c
    \<longleftrightarrow> clusterMetadataEnabled (with_replicas r c) = clusterMetadataEnabled c) \<and>
   (Sts_Template (BuildStatefulSet sv (with_replicas r c) (ConfigHash sv (with_replicas r c)))
      = Sts_Template (BuildStatefulSet sv c (ConfigHash sv c))
    \<longleftrightarrow> clusterMetadataEnabled (with_replicas r c) = clusterMetadataEnabled c) \<and>
   (BuildStatefulSet sv (with_replicas r c) (ConfigHash sv (with_replicas r c))
      = (BuildStatefulSet sv c (ConfigHash sv c))\<lparr> Sts_Replicas := Some (deref 1 r) \<rparr>
    \<longleftrightarrow> clusterMetadataEnabled (with_replicas r c) = clusterMetadataEnabled c)"
proof -
  have hash: "ConfigHash sv (with_replicas r c) = ConfigHash sv c" using ConfigHash_with_replicas by blast
  show ?thesis
    unfolding hash
    using ConfigHash_with_replicas [of sv r c] sts_with_replicas [of r c sv "ConfigHash sv c"] sts_pre_stop [of sv c "ConfigHash sv c"]
      sts_pre_stop [of sv "with_replicas r c" "ConfigHash sv c"]
    by (metis (no_types, lifting) sts.select_convs(8) sts.surjective sts.update_convs(2))
qed

text \<open>
  C34. The generated templates are well formed: port names and numbers are distinct, every
  probe addresses a port of its container and every mount a volume or the data claim, given
  that the user's own mounts name declared volumes and the control port does not overflow.
\<close>

theorem templates_well_formed:
  assumes "in_i32 (ServerPort c + 1)"
    and "\<forall>m\<in>set (Spec_AdditionalVolumeMounts (Spec c)).
           VM_Name m \<in> set (''data'' # map Vol_Name (sts_volumes c))"
  shows "template_ok [''data''] (Sts_Template (BuildStatefulSet sv c h)) \<and>
     template_ok [] (Dep_Template (BuildProxyDeployment sv c)) \<and>
     (\<forall>p\<in>set (Svc_Ports (BuildHeadlessService c) @ Svc_Ports (BuildClientService c)).
        SP_TargetPort p \<in> set (map CP_Name (C_Ports (main_container sv c))))"
proof (intro conjI)
  have "container_ok (''data'' # map Vol_Name (sts_volumes c)) (main_container sv c)"
    using control_ne_server [OF assms(1)] sts_mounts_ok [OF assms(2)]
    by (auto simp: container_ok_def main_container_def Let_def containerPorts_def probe_ok_def http_probe_def)
  moreover have "list_all (container_ok (''data'' # map Vol_Name (sts_volumes c))) (init_containers c)"
    by (simp add: init_containers_def container_ok_def plain_container_def probe_ok_def mount_def sts_volumes_def)
  ultimately show "template_ok [''data''] (Sts_Template (BuildStatefulSet sv c h))"
    by (simp add: template_ok_def BuildStatefulSet_def sts_pod_spec_def)
  show "template_ok [] (Dep_Template (BuildProxyDeployment sv c))"
    using admin_ne_client [of sv c]
    by (auto simp: template_ok_def BuildProxyDeployment_def Let_def container_ok_def proxy_container_def
        plain_container_def probe_ok_def http_probe_def)
qed (simp add: BuildHeadlessService_def BuildClientService_def http_port_def main_container_def Let_def containerPorts_def)

theorem templates_well_formed_witness:
  "template_ok [''data''] (Sts_Template (BuildStatefulSet no_semver (new_cluster ''t'' ''p'') []))"
  using templates_well_formed [of "new_cluster ''t'' ''p''" no_semver "[]"]
  by (simp add: ServerPort_def zero_defs in_i32_def)

definition agrees :: "strmap \<Rightarrow> string \<Rightarrow> string \<Rightarrow> bool" where
  "agrees m k v \<longleftrightarrow> m k = None \<or> m k = Some v"

text \<open>
  C35. Who receives traffic: the database Services select the database pods exactly when the
  user's pod labels do not contradict the operator's, and they select a proxy pod (which would
  then forward to itself) exactly when the user relabels the proxies as databases.
\<close>

theorem services_select:
  "(matches (Svc_Selector (BuildHeadlessService c)) (T_Labels (Sts_Template (BuildStatefulSet sv c h))) \<longleftrightarrow>
      agrees (Spec_PodLabels (Spec c)) ''app.kubernetes.io/name'' ''hyperbytedb'' \<and>
      agrees (Spec_PodLabels (Spec c)) ''app.kubernetes.io/instance'' (Name c) \<and>
      agrees (Spec_PodLabels (Spec c)) ''app.kubernetes.io/managed-by'' ''hyperbytedb-operator'') \<and>
   (matches (Svc_Selector (BuildHeadlessService c)) (T_Labels (Dep_Template (BuildProxyDeployment sv c))) \<longleftrightarrow>
      (let l = Proxy_PodLabels (deref zero_ProxySpec (Spec_Proxy (Spec c)))
       in l ''app.kubernetes.io/name'' = Some ''hyperbytedb'' \<and>
          agrees l ''app.kubernetes.io/instance'' (Name c) \<and>
          agrees l ''app.kubernetes.io/managed-by'' ''hyperbytedb-operator'')) \<and>
   Svc_Selector (BuildClientService c) = Svc_Selector (BuildHeadlessService c)"
  by (auto simp: matches_def map_le_def BuildHeadlessService_def BuildClientService_def BuildStatefulSet_def
      BuildProxyDeployment_def Let_def CommonLabels_def proxyLabels_def agrees_def map_add_def
      split: option.splits if_splits)

end
