(* ===== verification/Scale_Down.thy ===== *)
theory Scale_Down
  imports Sim
begin

text \<open>
  Scale-down, from \<^verbatim>\<open>internal/controller/hyperbytedbcluster_controller.go\<close> and \<^verbatim>\<open>pvc.go\<close>: the
  plan for the departing nodes, the hooks that run before the StatefulSet shrinks, the removal
  of departed Raft voters, the deletion of pods and volumes left behind. The lemmas relate
  what the hooks report to the requests in the log: they answer \<open>True\<close> only after every
  departing node was seen evacuated or unreachable and every one was then removed from the
  Raft voters.
\<close>

section \<open>The departure plan\<close>

definition nodeStateDecommissioning :: string where "nodeStateDecommissioning = ''decommissioning''"
definition nodeStateLeaving :: string where "nodeStateLeaving = ''leaving''"

record departingNode =
  DN_state :: string
  DN_reachable :: bool

definition departingNodeAction :: "string \<Rightarrow> bool \<Rightarrow> bool \<times> bool" where
  "departingNodeAction st reachable =
     (if \<not> reachable then (False, False)
      else if st = nodeStateLeaving then (False, False)
      else if st = nodeStateDecommissioning then (False, True)
      else (True, True))"

fun plan_from :: "nat \<Rightarrow> departingNode list \<Rightarrow> bool \<Rightarrow> nat list \<times> bool" where
  "plan_from i [] together = ([], True)"
| "plan_from i (n # ns) together =
     (let (decommission, gate) = departingNodeAction (DN_state n) (DN_reachable n);
          mine = (if decommission then [i] else [])
      in if gate \<and> \<not> together then (mine, False)
         else (let (tell, evacuated) = plan_from (Suc i) ns together
               in (mine @ tell, \<not> gate \<and> evacuated)))"

definition departurePlan :: "departingNode list \<Rightarrow> bool \<Rightarrow> nat list \<times> bool" where
  "departurePlan nodes together = plan_from 0 nodes together"

section \<open>Raft voters\<close>

text \<open>\<open>hosts\<close> maps node ids to hosts; the source sorts the ids before asking.\<close>

fun ask_leader ::
  "'w sys \<Rightarrow> string \<Rightarrow> (int \<times> string) list \<Rightarrow> int \<Rightarrow> int list \<Rightarrow> ('w, string result) prog" where
  "ask_leader S tok hosts port [] = ret (Inl (PlainErr ''no raft leader visible''))"
| "ask_leader S tok hosts port (i # ids) = do {
     r \<leftarrow> GetClusterLeader S tok (deref [] (map_of hosts i)) port;
     case r of
       Inl _ \<Rightarrow> ask_leader S tok hosts port ids
     | Inr info \<Rightarrow>
         (case LI_LeaderID info of
            None \<Rightarrow> ask_leader S tok hosts port ids
          | Some l \<Rightarrow>
              (case map_of hosts l of
                 Some h \<Rightarrow> ret (Inr h)
               | None \<Rightarrow> ask_leader S tok hosts port ids)) }"

definition raftLeaderHost :: "'w sys \<Rightarrow> string \<Rightarrow> (int \<times> string) list \<Rightarrow> int \<Rightarrow> ('w, string result) prog" where
  "raftLeaderHost S tok hosts port = ask_leader S tok hosts port (sort (map fst hosts))"

definition removeDepartedVoters ::
  "'w sys \<Rightarrow> string \<Rightarrow> (int \<times> string) list \<Rightarrow> int \<Rightarrow> int list \<Rightarrow> ('w, unit result) prog" where
  "removeDepartedVoters S tok hosts port departed =
     forErr departed (\<lambda>i.
       attempt (raftLeaderHost S tok hosts port) (\<lambda>leaderHost. do {
         r \<leftarrow> RemoveClusterNode S tok leaderHost port i;
         ret (map_sum (WrapErr (''remove node '' @ dec i @ '' from raft voters via '' @ leaderHost)) (\<lambda>_. ()) r) }))"

section \<open>The hooks before a shrink\<close>

text \<open>The loop over the departing pods, highest ordinal first, with its early break.\<close>

definition departing_view :: "HealthStatus result \<Rightarrow> departingNode" where
  "departing_view health =
     (case health of
        Inl _ \<Rightarrow> \<lparr> DN_state = [], DN_reachable = False \<rparr>
      | Inr h \<Rightarrow> \<lparr> DN_state = HS_State h, DN_reachable = True \<rparr>)"

fun survey ::
  "'w sys \<Rightarrow> string \<Rightarrow> HyperbytedbCluster \<Rightarrow> bool \<Rightarrow> int list \<Rightarrow> ('w, (departingNode \<times> string) list) prog" where
  "survey S tok c together [] = ret []"
| "survey S tok c together (i # is) = do {
     health \<leftarrow> GetNodeHealth S tok (pod_host c i) (ServerPort c);
     let n = departing_view health;
     if \<not> together \<and> DN_reachable n \<and> DN_state n \<noteq> nodeStateLeaving
     then ret [(n, pod_host c i)]
     else do {
       rest \<leftarrow> survey S tok c together is;
       ret ((n, pod_host c i) # rest) } }"

definition node_hosts :: "HyperbytedbCluster \<Rightarrow> int \<Rightarrow> (int \<times> string) list" where
  "node_hosts c replicas = map (\<lambda>i. (u64 (i + 1), pod_host c i)) (ords_up 0 replicas)"

definition runScaleDownClusterHooks ::
  "'w sys \<Rightarrow> string \<Rightarrow> HyperbytedbCluster \<Rightarrow> int \<Rightarrow> int \<Rightarrow> ('w, bool) prog" where
  "runScaleDownClusterHooks S tok c prevReplicas desiredReplicas =
     (if desiredReplicas \<ge> prevReplicas \<or> prevReplicas < 1 then ret True
      else
        (let port = ServerPort c; together = EvacuateTogether (sys_semver S) c in do {
          found \<leftarrow> survey S tok c together (ords_down prevReplicas desiredReplicas);
          let (tell, evacuated) = departurePlan (map fst found) together;
          forEach tell (\<lambda>k. do { _ \<leftarrow> DecommissionNode S tok (snd (found ! k)) port; ret () });
          if \<not> evacuated then ret False
          else do {
            r \<leftarrow> removeDepartedVoters S tok (node_hosts c prevReplicas) port
                  (map (\<lambda>i. u64 (i + 1)) (ords_down prevReplicas desiredReplicas));
            case r of
              Inl _ \<Rightarrow> ret False
            | Inr _ \<Rightarrow> do {
                forEach (ords_up desiredReplicas prevReplicas) (\<lambda>i.
                  forEach (ords_up 0 desiredReplicas) (\<lambda>j. do {
                    _ \<leftarrow> LeaveNode S tok (pod_host c j) port (u64 (i + 1)); ret () }));
                ret True } } }))"

section \<open>What a scale-down leaves behind\<close>

definition isPodReady :: "pod \<Rightarrow> bool" where
  "isPodReady p = list_ex (\<lambda>(ty, st). ty = ''Ready'' \<and> st = ConditionTrue) (Pod_Conditions p)"

definition stuckDepartedPods :: "pod list \<Rightarrow> pod list" where
  "stuckDepartedPods pods =
     filter (\<lambda>p. \<not> (Meta_DeletionTimestamp (Pod_Meta p) \<noteq> None \<or> isPodReady p)) pods"

record stsReconcileResult =
  SR_SpecReplicas :: int
  SR_ReadyReplicas :: int
  SR_StatusReplicas :: int
  SR_Recreating :: bool

fun departed_pods :: "'w sys \<Rightarrow> HyperbytedbCluster \<Rightarrow> int list \<Rightarrow> ('w, pod list result) prog" where
  "departed_pods S c [] = ret (Inr [])"
| "departed_pods S c (i # is) = do {
     r \<leftarrow> Get KPod (api_pod S) (nn_of c (pod_name c i));
     case r of
       Inl e \<Rightarrow> if IsNotFound e then departed_pods S c is else ret (Inl e)
     | Inr p \<Rightarrow> attempt (departed_pods S c is) (\<lambda>ps. ret (Inr (p # ps))) }"

text \<open>The body of the deletion loop.\<close>

definition delete_departed :: "'w sys \<Rightarrow> pod \<Rightarrow> ('w, unit result) prog" where
  "delete_departed S p = do {
     r \<leftarrow> Delete KPod (api_pod S) p False;
     case ignoreNotFound r of
       Inl e \<Rightarrow> ret (Inl (WrapErr (''deleting departed pod '' @ Meta_Name (Pod_Meta p)) e))
     | Inr _ \<Rightarrow> do {
         RecordEvent ''Normal'' ''ScaleDown'' (''Deleted departed pod '' @ Meta_Name (Pod_Meta p)
           @ '' that blocked the StatefulSet scale-down'');
         ret (Inr ()) } }"

definition deleteStuckDepartedPods :: "'w sys \<Rightarrow> HyperbytedbCluster \<Rightarrow> stsReconcileResult \<Rightarrow> ('w, unit result) prog" where
  "deleteStuckDepartedPods S c sr =
     (if SR_StatusReplicas sr \<le> SR_SpecReplicas sr then ret (Inr ())
      else attempt (departed_pods S c (ords_up (SR_SpecReplicas sr) (SR_StatusReplicas sr))) (\<lambda>pods.
        forErr (stuckDepartedPods pods) (delete_departed S)))"

definition cleanup_pvc :: "'w sys \<Rightarrow> HyperbytedbCluster \<Rightarrow> int \<Rightarrow> ('w, unit result) prog" where
  "cleanup_pvc S c i = do {
     r \<leftarrow> Get KPvc (api_pvc S) (nn_of c (pvc_name c i));
     case r of
       Inl e \<Rightarrow>
         if IsNotFound e then ret (Inr ())
         else ret (Inl (WrapErr (''looking up PVC '' @ pvc_name c i) e))
     | Inr v \<Rightarrow> do {
         d \<leftarrow> Delete KPvc (api_pvc S) v False;
         ret (map_sum (WrapErr (''deleting PVC '' @ pvc_name c i)) id (ignoreNotFound d)) } }"

definition CleanupOrphanPVCs :: "'w sys \<Rightarrow> HyperbytedbCluster \<Rightarrow> int \<Rightarrow> int \<Rightarrow> ('w, unit result) prog" where
  "CleanupOrphanPVCs S c currentReplicas desiredReplicas =
     forErr (ords_up desiredReplicas currentReplicas) (cleanup_pvc S c)"

section \<open>The plan\<close>

definition gates :: "departingNode \<Rightarrow> bool" where
  "gates n \<longleftrightarrow> DN_reachable n \<and> DN_state n \<noteq> nodeStateLeaving"

definition untold :: "departingNode \<Rightarrow> bool" where
  "untold n \<longleftrightarrow> gates n \<and> DN_state n \<noteq> nodeStateDecommissioning"

lemma departingNodeAction_eq:
  "departingNodeAction (DN_state n) (DN_reachable n) = (untold n, gates n)"
  by (simp add: departingNodeAction_def gates_def untold_def nodeStateLeaving_def nodeStateDecommissioning_def)

lemma plan_from_Cons:
  "plan_from i (n # ns) together =
     (if gates n \<and> \<not> together then (if untold n then [i] else [], False)
      else ((if untold n then [i] else []) @ fst (plan_from (Suc i) ns together),
            \<not> gates n \<and> snd (plan_from (Suc i) ns together)))"
  by (simp add: departingNodeAction_eq Let_def case_prod_beta)

declare plan_from.simps(2) [simp del]

lemma plan_from_evacuated: "snd (plan_from i ns together) \<longleftrightarrow> (\<forall>n\<in>set ns. \<not> gates n)"
  by (induction ns arbitrary: i) (auto simp: plan_from_Cons)

lemma plan_from_together:
  "fst (plan_from i ns True) = map (\<lambda>k. i + k) (filter (\<lambda>k. untold (ns ! k)) [0..<length ns])"
proof (induction ns arbitrary: i)
  case (Cons n ns)
  have up: "[0..<length (n # ns)] = 0 # map Suc [0..<length ns]"
    by (simp only: list.size(4) add_0_right add_Suc_right map_Suc_upt) (simp add: upt_rec)
  show ?case
    unfolding up by (simp add: plan_from_Cons Cons.IH filter_map comp_def)
qed simp

lemma plan_from_sequential:
  "fst (plan_from i ns False) =
     (case find gates ns of
        Some n \<Rightarrow> if untold n then [i + length (takeWhile (\<lambda>n. \<not> gates n) ns)] else []
      | None \<Rightarrow> [])"
proof (induction ns arbitrary: i)
  case (Cons n ns)
  have "\<not> gates n \<Longrightarrow> \<not> untold n" by (simp add: untold_def)
  with Cons show ?case by (auto simp: plan_from_Cons split: option.splits)
qed simp

text \<open>Looking no further than the first node that still gates does not change the plan.\<close>

definition cut_survey :: "departingNode list \<Rightarrow> departingNode list" where
  "cut_survey ns = takeWhile (\<lambda>n. \<not> gates n) ns @ take 1 (dropWhile (\<lambda>n. \<not> gates n) ns)"

lemma plan_from_cut: "plan_from i (cut_survey ns) False = plan_from i ns False"
  by (induction ns arbitrary: i) (auto simp: cut_survey_def plan_from_Cons)

section \<open>What the hooks leave in the log\<close>

text \<open>
  \<open>released\<close>: a health check of the departing pod \<open>i\<close> that failed or reported \<^verbatim>\<open>leaving\<close>.
  \<open>removed\<close>: a remove-node call for its node id, at a pod of the cluster, that succeeded.
\<close>

definition health_check :: "HyperbytedbCluster \<Rightarrow> int \<Rightarrow> event \<Rightarrow> bool" where
  "health_check c i e \<longleftrightarrow> http_to MethodGet (endpoint (pod_host c i) (ServerPort c) ''/health'') None e"

definition released :: "HyperbytedbCluster \<Rightarrow> int \<Rightarrow> event \<Rightarrow> bool" where
  "released c i e \<longleftrightarrow> health_check c i e \<and>
     (case result_of health_of_response e of Inl _ \<Rightarrow> True | Inr h \<Rightarrow> HS_State h = ''leaving'')"

definition remove_request :: "HyperbytedbCluster \<Rightarrow> string \<Rightarrow> int \<Rightarrow> event \<Rightarrow> bool" where
  "remove_request c h node e \<longleftrightarrow>
     http_to MethodPost (endpoint h (ServerPort c) ''/cluster/membership/remove-node'') (Some (node_id_body node)) e"

definition remove_ok :: "event \<Rightarrow> bool" where
  "remove_ok e \<longleftrightarrow> isOk (result_of (changed_member ''membership/remove-node'' ''decoding remove-node response''
     set_RemoveNodeResponse zero_RemoveNodeResponse) e)"

definition removed :: "HyperbytedbCluster \<Rightarrow> int \<Rightarrow> int \<Rightarrow> event \<Rightarrow> bool" where
  "removed c prev i e \<longleftrightarrow> remove_ok e \<and> (\<exists>j\<in>{0..<prev}. remove_request c (pod_host c j) (u64 (i + 1)) e)"

lemma not_gates_released:
  "health_check c i e \<Longrightarrow> \<not> gates (departing_view (result_of health_of_response e)) \<Longrightarrow> released c i e"
  by (auto simp: released_def gates_def departing_view_def nodeStateLeaving_def split: sum.splits)

lemma survey_spec:
  assumes "run_state (survey S tok c together is) s = (found, t)"
  shows "\<exists>es. log t = log s @ es \<and> length es = length found \<and> length found \<le> length is \<and>
     (\<forall>k<length found. health_check c (is ! k) (es ! k) \<and>
        found ! k = (departing_view (result_of health_of_response (es ! k)), pod_host c (is ! k))) \<and>
     (length found < length is \<longrightarrow> \<not> together \<and> found \<noteq> [] \<and> gates (fst (last found)))"
  using assms
proof (induction "is" arbitrary: s found t)
  case (Cons i "is")
  obtain h u where h: "run_state (GetNodeHealth S tok (pod_host c i) (ServerPort c)) s = (h, u)" by (rule runE)
  obtain e where e: "log u = log s @ [e]" "health_check c i e" "h = result_of health_of_response e"
    using exchange_one [OF h [unfolded GetNodeHealth_def]] by (metis health_check_def)
  show ?case
  proof (cases "\<not> together \<and> gates (departing_view h)")
    case True
    then have "found = [(departing_view h, pod_host c i)]" "t = u"
      using Cons.prems h by (simp_all add: gates_def)
    with e True show ?thesis by (intro exI [of _ "[e]"]) simp
  next
    case False
    obtain rest v where rest: "run_state (survey S tok c together is) u = (rest, v)" by (rule runE)
    have found: "found = (departing_view h, pod_host c i) # rest" "t = v"
      using Cons.prems h rest False by (auto simp: gates_def)
    obtain es where es: "log v = log u @ es" "length es = length rest" "length rest \<le> length is"
      "\<forall>k<length rest. health_check c (is ! k) (es ! k) \<and>
         rest ! k = (departing_view (result_of health_of_response (es ! k)), pod_host c (is ! k))"
      "length rest < length is \<longrightarrow> \<not> together \<and> rest \<noteq> [] \<and> gates (fst (last rest))"
      using Cons.IH [OF rest] by blast
    have last: "length rest < length is \<longrightarrow> \<not> together \<and> gates (fst (last found))"
      using es(5) found(1) by auto
    show ?thesis
    proof (intro exI [of _ "e # es"] conjI allI impI)
      fix k assume "k < length found"
      then show "health_check c ((i # is) ! k) ((e # es) ! k)"
        and "found ! k = (departing_view (result_of health_of_response ((e # es) ! k)), pod_host c ((i # is) ! k))"
        using found es(4) e by (cases k; simp)+
    qed (use found es e last in auto)
  qed
qed simp

lemma ask_leader_host:
  "run_state (ask_leader S tok hosts port ids) s = (Inr h, t) \<Longrightarrow> h \<in> snd ` set hosts"
proof (induction ids arbitrary: s)
  case (Cons i ids)
  then show ?case
    by (auto split: prod.splits sum.splits option.splits dest: map_of_SomeD simp: image_iff)
       (metis map_of_SomeD snd_conv)?
qed simp

lemma emits_ask_leader:
  "(\<And>h e. h \<in> insert [] (snd ` set hosts) \<Longrightarrow> http_to MethodGet (endpoint h port ''/cluster/leader'') None e \<Longrightarrow> P e) \<Longrightarrow>
   emits P (ask_leader S tok hosts port ids)"
proof (induction ids)
  case (Cons i ids)
  have "deref [] (map_of hosts i) \<in> insert [] (snd ` set hosts)"
    by (auto simp: deref_def image_iff split: option.split dest: map_of_SomeD) (metis map_of_SomeD snd_conv)?
  with Cons.prems have "emits P (GetClusterLeader S tok (deref [] (map_of hosts i)) port)"
    by (intro emits_client) blast
  with Cons.IH [OF Cons.prems] show ?case by (auto intro!: emits_intro)
qed (simp add: emits_return)

lemma emits_removeDepartedVoters:
  assumes "\<And>h e. h \<in> insert [] (snd ` set hosts) \<Longrightarrow>
      http_to MethodGet (endpoint h port ''/cluster/leader'') None e \<Longrightarrow> P e"
    and "\<And>h i e. i \<in> set ids \<Longrightarrow>
      http_to MethodPost (endpoint h port ''/cluster/membership/remove-node'') (Some (node_id_body i)) e \<Longrightarrow> P e"
  shows "emits P (removeDepartedVoters S tok hosts port ids)"
  unfolding removeDepartedVoters_def raftLeaderHost_def
  by (intro emits_intro emits_ask_leader emits_client) (use assms in blast)+

lemma removeDepartedVoters_ok:
  assumes "run_state (removeDepartedVoters S tok hosts (ServerPort c) ids) s = (Inr (), t)"
  shows "\<exists>es. log t = log s @ es \<and>
     (\<forall>i\<in>set ids. \<exists>e\<in>set es. remove_ok e \<and> (\<exists>h\<in>snd ` set hosts. remove_request c h i e))"
  using assms
proof (induction ids arbitrary: s)
  case (Cons i ids)
  let ?rest = "removeDepartedVoters S tok hosts (ServerPort c) ids"
  obtain lh u where lh: "run_state (raftLeaderHost S tok hosts (ServerPort c)) s = (lh, u)" by (rule runE)
  with Cons.prems obtain h where h: "lh = Inr h"
    by (cases lh) (auto simp: removeDepartedVoters_def attempt_def)
  obtain r v where r: "run_state (RemoveClusterNode S tok h (ServerPort c) i) u = (r, v)" by (rule runE)
  from Cons.prems lh h r have ok: "isOk r" and rest: "run_state ?rest v = (Inr (), t)"
    by (cases r; simp add: removeDepartedVoters_def attempt_def)+
  obtain e where e: "log v = log u @ [e]" "remove_request c h i e" "remove_ok e"
    using exchange_one [OF r [unfolded RemoveClusterNode_def]] ok
    by (metis remove_request_def remove_ok_def)
  have mem: "h \<in> snd ` set hosts"
    using lh h ask_leader_host by (fastforce simp: raftLeaderHost_def)
  obtain l1 where l1: "log u = log s @ l1"
    using emitsD [OF emits_ask_leader [of hosts "ServerPort c" "\<lambda>_. True"] lh [unfolded raftLeaderHost_def]] by blast
  obtain es where es: "log t = log v @ es"
    "\<forall>i\<in>set ids. \<exists>e\<in>set es. remove_ok e \<and> (\<exists>h\<in>snd ` set hosts. remove_request c h i e)"
    using Cons.IH [OF rest] by blast
  show ?case
    by (rule exI [of _ "l1 @ e # es"]) (use l1 e es mem in auto)
qed (simp add: removeDepartedVoters_def)

text \<open>
  The hooks answer \<open>True\<close> for a real shrink only when the log shows, for every departing
  ordinal, first its release and later its removal from the Raft voters.
\<close>

definition departure_evidence :: "HyperbytedbCluster \<Rightarrow> int \<Rightarrow> int \<Rightarrow> event list \<Rightarrow> bool" where
  "departure_evidence c prev desired es \<longleftrightarrow>
     (\<exists>before after. es = before @ after \<and>
        (\<forall>i\<in>{desired..<prev}. \<exists>e\<in>set before. released c i e) \<and>
        (\<forall>i\<in>{desired..<prev}. \<exists>e\<in>set after. removed c prev i e))"

lemma departure_evidence_mono:
  "departure_evidence c prev desired es \<Longrightarrow> departure_evidence c prev desired (pre @ es @ post)"
proof -
  assume "departure_evidence c prev desired es"
  then obtain b a where *: "es = b @ a" "\<forall>i\<in>{desired..<prev}. \<exists>e\<in>set b. released c i e"
    "\<forall>i\<in>{desired..<prev}. \<exists>e\<in>set a. removed c prev i e" by (auto simp: departure_evidence_def)
  show ?thesis
    unfolding departure_evidence_def
    by (rule exI [of _ "pre @ b"], rule exI [of _ "a @ post"]) (use * in auto)
qed

lemma snd_node_hosts: "snd ` set (node_hosts c n) = pod_host c ` {0..<n}"
  by (simp add: node_hosts_def image_image)

lemma survey_released:
  assumes f: "run_state (survey S tok c together is) s = (found, t)"
    and ev: "snd (departurePlan (map fst found) together)"
  shows "\<exists>es. log t = log s @ es \<and> (\<forall>i\<in>set is. \<exists>e\<in>set es. released c i e)"
proof -
  obtain es where es: "log t = log s @ es" "length es = length found" "length found \<le> length is"
    "\<forall>k<length found. health_check c (is ! k) (es ! k) \<and>
       found ! k = (departing_view (result_of health_of_response (es ! k)), pod_host c (is ! k))"
    "length found < length is \<longrightarrow> \<not> together \<and> found \<noteq> [] \<and> gates (fst (last found))"
    using survey_spec [OF f] by blast
  have free: "\<forall>n\<in>fst ` set found. \<not> gates n"
    using ev plan_from_evacuated [of 0 "map fst found" together] by (simp add: departurePlan_def)
  then have len: "length found = length is"
    using es(3,5) by (metis imageI last_in_set le_neq_implies_less)
  have "\<exists>e\<in>set es. released c i e" if i: "i \<in> set is" for i
  proof -
    from i obtain k where k: "k < length is" "is ! k = i" by (metis in_set_conv_nth)
    then have "\<not> gates (fst (found ! k))" using free len by (metis imageI nth_mem)
    then have "released c i (es ! k)" using es(4) k len by (intro not_gates_released) auto
    then show ?thesis using k len es(2) by (metis nth_mem)
  qed
  with es(1) show ?thesis by blast
qed

lemma emits_tells:
  "emits (\<lambda>_. True) (forEach tell (\<lambda>k. do { _ \<leftarrow> DecommissionNode S tok (host k) port; ret () }))"
  "emits (\<lambda>_. True) (forEach is (\<lambda>i. forEach js (\<lambda>j. do { _ \<leftarrow> LeaveNode S tok (host j) port (ident i); ret () })))"
  by (intro emits_intro emits_client; simp)+

lemma hooks_evidence:
  assumes run: "run_state (runScaleDownClusterHooks S tok c prev desired) s = (True, t)"
    and shrink: "desired < prev" "1 \<le> prev"
  shows "\<exists>es. log t = log s @ es \<and> departure_evidence c prev desired es"
proof -
  let ?tg = "EvacuateTogether (sys_semver S) c" and ?is = "ords_down prev desired"
  obtain found u where f: "run_state (survey S tok c ?tg ?is) s = (found, u)" by (rule runE)
  obtain tell ev where plan: "departurePlan (map fst found) ?tg = (tell, ev)" by fastforce
  let ?say = "forEach tell (\<lambda>k. do { _ \<leftarrow> DecommissionNode S tok (snd (found ! k)) (ServerPort c); ret () })"
  obtain d v where v: "run_state ?say u = (d, v)" by (rule runE)
  let ?rem = "removeDepartedVoters S tok (node_hosts c prev) (ServerPort c) (map (\<lambda>i. u64 (i + 1)) ?is)"
  obtain r w where r: "run_state ?rem v = (r, w)" by (rule runE)
  let ?leave = "forEach (ords_up desired prev) (\<lambda>i. forEach (ords_up 0 desired) (\<lambda>j. do {
       _ \<leftarrow> LeaveNode S tok (pod_host c j) (ServerPort c) (u64 (i + 1)); ret () }))"
  obtain l x where leave: "run_state ?leave w = (l, x)" by (rule runE)
  have ev: ev and r': "r = Inr ()" and x: "x = t"
    using run shrink f plan v r leave
    by (auto simp: runScaleDownClusterHooks_def Let_def split: if_splits sum.splits)
  obtain es where es: "log u = log s @ es" "\<forall>i\<in>{desired..<prev}. \<exists>e\<in>set es. released c i e"
    using survey_released [OF f] plan ev by auto
  obtain ds where ds: "log v = log u @ ds" using emitsD [OF emits_tells(1) v] .
  obtain rs where rs: "log w = log v @ rs"
    "\<forall>i\<in>set (map (\<lambda>i. u64 (i + 1)) ?is). \<exists>e\<in>set rs. remove_ok e \<and> (\<exists>h\<in>snd ` set (node_hosts c prev). remove_request c h i e)"
    using removeDepartedVoters_ok [OF r [unfolded r']] by blast
  have rem: "\<forall>i\<in>{desired..<prev}. \<exists>e\<in>set rs. removed c prev i e"
    using rs(2) by (fastforce simp: removed_def snd_node_hosts)
  obtain ls where ls: "log t = log w @ ls" using emitsD [OF emits_tells(2) leave] x by blast
  have "departure_evidence c prev desired (es @ ds @ rs @ ls)"
    unfolding departure_evidence_def
    by (rule exI [of _ "es @ ds"], rule exI [of _ "rs @ ls"]) (use es(2) rem in auto)
  moreover have "log t = log s @ es @ ds @ rs @ ls" using es(1) ds rs(1) ls by simp
  ultimately show ?thesis by blast
qed

subsection \<open>Whom the hooks talk to\<close>

definition decommission_of :: "HyperbytedbCluster \<Rightarrow> string \<Rightarrow> event \<Rightarrow> bool" where
  "decommission_of c h e \<longleftrightarrow>
     http_to MethodPost (endpoint h (ServerPort c) ''/internal/decommission'') None e"

definition leave_of :: "HyperbytedbCluster \<Rightarrow> string \<Rightarrow> int \<Rightarrow> event \<Rightarrow> bool" where
  "leave_of c h node e \<longleftrightarrow>
     http_to MethodPost (endpoint h (ServerPort c) ''/internal/membership/leave'') (Some (node_id_body node)) e"

definition hook_request :: "HyperbytedbCluster \<Rightarrow> int \<Rightarrow> int \<Rightarrow> event \<Rightarrow> bool" where
  "hook_request c prev desired e \<longleftrightarrow>
     (\<exists>i\<in>{desired..<prev}. health_check c i e \<or> decommission_of c (pod_host c i) e) \<or>
     (\<exists>h. http_to MethodGet (endpoint h (ServerPort c) ''/cluster/leader'') None e) \<or>
     (\<exists>h. \<exists>i\<in>{desired..<prev}. remove_request c h (u64 (i + 1)) e) \<or>
     (\<exists>i\<in>{desired..<prev}. \<exists>j\<in>{0..<desired}. leave_of c (pod_host c j) (u64 (i + 1)) e)"

lemma plan_indices: "k \<in> set (fst (departurePlan ns together)) \<Longrightarrow> k < length ns \<and> untold (ns ! k)"
proof -
  have "k \<in> set (fst (plan_from i ns together)) \<Longrightarrow> i \<le> k \<and> k - i < length ns \<and> untold (ns ! (k - i))" for i
  proof (induction ns arbitrary: i)
    case (Cons n ns)
    then have "k = i \<and> untold n \<or> k \<in> set (fst (plan_from (Suc i) ns together))"
      by (auto simp: plan_from_Cons split: if_splits)
    with Cons.IH [of "Suc i"] show ?case by (auto simp: Suc_diff_le nth_Cons')
  qed simp
  then show "k \<in> set (fst (departurePlan ns together)) \<Longrightarrow> k < length ns \<and> untold (ns ! k)"
    by (metis departurePlan_def diff_zero)
qed

lemma hooks_requests:
  assumes run: "run_state (runScaleDownClusterHooks S tok c prev desired) s = (b, t)"
  shows "\<exists>es. log t = log s @ es \<and> list_all (hook_request c prev desired) es"
proof (cases "desired \<ge> prev \<or> prev < 1")
  case True
  with run show ?thesis by (auto simp: runScaleDownClusterHooks_def)
next
  case False
  let ?P = "hook_request c prev desired"
  let ?tg = "EvacuateTogether (sys_semver S) c" and ?is = "ords_down prev desired"
  obtain found u where f: "run_state (survey S tok c ?tg ?is) s = (found, u)" by (rule runE)
  obtain es where es: "log u = log s @ es" "length es = length found" "length found \<le> length ?is"
    "\<forall>k<length found. health_check c (?is ! k) (es ! k) \<and>
       found ! k = (departing_view (result_of health_of_response (es ! k)), pod_host c (?is ! k))"
    using survey_spec [OF f] by blast
  have mem: "?is ! k \<in> {desired..<prev}" if "k < length found" for k
    using that es(3) by (metis set_ords(2) nth_mem order_less_le_trans)
  have asked: "list_all ?P es"
    unfolding list_all_length using es(2,4) mem by (metis hook_request_def)
  define tell ev where "tell = fst (departurePlan (map fst found) ?tg)" and "ev = snd (departurePlan (map fst found) ?tg)"
  have host: "snd (found ! k) \<in> pod_host c ` {desired..<prev}" if "k \<in> set tell" for k
    using plan_indices [of k "map fst found" ?tg] that es(4) mem by (auto simp: tell_def)
  let ?rest = "do {
      forEach tell (\<lambda>k. do { _ \<leftarrow> DecommissionNode S tok (snd (found ! k)) (ServerPort c); ret () });
      if \<not> ev then ret False
      else do {
        r \<leftarrow> removeDepartedVoters S tok (node_hosts c prev) (ServerPort c) (map (\<lambda>i. u64 (i + 1)) ?is);
        case r of
          Inl _ \<Rightarrow> ret False
        | Inr _ \<Rightarrow> do {
            forEach (ords_up desired prev) (\<lambda>i. forEach (ords_up 0 desired) (\<lambda>j. do {
              _ \<leftarrow> LeaveNode S tok (pod_host c j) (ServerPort c) (u64 (i + 1)); ret () }));
            ret True } } }"
  have "emits ?P ?rest"
    by (intro emits_intro emits_client emits_removeDepartedVoters)
       (use host in \<open>fastforce simp: hook_request_def decommission_of_def remove_request_def leave_of_def\<close>)+
  moreover have "run_state ?rest u = (b, t)"
    using run False f by (simp add: runScaleDownClusterHooks_def tell_def ev_def Let_def case_prod_beta)
  ultimately obtain fs where "log t = log u @ fs" "list_all ?P fs" by (rule emitsD)
  with es(1) asked show ?thesis by (intro exI [of _ "es @ fs"]) simp
qed

lemma endpoint_inj [simp]: "endpoint h p path = endpoint h' p path \<longleftrightarrow> h = h'"
  by (simp add: endpoint_def)

lemma endpoint_paths:
  "endpoint h p ''/internal/decommission'' \<noteq> endpoint h' p ''/cluster/membership/remove-node''"
  "endpoint h p ''/internal/decommission'' \<noteq> endpoint h' p ''/internal/membership/leave''"
  "endpoint h p ''/cluster/membership/remove-node'' \<noteq> endpoint h' p ''/internal/membership/leave''"
  by (rule notI, drule arg_cong [where f = rev], simp add: endpoint_def)+

lemma http_to_unique:
  "http_to m u b e \<Longrightarrow> http_to m' u' b' e \<Longrightarrow> m = m' \<and> u = u'"
  by (cases e) auto

lemma hook_request_decommission:
  assumes "hook_request c prev desired e" "decommission_of c h e"
  shows "h \<in> pod_host c ` {desired..<prev}"
proof -
  have u: "http_to m' u' b' e \<Longrightarrow> m' = MethodPost \<and> u' = endpoint h (ServerPort c) ''/internal/decommission''" for m' u' b'
    using assms(2) http_to_unique unfolding decommission_of_def by blast
  show ?thesis
    using assms(1) endpoint_paths [THEN not_sym]
    unfolding hook_request_def decommission_of_def health_check_def remove_request_def leave_of_def
    by (auto dest!: u)
qed

lemma hook_request_leave:
  assumes "hook_request c prev desired e" "leave_of c h n e"
  shows "h \<in> pod_host c ` {0..<desired}"
proof -
  have u: "http_to m' u' b' e \<Longrightarrow> m' = MethodPost \<and> u' = endpoint h (ServerPort c) ''/internal/membership/leave''" for m' u' b'
    using assms(2) http_to_unique unfolding leave_of_def by blast
  show ?thesis
    using assms(1) endpoint_paths
    unfolding hook_request_def decommission_of_def health_check_def remove_request_def leave_of_def
    by (auto dest!: u)
qed

section \<open>Deletions after a shrink\<close>

text \<open>
  \<open>justified\<close>: whatever the events delete was read before under a name that \<open>ok\<close> allows, and
  had the property \<open>ok\<close> asks of it.
\<close>

definition justified :: "(nn \<Rightarrow> kobj \<Rightarrow> bool) \<Rightarrow> event list \<Rightarrow> bool" where
  "justified ok es \<longleftrightarrow>
     (\<forall>obj orphan r. EvDelete obj orphan r \<in> set es \<longrightarrow> (\<exists>k. EvGet k (Inr obj) \<in> set es \<and> ok k obj))"

lemma justified_Nil [simp]: "justified ok []"
  by (simp add: justified_def)

lemma justified_quiet:
  "justified ok es \<Longrightarrow> list_all (\<lambda>e. \<nexists>obj orphan r. e = EvDelete obj orphan r) fs \<Longrightarrow> justified ok (es @ fs)"
  unfolding justified_def list_all_iff by (metis Un_iff set_append)

lemma justified_snoc:
  "justified ok es \<Longrightarrow> EvGet k (Inr obj) \<in> set es \<Longrightarrow> ok k obj \<Longrightarrow> justified ok (es @ [EvDelete obj orphan r])"
  unfolding justified_def by auto

definition orphan_pvc :: "HyperbytedbCluster \<Rightarrow> int \<Rightarrow> int \<Rightarrow> nn \<Rightarrow> kobj \<Rightarrow> bool" where
  "orphan_pvc c lo hi k obj \<longleftrightarrow> (\<exists>i\<in>{lo..<hi}. k = nn_of c (pvc_name c i)) \<and> (\<exists>v. obj = KPvc v)"

lemma CleanupOrphanPVCs_justified:
  "keeps (since l (justified (orphan_pvc c desired current))) (CleanupOrphanPVCs S c current desired)"
  unfolding CleanupOrphanPVCs_def
proof (rule keeps_forErr, rule keepsI)
  fix i s a t
  let ?J = "justified (orphan_pvc c desired current)"
  assume i: "i \<in> set (ords_up desired current)" and J: "since l ?J s"
    and run: "run_state (cleanup_pvc S c i) s = (a, t)"
  obtain r u where g: "run_state (Get KPvc (api_pvc S) (nn_of c (pvc_name c i))) s = (r, u)" by (rule runE)
  obtain es where es: "log s = l @ es" "?J es" using J by (auto simp: since_def)
  have lu: "log u = l @ es @ [EvGet (nn_of c (pvc_name c i)) (map_sum id KPvc r)]" and Ju: "?J (es @ [EvGet (nn_of c (pvc_name c i)) (map_sum id KPvc r)])"
    using run_Get [OF g] es by (simp_all add: justified_quiet)
  show "since l ?J t"
  proof (cases r)
    case (Inl e)
    with run g have "t = u" by (auto simp: cleanup_pvc_def split: if_splits)
    with lu Ju show ?thesis by (auto simp: since_def)
  next
    case (Inr v)
    obtain d w where d: "run_state (Delete KPvc (api_pvc S) v False) u = (d, w)" by (rule runE)
    with run g Inr have "t = w" by (simp add: cleanup_pvc_def)
    moreover have "?J ((es @ [EvGet (nn_of c (pvc_name c i)) (map_sum id KPvc r)]) @ [EvDelete (KPvc v) False (err_of d)])"
      by (rule justified_snoc [OF Ju, of "nn_of c (pvc_name c i)"])
         (use Inr i in \<open>auto simp: orphan_pvc_def\<close>)
    ultimately show ?thesis using run_Delete [OF d] lu by (auto simp: since_def)
  qed
qed

definition stuck_pod :: "HyperbytedbCluster \<Rightarrow> int \<Rightarrow> int \<Rightarrow> nn \<Rightarrow> kobj \<Rightarrow> bool" where
  "stuck_pod c lo hi k obj \<longleftrightarrow> (\<exists>i\<in>{lo..<hi}. k = nn_of c (pod_name c i)) \<and>
     (\<exists>p. obj = KPod p \<and> \<not> isPodReady p \<and> Meta_DeletionTimestamp (Pod_Meta p) = None)"

lemma departed_pods_spec:
  "run_state (departed_pods S c is) s = (r, t) \<Longrightarrow>
   \<exists>es. log t = log s @ es \<and> list_all (\<lambda>e. \<nexists>obj orphan r. e = EvDelete obj orphan r) es \<and>
     (\<forall>ps. r = Inr ps \<longrightarrow> (\<forall>p\<in>set ps. \<exists>i\<in>set is. EvGet (nn_of c (pod_name c i)) (Inr (KPod p)) \<in> set es))"
proof (induction "is" arbitrary: s r)
  case (Cons i "is")
  obtain g u where g: "run_state (Get KPod (api_pod S) (nn_of c (pod_name c i))) s = (g, u)" by (rule runE)
  have lu: "log u = log s @ [EvGet (nn_of c (pod_name c i)) (map_sum id KPod g)]" by (rule run_Get [OF g])
  obtain q v where q: "run_state (departed_pods S c is) u = (q, v)" by (rule runE)
  show ?case
  proof (cases "\<exists>e. g = Inl e \<and> \<not> IsNotFound e")
    case True
    with Cons.prems g have "t = u" "\<forall>ps. r \<noteq> Inr ps" by auto
    with lu show ?thesis by simp
  next
    case False
    have t: "t = v" and r: "\<And>ps. r = Inr ps \<Longrightarrow> \<exists>qs. q = Inr qs \<and> (\<forall>p\<in>set ps. p \<in> set qs \<or> g = Inr p)"
      using Cons.prems g q False by (auto simp: attempt_def split: sum.splits if_splits)
    obtain es where es: "log v = log u @ es" "list_all (\<lambda>e. \<nexists>obj orphan r. e = EvDelete obj orphan r) es"
      "\<forall>ps. q = Inr ps \<longrightarrow> (\<forall>p\<in>set ps. \<exists>i\<in>set is. EvGet (nn_of c (pod_name c i)) (Inr (KPod p)) \<in> set es)"
      using Cons.IH [of u q] q t by blast
    show ?thesis
      by (rule exI [of _ "EvGet (nn_of c (pod_name c i)) (map_sum id KPod g) # es"])
         (use lu es t r in \<open>fastforce simp: map_sum_def split: sum.splits\<close>)
  qed
qed simp

lemma deleteStuckDepartedPods_justified:
  assumes "run_state (deleteStuckDepartedPods S c sr) s = (a, t)"
  shows "since (log s) (justified (stuck_pod c (SR_SpecReplicas sr) (SR_StatusReplicas sr))) t"
proof (cases "SR_StatusReplicas sr \<le> SR_SpecReplicas sr")
  case True
  with assms show ?thesis by (simp add: deleteStuckDepartedPods_def since_start)
next
  case False
  let ?is = "ords_up (SR_SpecReplicas sr) (SR_StatusReplicas sr)"
  obtain q u where q: "run_state (departed_pods S c ?is) s = (q, u)" by (rule runE)
  obtain es where es: "log u = log s @ es" "list_all (\<lambda>e. \<nexists>obj orphan r. e = EvDelete obj orphan r) es"
    "\<And>ps p. q = Inr ps \<Longrightarrow> p \<in> set ps \<Longrightarrow> \<exists>i\<in>set ?is. EvGet (nn_of c (pod_name c i)) (Inr (KPod p)) \<in> set es"
    using departed_pods_spec [OF q] by blast
  show ?thesis
  proof (cases q)
    case (Inl e)
    with assms False q have "t = u" by (simp add: deleteStuckDepartedPods_def attempt_def)
    with es(1) justified_quiet [OF justified_Nil es(2)] show ?thesis by (auto simp: since_def)
  next
    case (Inr ps)
    with assms False q have rest: "run_state (forErr (stuckDepartedPods ps) (delete_departed S)) u = (a, t)"
      by (simp add: deleteStuckDepartedPods_def attempt_def)
    let ?P = "\<lambda>e. \<forall>obj orphan r. e = EvDelete obj orphan r \<longrightarrow> (\<exists>p\<in>set (stuckDepartedPods ps). obj = KPod p)"
    have "emits ?P (forErr (stuckDepartedPods ps) (delete_departed S))" 
      unfolding delete_departed_def by (intro emits_intro) auto
    then obtain fs where fs: "log t = log u @ fs" "list_all ?P fs" using rest by (rule emitsD)
    have "justified (stuck_pod c (SR_SpecReplicas sr) (SR_StatusReplicas sr)) (es @ fs)"
      unfolding justified_def
    proof (intro allI impI)
      fix obj orphan r assume "EvDelete obj orphan r \<in> set (es @ fs)"
      then obtain p where p: "p \<in> set (stuckDepartedPods ps)" "obj = KPod p"
        using es(2) fs(2) unfolding list_all_iff by (metis Un_iff set_append)
      then obtain i where "i \<in> set ?is" "EvGet (nn_of c (pod_name c i)) (Inr (KPod p)) \<in> set es"
        using es(3) [OF Inr] unfolding stuckDepartedPods_def by (metis filter_is_subset subsetD)
      with p show "\<exists>k. EvGet k (Inr obj) \<in> set (es @ fs) \<and>
          stuck_pod c (SR_SpecReplicas sr) (SR_StatusReplicas sr) k obj"
        by (intro exI [of _ "nn_of c (pod_name c i)"]) (auto simp: stuck_pod_def stuckDepartedPods_def)
    qed
    with es(1) fs(1) show ?thesis by (auto simp: since_def)
  qed
qed

section \<open>Properties\<close>

text \<open>
  C16. The departure plan. The nodes count as evacuated exactly when no reachable node is in
  a state other than \<^verbatim>\<open>leaving\<close>; together, every node not yet told is told at once; one at a
  time, at most the first node still holding data is told, and only if it was not told
  before. Breaking off the health checks at that node, as the hooks do, gives the same plan
  as asking all nodes.
\<close>

theorem departurePlan_spec:
  "(snd (departurePlan ns together) \<longleftrightarrow> \<not> list_ex (\<lambda>n. DN_reachable n \<and> DN_state n \<noteq> ''leaving'') ns) \<and>
   fst (departurePlan ns True) = filter (\<lambda>k. untold (ns ! k)) [0..<length ns] \<and>
   fst (departurePlan ns False) =
     (case find gates ns of
        Some n \<Rightarrow> if untold n then [length (takeWhile (\<lambda>n. \<not> gates n) ns)] else []
      | None \<Rightarrow> []) \<and>
   departurePlan (cut_survey ns) False = departurePlan ns False"
proof -
  have "fst (departurePlan ns False) =
     (case find gates ns of
        Some n \<Rightarrow> if untold n then [length (takeWhile (\<lambda>n. \<not> gates n) ns)] else []
      | None \<Rightarrow> [])"
    unfolding departurePlan_def plan_from_sequential add_0 ..
  then show ?thesis
    by (auto simp: departurePlan_def plan_from_evacuated plan_from_together plan_from_cut list_all_iff list_ex_iff
        gates_def nodeStateLeaving_def)
qed

text \<open>
  C2. The scale-down gate. When the hooks let a shrink proceed, then for every departing
  ordinal the requests of that pass contain a health check that failed or reported \<^verbatim>\<open>leaving\<close>,
  and after all of those a successful remove-node for its Raft id, sent to a pod of the
  cluster. Nothing about the nodes' answers is assumed.
\<close>

theorem runScaleDownClusterHooks_gate:
  assumes "run_state (runScaleDownClusterHooks S tok c prev desired) s = (True, t)"
    and "desired < prev" "1 \<le> prev"
  shows "\<exists>es. log t = log s @ es \<and> departure_evidence c prev desired es"
  using assms by (rule hooks_evidence)

definition shrink_example :: HyperbytedbCluster where
  "shrink_example = new_cluster ''t'' ''p''"

definition leaving_http :: "(string \<times> http_resp) list" where
  "leaving_http =
    [(endpoint (pod_host shrink_example 1) 8086 ''/health'', ok_json [(''state'', json_string ''leaving'')]),
     (endpoint (pod_host shrink_example 0) 8086 ''/cluster/leader'', ok_json [(''leader_id'', dec 1)]),
     (endpoint (pod_host shrink_example 0) 8086 ''/cluster/membership/remove-node'', ok_json [(''node_id'', dec 2)])]"

definition plain_semver :: semver where
  "plain_semver = \<lparr> sv_valid = (\<lambda>_. False), sv_compare = (\<lambda>_ _. 0) \<rparr>"

theorem runScaleDownClusterHooks_gate_witness:
  "\<exists>t. run_state (runScaleDownClusterHooks (sim_sys plain_semver) [] shrink_example 2 1)
          (start (sim_empty\<lparr> sim_http := leaving_http \<rparr>)) = (True, t) \<and>
       departure_evidence shrink_example 2 1 (log t)"
proof -
  let ?run = "run_state (runScaleDownClusterHooks (sim_sys plain_semver) [] shrink_example 2 1)
      (start (sim_empty\<lparr> sim_http := leaving_http \<rparr>))"
  have "fst ?run" by code_simp
  then have "?run = (True, snd ?run)" by (metis (full_types) prod.collapse)
  from runScaleDownClusterHooks_gate [OF this] this show ?thesis by (auto simp: start_def)
qed

text \<open>
  C11. A pass of the hooks decommissions only pods that are leaving (ordinals from the desired
  count up) and reports departed nodes only to pods that stay; it sends no other kind of
  request than health checks of departing pods, leader queries and remove-node calls for
  departing ids.
\<close>

theorem runScaleDownClusterHooks_targets:
  "\<exists>es. log (snd (run_state (runScaleDownClusterHooks S tok c prev desired) s)) = log s @ es \<and>
     list_all (hook_request c prev desired) es \<and>
     (\<forall>e\<in>set es. \<forall>h. decommission_of c h e \<longrightarrow> h \<in> pod_host c ` {desired..<prev}) \<and>
     (\<forall>e\<in>set es. \<forall>h n. leave_of c h n e \<longrightarrow> h \<in> pod_host c ` {0..<desired})"
proof -
  obtain b t where run: "run_state (runScaleDownClusterHooks S tok c prev desired) s = (b, t)" by (rule runE)
  then obtain es where "log t = log s @ es" "list_all (hook_request c prev desired) es"
    using hooks_requests by blast
  with run show ?thesis
    using hook_request_decommission hook_request_leave by (fastforce simp: list_all_iff)
qed

text \<open>Pod 1 still holds data: the pass tells it to decommission, and tells nobody else.\<close>

theorem runScaleDownClusterHooks_targets_witness:
  "\<exists>es. log (snd (run_state (runScaleDownClusterHooks (sim_sys plain_semver) [] shrink_example 2 1)
          (start (sim_empty\<lparr> sim_http :=
            [(endpoint (pod_host shrink_example 1) 8086 ''/health'', ok_json [(''state'', json_string ''active'')])] \<rparr>))))
        = es \<and> list_ex (decommission_of shrink_example (pod_host shrink_example 1)) es \<and>
        (\<forall>e\<in>set es. \<forall>h. decommission_of shrink_example h e \<longrightarrow> h = pod_host shrink_example 1)"
proof -
  let ?l = "log (snd (run_state (runScaleDownClusterHooks (sim_sys plain_semver) [] shrink_example 2 1)
          (start (sim_empty\<lparr> sim_http :=
            [(endpoint (pod_host shrink_example 1) 8086 ''/health'', ok_json [(''state'', json_string ''active'')])] \<rparr>))))"
  have "list_ex (decommission_of shrink_example (pod_host shrink_example 1)) ?l" by code_simp
  moreover have one: "{1..<2} = {1::int}" by auto
  ultimately show ?thesis
    using runScaleDownClusterHooks_targets [of "sim_sys plain_semver" "[]" shrink_example 2 1 "start (sim_empty\<lparr> sim_http :=
            [(endpoint (pod_host shrink_example 1) 8086 ''/health'', ok_json [(''state'', json_string ''active'')])] \<rparr>)"]
    unfolding one by (auto simp: start_def)
qed

text \<open>
  C15. What a finished scale-down deletes. The pods deleted to unblock the StatefulSet were
  read in the same pass under an ordinal at or above the spec's replica count, are not ready
  and not already terminating; the volume claims deleted were read under the claim name of a
  departed ordinal. Nothing else is deleted by either function.
\<close>

theorem scale_down_deletions:
  "since (log s) (justified (stuck_pod c (SR_SpecReplicas sr) (SR_StatusReplicas sr)))
     (snd (run_state (deleteStuckDepartedPods S c sr) s)) \<and>
   since (log s) (justified (orphan_pvc c desired current))
     (snd (run_state (CleanupOrphanPVCs S c current desired) s))"
proof
  show "since (log s) (justified (stuck_pod c (SR_SpecReplicas sr) (SR_StatusReplicas sr)))
     (snd (run_state (deleteStuckDepartedPods S c sr) s))"
    using deleteStuckDepartedPods_justified by (metis prod.collapse)
  show "since (log s) (justified (orphan_pvc c desired current))
     (snd (run_state (CleanupOrphanPVCs S c current desired) s))"
    using CleanupOrphanPVCs_justified since_start [of "justified (orphan_pvc c desired current)" s, OF justified_Nil]
    unfolding keeps_def by blast
qed

end
