(* ===== verification/Rolling_Restart.thy ===== *)
theory Rolling_Restart
  imports Scale_Down
begin

text \<open>
  Operator-driven rolling restarts, from \<^verbatim>\<open>hyperbytedbcluster_controller.go\<close>: the StatefulSet
  partition that pins the pods, the per-pod phases exclude, drain, release, wait, and the
  calls to the proxies. The functions that mutate the in-memory cluster return it; their
  result is an error, or whether Reconcile returns now (and after how long it is called
  again). The state machine of the phases and its interplay with the StatefulSet controller
  are at the end.
\<close>

section \<open>The partition\<close>

definition second :: int where "second = 1000000000"
definition proxyCallTimeout :: int where "proxyCallTimeout = 120 * second"
definition podRestartAllowance :: int where "podRestartAllowance = 600 * second"

definition rolloutPartition :: "HyperbytedbCluster \<Rightarrow> int \<Rightarrow> int" where
  "rolloutPartition c replicas =
     (case Status_RollingRestart (Status c) of
        None \<Rightarrow> replicas
      | Some st \<Rightarrow>
          (case RR_Phase st of
             RollingRestartCompleted \<Rightarrow> 0
           | RollingRestartWaitingReady \<Rightarrow> RR_CurrentOrdinal st
           | _ \<Rightarrow> i32 (RR_CurrentOrdinal st + 1)))"

definition releaseOrdinal :: "'w sys \<Rightarrow> HyperbytedbCluster \<Rightarrow> int \<Rightarrow> ('w, unit result) prog" where
  "releaseOrdinal S c ordinal =
     attempt (Get KSts (api_sts S) (nn_of c (StatefulSetName c))) (\<lambda>s.
       case Sts_RollingUpdate s of
         Some ru \<Rightarrow>
           (case RU_Partition ru of
              Some p \<Rightarrow>
                if p \<le> ordinal then ret (Inr ())
                else void (Patch KSts (api_sts S) s (s\<lparr> Sts_RollingUpdate := Some (ru\<lparr> RU_Partition := Some ordinal \<rparr>) \<rparr>))
            | None \<Rightarrow>
                void (Patch KSts (api_sts S) s (s\<lparr> Sts_RollingUpdate := Some (ru\<lparr> RU_Partition := Some ordinal \<rparr>) \<rparr>)))
       | None \<Rightarrow>
           void (Patch KSts (api_sts S) s (s\<lparr> Sts_RollingUpdate := Some \<lparr> RU_Partition = Some ordinal \<rparr> \<rparr>)))"

section \<open>The proxies\<close>

definition proxyRunning :: "pod \<Rightarrow> bool" where
  "proxyRunning p =
     (if Pod_IP p = [] \<or> Meta_DeletionTimestamp (Pod_Meta p) \<noteq> None then False
      else (case find (\<lambda>(n, _). n = ''proxy'') (Pod_ContainerStatuses p) of
              Some (_, running) \<Rightarrow> running
            | None \<Rightarrow> False))"

definition forEachRunningProxy ::
  "'w sys \<Rightarrow> HyperbytedbCluster \<Rightarrow> (pod \<Rightarrow> ('w, unit result) prog) \<Rightarrow> ('w, unit result) prog" where
  "forEachRunningProxy S c sendTo = do {
     r \<leftarrow> ListObjs KPod (api_pod S) (Namespace c) (proxyLabels c);
     case r of
       Inl e \<Rightarrow> ret (Inl (WrapErr ''listing proxy pods'' e))
     | Inr pods \<Rightarrow>
         forErr pods (\<lambda>p.
           if \<not> proxyRunning p then ret (Inr ())
           else do {
             x \<leftarrow> sendTo p;
             ret (map_sum (WrapErr (''proxy pod '' @ Meta_Name (Pod_Meta p))) id x) }) }"

definition excludeFromAllProxies ::
  "'w sys \<Rightarrow> string \<Rightarrow> HyperbytedbCluster \<Rightarrow> string \<Rightarrow> int \<Rightarrow> ('w, unit result) prog" where
  "excludeFromAllProxies S tok c backendIP adminPort =
     forEachRunningProxy S c (\<lambda>p. ExcludeProxyBackend S tok (Pod_IP p) adminPort backendIP)"

definition includeFromAllProxies ::
  "'w sys \<Rightarrow> string \<Rightarrow> HyperbytedbCluster \<Rightarrow> string \<Rightarrow> int \<Rightarrow> ('w, unit result) prog" where
  "includeFromAllProxies S tok c backendIP adminPort =
     forEachRunningProxy S c (\<lambda>p. IncludeProxyBackend S tok (Pod_IP p) adminPort backendIP)"

section \<open>The phases\<close>

definition put_rr :: "RollingRestartState option \<Rightarrow> HyperbytedbCluster \<Rightarrow> HyperbytedbCluster" where
  "put_rr st c = c\<lparr> Status := (Status c)\<lparr> Status_RollingRestart := st \<rparr> \<rparr>"

text \<open>The answer of a phase: \<open>None\<close> is \<^verbatim>\<open>nil, nil\<close>, \<open>Some d\<close> is \<^verbatim>\<open>&ctrl.Result{RequeueAfter: d}\<close>.\<close>

type_synonym 'w phase = "('w, HyperbytedbCluster \<times> int option result) prog"

text \<open>
  \<^verbatim>\<open>if err := r.Status().Update(ctx, cluster); err != nil { return nil, err }\<close>, then the given
  answer; on success the cluster is what the server returned.
\<close>

definition commit :: "'w sys \<Rightarrow> HyperbytedbCluster \<Rightarrow> int option \<Rightarrow> 'w phase" where
  "commit S c reply = do {
     r \<leftarrow> StatusUpdate KCluster (api_cluster S) c;
     case r of
       Inl e \<Rightarrow> ret (c, Inl e)
     | Inr c' \<Rightarrow> ret (c', Inr reply) }"

definition rollingRestartRelease ::
  "'w sys \<Rightarrow> HyperbytedbCluster \<Rightarrow> RollingRestartState \<Rightarrow> int \<Rightarrow> 'w phase" where
  "rollingRestartRelease S c st requeue = do {
     r \<leftarrow> releaseOrdinal S c (RR_CurrentOrdinal st);
     case r of
       Inl e \<Rightarrow> ret (put_rr (Some st) c,
                Inl (WrapErr (''releasing ordinal '' @ dec (RR_CurrentOrdinal st) @ '' for rolling restart'') e))
     | Inr _ \<Rightarrow> do {
         now \<leftarrow> Now S;
         commit S (put_rr (Some (st\<lparr> RR_Phase := RollingRestartWaitingReady, RR_PhaseStartedAt := now \<rparr>)) c)
           (Some requeue) } }"

definition revisionLabel :: string where "revisionLabel = ''controller-revision-hash''"

text \<open>What follows the call to the proxies, \<open>st\<close> already holding the pod's IP.\<close>

definition excluding_outcome ::
  "'w sys \<Rightarrow> HyperbytedbCluster \<Rightarrow> RollingRestartState \<Rightarrow> string \<Rightarrow> int \<Rightarrow> unit result \<Rightarrow> 'w phase" where
  "excluding_outcome S c st podName requeue x =
    (case x of
       Inl e \<Rightarrow> do {
         now \<leftarrow> Now S;
         if now - RR_PhaseStartedAt st < proxyCallTimeout
         then ret (put_rr (Some st) c, Inr (Some requeue))
         else do {
           RecordEvent ''Warning'' ''BackendExcludeFailed'' (''Restarting pod '' @ podName
             @ '' without excluding it from the proxy: '' @ err_text e);
           at \<leftarrow> Now S;
           commit S (put_rr (Some (st\<lparr> RR_Phase := RollingRestartDraining, RR_PhaseStartedAt := at \<rparr>)) c)
             (Some requeue) } }
     | Inr _ \<Rightarrow> do {
         RecordEvent ''Normal'' ''BackendExcluded'' (''Excluded pod '' @ podName @ '' ('' @ RR_OldPodIP st
           @ '') from proxy routing'');
         at \<leftarrow> Now S;
         commit S (put_rr (Some (st\<lparr> RR_ExcludeConfirmed := True, RR_Phase := RollingRestartDraining,
                                     RR_PhaseStartedAt := at \<rparr>)) c) (Some requeue) })"

definition rollingRestartExcluding ::
  "'w sys \<Rightarrow> string \<Rightarrow> HyperbytedbCluster \<Rightarrow> RollingRestartState \<Rightarrow> string \<Rightarrow> string \<Rightarrow> int \<Rightarrow> int \<Rightarrow> 'w phase" where
  "rollingRestartExcluding S tok c st podName updateRevision adminPort requeue = do {
     r \<leftarrow> Get KPod (api_pod S) (nn_of c podName);
     case r of
       Inl e \<Rightarrow> if IsNotFound e then rollingRestartRelease S c st requeue else ret (c, Inl e)
     | Inr p \<Rightarrow>
         if updateRevision \<noteq> [] \<and> mget (Meta_Labels (Pod_Meta p)) revisionLabel = updateRevision
         then rollingRestartRelease S c st requeue
         else if Pod_IP p = [] then ret (c, Inr (Some requeue))
         else do {
           x \<leftarrow> excludeFromAllProxies S tok c (Pod_IP p) adminPort;
           excluding_outcome S c (st\<lparr> RR_OldPodIP := Pod_IP p \<rparr>) podName requeue x } }"

definition drainWait :: "HyperbytedbCluster \<Rightarrow> int" where
  "drainWait c =
     (let w = Tune_DrainWaitSecs (Spec_Cluster (Spec c)) * second in if w \<le> 0 then 10 * second else w)"

definition rollingRestartDraining ::
  "'w sys \<Rightarrow> HyperbytedbCluster \<Rightarrow> RollingRestartState \<Rightarrow> string \<Rightarrow> int \<Rightarrow> 'w phase" where
  "rollingRestartDraining S c st podName requeue = do {
     now \<leftarrow> Now S;
     let elapsed = now - RR_PhaseStartedAt st;
     if elapsed < drainWait c
     then ret (c, Inr (Some (drainWait c - elapsed + second)))
     else do {
       RecordEvent ''Normal'' ''PodRestarted'' (''Released pod '' @ podName @ '' for rolling upgrade'');
       rollingRestartRelease S c st requeue } }"

definition rollingRestartWaitingReady ::
  "'w sys \<Rightarrow> string \<Rightarrow> HyperbytedbCluster \<Rightarrow> RollingRestartState \<Rightarrow> string \<Rightarrow> string \<Rightarrow> int \<Rightarrow> int \<Rightarrow> 'w phase" where
  "rollingRestartWaitingReady S tok c st podName updateRevision adminPort requeue = do {
     r \<leftarrow> Get KPod (api_pod S) (nn_of c podName);
     case r of
       Inl e \<Rightarrow> if IsNotFound e then ret (c, Inr (Some requeue)) else ret (c, Inl e)
     | Inr p \<Rightarrow>
         if updateRevision \<noteq> [] \<and> mget (Meta_Labels (Pod_Meta p)) revisionLabel \<noteq> updateRevision
         then ret (c, Inr (Some requeue))
         else if \<not> isPodReady p \<or> Meta_DeletionTimestamp (Pod_Meta p) \<noteq> None then ret (c, Inr (Some requeue))
         else if Pod_IP p = [] then ret (c, Inr (Some requeue))
         else do {
           x \<leftarrow> includeFromAllProxies S tok c (Pod_IP p) adminPort;
           again \<leftarrow> (case x of
             Inl _ \<Rightarrow> do {
               now \<leftarrow> Now S;
               ret (now - RR_PhaseStartedAt st < proxyCallTimeout + podRestartAllowance) }
           | Inr _ \<Rightarrow> ret False);
           if again then ret (c, Inr (Some requeue))
           else do {
             (case x of
                Inl e \<Rightarrow> RecordEvent ''Warning'' ''BackendIncludeFailed'' (''Moving on without including pod ''
                           @ podName @ '' ('' @ Pod_IP p @ '') in the proxy: '' @ err_text e)
              | Inr _ \<Rightarrow> RecordEvent ''Normal'' ''BackendIncluded'' (''Included pod '' @ podName @ '' ('' @ Pod_IP p
                           @ '') in proxy routing''));
             at \<leftarrow> Now S;
             if RR_CurrentOrdinal st \<le> 0
             then commit S (put_rr (Some (st\<lparr> RR_Phase := RollingRestartCompleted, RR_PhaseStartedAt := at \<rparr>)) c)
                    (Some (3 * second))
             else commit S (put_rr (Some (st\<lparr> RR_CurrentOrdinal := RR_CurrentOrdinal st - 1,
                      RR_Phase := RollingRestartExcluding, RR_PhaseStartedAt := at,
                      RR_ExcludeConfirmed := False, RR_OldPodIP := [] \<rparr>)) c) (Some requeue) } } }"

definition tryClearCompletedRollingRestart ::
  "'w sys \<Rightarrow> HyperbytedbCluster \<Rightarrow> stsReconcileResult \<Rightarrow> sts \<Rightarrow> ('w, HyperbytedbCluster \<times> bool result) prog" where
  "tryClearCompletedRollingRestart S c sr cur =
     (case Status_RollingRestart (Status c) of
        None \<Rightarrow> ret (c, Inr False)
      | Some st \<Rightarrow>
          if RR_Phase st \<noteq> RollingRestartCompleted then ret (c, Inr False)
          else if SR_ReadyReplicas sr \<noteq> SR_SpecReplicas sr \<or> StsS_ReadyReplicas cur \<noteq> StsS_Replicas cur \<or>
                  StsS_UpdatedReplicas cur \<noteq> StsS_Replicas cur
          then ret (c, Inr False)
          else do {
            r \<leftarrow> StatusUpdate KCluster (api_cluster S) (put_rr None c);
            case r of
              Inl e \<Rightarrow> ret (put_rr None c, Inl e)
            | Inr c' \<Rightarrow> ret (c', Inr True) })"

definition new_rr :: "int \<Rightarrow> time \<Rightarrow> RollingRestartState" where
  "new_rr replicas now =
     \<lparr> RR_CurrentOrdinal = max (replicas - 1) 0, RR_TotalOrdinals = replicas,
       RR_Phase = RollingRestartExcluding, RR_PhaseStartedAt = now, RR_OldPodIP = [], RR_ExcludeConfirmed = False \<rparr>"

definition ensureRollingRestartState ::
  "'w sys \<Rightarrow> HyperbytedbCluster \<Rightarrow> int \<Rightarrow> ('w, HyperbytedbCluster \<times> RollingRestartState result) prog" where
  "ensureRollingRestartState S c0 replicas = do {
     (c, r) \<leftarrow> (case Status_RollingRestart (Status c0) of
        Some _ \<Rightarrow> ret (c0, Inr ())
      | None \<Rightarrow> do {
          now \<leftarrow> Now S;
          u \<leftarrow> StatusUpdate KCluster (api_cluster S) (put_rr (Some (new_rr replicas now)) c0);
          case u of
            Inl e \<Rightarrow> ret (put_rr (Some (new_rr replicas now)) c0, Inl e)
          | Inr c' \<Rightarrow> ret (c', Inr ()) });
     case r of
       Inl e \<Rightarrow> ret (c, Inl e)
     | Inr _ \<Rightarrow>
         (case Status_RollingRestart (Status c) of
            Some st \<Rightarrow> ret (c, Inr st)
          | None \<Rightarrow> do {
              now \<leftarrow> Now S;
              let c1 = put_rr (Some (new_rr replicas now)) c;
              u \<leftarrow> StatusUpdate KCluster (api_cluster S) c1;
              case u of
                Inl e \<Rightarrow> ret (c1, Inl e)
              | Inr c' \<Rightarrow> ret (c', Inr (deref (new_rr replicas now) (Status_RollingRestart (Status c')))) }) }"

definition update_pending :: "sts \<Rightarrow> bool" where
  "update_pending s \<longleftrightarrow> StsS_UpdateRevision s \<noteq> [] \<and> StsS_UpdateRevision s \<noteq> StsS_CurrentRevision s"

text \<open>The switch over the phase of the state.\<close>

definition rolling_phase ::
  "'w sys \<Rightarrow> string \<Rightarrow> HyperbytedbCluster \<Rightarrow> RollingRestartState \<Rightarrow> string \<Rightarrow> string \<Rightarrow> int \<Rightarrow> 'w phase" where
  "rolling_phase S tok c st podName updateRevision adminPort =
     (let requeue3s = 3 * second
      in case RR_Phase st of
           RollingRestartExcluding \<Rightarrow> rollingRestartExcluding S tok c st podName updateRevision adminPort requeue3s
         | RollingRestartDraining \<Rightarrow> rollingRestartDraining S c st podName requeue3s
         | RollingRestartWaitingReady \<Rightarrow>
             rollingRestartWaitingReady S tok c st podName updateRevision adminPort requeue3s
         | RollingRestartCompleted \<Rightarrow> ret (c, Inr (Some requeue3s))
         | _ \<Rightarrow> ret (c, Inr None))"

definition not_started :: "HyperbytedbCluster \<Rightarrow> bool" where
  "not_started c =
     (case Status_RollingRestart (Status c) of
        None \<Rightarrow> False
      | Some st \<Rightarrow> RR_Phase st = RollingRestartExcluding \<and> \<not> RR_ExcludeConfirmed st)"

definition reconcileRollingRestart ::
  "'w sys \<Rightarrow> string \<Rightarrow> HyperbytedbCluster \<Rightarrow> stsReconcileResult \<Rightarrow> int \<Rightarrow> 'w phase" where
  "reconcileRollingRestart S tok c sr replicas = do {
     g \<leftarrow> Get KSts (api_sts S) (nn_of c (StatefulSetName c));
     case g of
       Inl e \<Rightarrow> ret (c, Inl e)
     | Inr cur \<Rightarrow>
         if \<not> update_pending cur \<and> Status_RollingRestart (Status c) = None then ret (c, Inr None)
         else do {
           (c1, cleared) \<leftarrow> tryClearCompletedRollingRestart S c sr cur;
           case cleared of
             Inl e \<Rightarrow> ret (c1, Inl e)
           | Inr True \<Rightarrow> ret (c1, Inr None)
           | Inr False \<Rightarrow>
               if \<not> update_pending cur \<and> not_started c1
               then commit S (put_rr None c1) None
               else do {
                 (c2, ensured) \<leftarrow> ensureRollingRestartState S c1 replicas;
                 case ensured of
                   Inl e \<Rightarrow> ret (c2, Inl e)
                 | Inr st \<Rightarrow> rolling_phase S tok c2 st (pod_name c1 (RR_CurrentOrdinal st))
                             (StsS_UpdateRevision cur) (ProxyAdminPort (sys_semver S) c1) } } }"

section \<open>The state machine of the phases\<close>

text \<open>
  One write of the coordination state, as the comments of the source describe it: a pod is
  excluded, drained and released, or released at once when there is nothing to drain; after
  its replacement is ready comes the next lower ordinal; after ordinal 0 the restart is
  complete and is cleared. A restart that has excluded nothing can be abandoned.
\<close>

inductive rr_step :: "int \<Rightarrow> RollingRestartState option \<Rightarrow> RollingRestartState option \<Rightarrow> bool" for n where
  begin_restart: "rr_step n None (Some (new_rr n now))"
| exclude: "RR_Phase st = RollingRestartExcluding \<Longrightarrow>
    rr_step n (Some st) (Some (st\<lparr> RR_OldPodIP := ip, RR_ExcludeConfirmed := conf, RR_Phase := RollingRestartDraining,
                                  RR_PhaseStartedAt := at \<rparr>))"
| retry: "RR_Phase st = RollingRestartExcluding \<Longrightarrow> rr_step n (Some st) (Some (st\<lparr> RR_OldPodIP := ip \<rparr>))"
| release: "RR_Phase st = RollingRestartExcluding \<or> RR_Phase st = RollingRestartDraining \<Longrightarrow>
    rr_step n (Some st) (Some (st\<lparr> RR_Phase := RollingRestartWaitingReady, RR_PhaseStartedAt := at \<rparr>))"
| next_pod: "RR_Phase st = RollingRestartWaitingReady \<Longrightarrow> 0 < RR_CurrentOrdinal st \<Longrightarrow>
    rr_step n (Some st) (Some (st\<lparr> RR_CurrentOrdinal := RR_CurrentOrdinal st - 1, RR_Phase := RollingRestartExcluding,
                                  RR_PhaseStartedAt := at, RR_ExcludeConfirmed := False, RR_OldPodIP := [] \<rparr>))"
| complete: "RR_Phase st = RollingRestartWaitingReady \<Longrightarrow> RR_CurrentOrdinal st \<le> 0 \<Longrightarrow>
    rr_step n (Some st) (Some (st\<lparr> RR_Phase := RollingRestartCompleted, RR_PhaseStartedAt := at \<rparr>))"
| clear: "RR_Phase st = RollingRestartCompleted \<Longrightarrow> rr_step n (Some st) None"
| abandon: "RR_Phase st = RollingRestartExcluding \<Longrightarrow> \<not> RR_ExcludeConfirmed st \<Longrightarrow> rr_step n (Some st) None"

abbreviation rr_steps :: "int \<Rightarrow> RollingRestartState option \<Rightarrow> RollingRestartState option \<Rightarrow> bool" where
  "rr_steps n \<equiv> (rr_step n)\<^sup>*\<^sup>*"

definition rr_of :: "HyperbytedbCluster \<Rightarrow> RollingRestartState option" where
  "rr_of c = Status_RollingRestart (Status c)"

lemma rr_of_put [simp]: "rr_of (put_rr st c) = st"
  by (simp add: rr_of_def put_rr_def)

text \<open>
  The documented answer of a status update: it returns the status that was written.
\<close>

definition status_echo :: "'w sys \<Rightarrow> bool" where
  "status_echo S \<longleftrightarrow> (\<forall>c w c' w'. k_status (api_cluster S) c w = (Inr c', w') \<longrightarrow> rr_of c' = rr_of c)"

text \<open>
  \<open>follows\<close>: a program that mutates the cluster only moves the coordination state along the
  machine, in what it writes and in what it returns.
\<close>

definition rr_writes :: "int \<Rightarrow> RollingRestartState option \<Rightarrow> event list \<Rightarrow> bool" where
  "rr_writes n x es \<longleftrightarrow> (\<forall>c r. EvStatus (KCluster c) r \<in> set es \<longrightarrow> rr_steps n x (rr_of c))"

definition follows ::
  "int \<Rightarrow> RollingRestartState option \<Rightarrow> ('w, HyperbytedbCluster \<times> 'a) prog \<Rightarrow> bool" where
  "follows n x m \<longleftrightarrow>
     (\<forall>l. triple (since l (rr_writes n x)) m (\<lambda>(c, _) s. since l (rr_writes n x) s \<and> rr_steps n x (rr_of c)))"

definition no_status :: "event \<Rightarrow> bool" where
  "no_status e \<longleftrightarrow> (\<forall>c r. e \<noteq> EvStatus (KCluster c) r)"

lemma no_status_simps [simp]:
  "no_status (EvGet k g)" "no_status (EvList sel g')" "no_status (EvPatch o1 o2 r)" "no_status (EvRecord a b d)"
  "http_to m u body e \<Longrightarrow> no_status e"
  by (auto simp: no_status_def) (cases e; simp)?

lemma follows_ret: "rr_steps n x (rr_of c) \<Longrightarrow> follows n x (ret (c, a))"
  by (simp add: follows_def triple_def)

lemma follows_bind:
  assumes "emits no_status m" "\<And>a. follows n x (f a)"
  shows "follows n x (State_Monad.bind m f)"
proof -
  have "keeps (since l (rr_writes n x)) m" for l
    by (rule keeps_since [OF assms(1)]) (auto simp: rr_writes_def no_status_def list_all_iff)
  then show ?thesis
    using assms(2) unfolding follows_def keeps_triple by (blast intro: triple_bind)
qed

lemma follows_if: "(b \<Longrightarrow> follows n x m) \<Longrightarrow> (\<not> b \<Longrightarrow> follows n x m') \<Longrightarrow> follows n x (if b then m else m')"
  by simp

lemma follows_sum:
  "(\<And>e. r = Inl e \<Longrightarrow> follows n x (f e)) \<Longrightarrow> (\<And>a. r = Inr a \<Longrightarrow> follows n x (g a)) \<Longrightarrow>
   follows n x (case r of Inl e \<Rightarrow> f e | Inr a \<Rightarrow> g a)"
  by (cases r) simp_all

lemma since_status:
  assumes "since l (rr_writes n x) s" "rr_steps n x (rr_of c)"
    and "run_state (StatusUpdate KCluster (api_cluster S) c) s = (r, t)"
  shows "since l (rr_writes n x) t"
proof -
  have "log t = log s @ [EvStatus (KCluster c) (err_of r)]"
    using assms(3) by (auto simp: StatusUpdate_def call_def emit_def split: prod.splits)
  with assms(1,2) show ?thesis
    unfolding since_def rr_writes_def by fastforce
qed

text \<open>A status update whose answer the continuation takes over.\<close>

lemma follows_status:
  assumes echo: "status_echo S" and c: "rr_steps n x (rr_of c)"
    and err: "\<And>e. follows n x (f (Inl e))"
    and ok: "\<And>c'. rr_of c' = rr_of c \<Longrightarrow> follows n x (f (Inr c'))"
  shows "follows n x (State_Monad.bind (StatusUpdate KCluster (api_cluster S) c) f)"
  unfolding follows_def
proof (intro allI tripleI)
  fix l s b t
  assume s: "since l (rr_writes n x) s"
    and run: "run_state (State_Monad.bind (StatusUpdate KCluster (api_cluster S) c) f) s = (b, t)"
  obtain r u where r: "run_state (StatusUpdate KCluster (api_cluster S) c) s = (r, u)" by (rule runE)
  have u: "since l (rr_writes n x) u" using s c r by (rule since_status)
  have "\<And>c'. r = Inr c' \<Longrightarrow> rr_of c' = rr_of c"
    using r echo by (auto simp: StatusUpdate_def call_def emit_def status_echo_def split: prod.splits)
  then have "follows n x (f r)" using err ok by (cases r) auto
  moreover have "run_state (f r) u = (b, t)" using run r by simp
  ultimately show "(\<lambda>(c, _) s. since l (rr_writes n x) s \<and> rr_steps n x (rr_of c)) b t"
    using u unfolding follows_def by (blast dest: tripleD)
qed

lemma follows_commit:
  "status_echo S \<Longrightarrow> rr_steps n x (rr_of c) \<Longrightarrow> follows n x (commit S c a)"
  unfolding commit_def by (rule follows_status) (auto intro!: follows_ret)

section \<open>The phases follow the machine\<close>

lemma emits_releaseOrdinal: "(\<And>e. no_status e \<Longrightarrow> P e) \<Longrightarrow> emits P (releaseOrdinal S c i)"
  unfolding releaseOrdinal_def by (intro emits_intro) simp_all

lemma emits_proxies:
  assumes "\<And>e. no_status e \<Longrightarrow> P e"
  shows "emits P (excludeFromAllProxies S tok c ip p)" "emits P (includeFromAllProxies S tok c ip p)"
  unfolding excludeFromAllProxies_def includeFromAllProxies_def forEachRunningProxy_def
  by (intro emits_intro emits_proxy_client; simp add: assms)+

lemma rr_steps_trans: "rr_steps n x y \<Longrightarrow> rr_step n y z \<Longrightarrow> rr_steps n x z"
  by (rule rtranclp.rtrancl_into_rtrancl)

lemma follows_release:
  assumes "status_echo S" "rr_steps n x (Some st)"
    and "RR_Phase st = RollingRestartExcluding \<or> RR_Phase st = RollingRestartDraining"
  shows "follows n x (rollingRestartRelease S c st requeue)"
  unfolding rollingRestartRelease_def
  by (intro follows_bind follows_sum follows_commit follows_ret emits_releaseOrdinal emits_calls assms(1))
     (use assms in \<open>auto intro: rr_steps_trans rr_step.release\<close>)

lemma follows_excluding:
  assumes echo: "status_echo S" and x: "rr_steps n x (Some st)" "rr_of c = Some st"
    and ph: "RR_Phase st = RollingRestartExcluding"
  shows "follows n x (rollingRestartExcluding S tok c st podName upd port requeue)"
proof -
  have confirmed: "rr_steps n x (Some (st\<lparr> RR_OldPodIP := ip, RR_ExcludeConfirmed := conf,
      RR_Phase := RollingRestartDraining, RR_PhaseStartedAt := at \<rparr>))" for ip conf at
    by (rule rr_steps_trans [OF x(1) rr_step.exclude [OF ph]])
  from this [of _ "RR_ExcludeConfirmed st"] have unconfirmed: "rr_steps n x (Some (st\<lparr> RR_OldPodIP := ip,
      RR_Phase := RollingRestartDraining, RR_PhaseStartedAt := at \<rparr>))" for ip at by simp
  have again: "rr_steps n x (Some (st\<lparr> RR_OldPodIP := ip \<rparr>))" for ip
    by (rule rr_steps_trans [OF x(1) rr_step.retry [OF ph]])
  show ?thesis
    unfolding rollingRestartExcluding_def excluding_outcome_def
    by (intro follows_bind follows_sum follows_if follows_commit follows_ret follows_release emits_proxies emits_calls echo)
       (use confirmed unconfirmed again x ph in simp_all)
qed

lemma follows_draining:
  assumes echo: "status_echo S" and x: "rr_steps n x (Some st)" "rr_of c = Some st"
    and ph: "RR_Phase st = RollingRestartDraining"
  shows "follows n x (rollingRestartDraining S c st podName requeue)"
  unfolding rollingRestartDraining_def Let_def
  by (intro follows_bind follows_sum follows_if follows_ret follows_release emits_calls echo)
     (use x ph in simp_all)

lemma follows_waiting:
  assumes echo: "status_echo S" and x: "rr_steps n x (Some st)" "rr_of c = Some st"
    and ph: "RR_Phase st = RollingRestartWaitingReady"
  shows "follows n x (rollingRestartWaitingReady S tok c st podName upd port requeue)"
proof -
  have report: "emits no_status (case y of Inl e \<Rightarrow> RecordEvent a b (f e) | Inr u \<Rightarrow> RecordEvent a' b' (g u))"
    for y :: "unit result" and a b f a' b' g by (intro emits_intro) simp_all
  have retry: "emits no_status (case y of Inl e \<Rightarrow> do { now \<leftarrow> Now S; ret (f now) } | Inr u \<Rightarrow> ret False)"
    for y :: "unit result" and f by (intro emits_intro)
  have lower: "\<not> RR_CurrentOrdinal st \<le> 0 \<Longrightarrow>
      rr_steps n x (Some (st\<lparr> RR_CurrentOrdinal := RR_CurrentOrdinal st - 1, RR_Phase := RollingRestartExcluding,
        RR_PhaseStartedAt := at, RR_ExcludeConfirmed := False, RR_OldPodIP := [] \<rparr>))" for at
    by (rule rr_steps_trans [OF x(1) rr_step.next_pod [OF ph]]) simp
  have last: "RR_CurrentOrdinal st \<le> 0 \<Longrightarrow>
      rr_steps n x (Some (st\<lparr> RR_Phase := RollingRestartCompleted, RR_PhaseStartedAt := at \<rparr>))" for at
    by (rule rr_steps_trans [OF x(1) rr_step.complete [OF ph]])
  show ?thesis
    unfolding rollingRestartWaitingReady_def Let_def
    by (intro follows_bind follows_sum follows_if follows_commit follows_ret emits_proxies emits_calls report retry echo)
       (use lower last x in simp_all)
qed

lemma follows_phase:
  assumes "status_echo S" "rr_steps n x (Some st)" "rr_of c = Some st"
  shows "follows n x (rolling_phase S tok c st pod upd port)"
  using assms unfolding rolling_phase_def Let_def
  by (cases "RR_Phase st")
     (auto intro: follows_excluding follows_draining follows_waiting follows_ret)

lemma follows_bind_pair:
  assumes m: "follows n x m"
    and f: "\<And>c a s u. run_state m s = ((c, a), u) \<Longrightarrow> rr_steps n x (rr_of c) \<Longrightarrow> follows n x (f (c, a))"
  shows "follows n x (State_Monad.bind m f)"
  unfolding follows_def
proof (intro allI tripleI)
  fix l s b t
  assume s: "since l (rr_writes n x) s" and run: "run_state (State_Monad.bind m f) s = (b, t)"
  obtain ca u where ca: "run_state m s = (ca, u)" by (rule runE)
  obtain c a where [simp]: "ca = (c, a)" by fastforce
  have "since l (rr_writes n x) u \<and> rr_steps n x (rr_of c)"
    using m s ca unfolding follows_def by (fastforce dest: tripleD)
  moreover from this ca have "follows n x (f (c, a))" using f [of s c a u] by simp
  moreover have "run_state (f (c, a)) u = (b, t)" using run ca by simp
  ultimately show "(\<lambda>(c, _) s. since l (rr_writes n x) s \<and> rr_steps n x (rr_of c)) b t"
    unfolding follows_def by (blast dest: tripleD)
qed

lemma follows_tryClear:
  assumes echo: "status_echo S"
  shows "follows n (rr_of c) (tryClearCompletedRollingRestart S c sr cur)"
proof (cases "rr_of c")
  case None
  then show ?thesis by (simp add: tryClearCompletedRollingRestart_def rr_of_def [symmetric] follows_ret)
next
  case (Some st)
  then have "RR_Phase st = RollingRestartCompleted \<Longrightarrow> rr_steps n (rr_of c) None"
    by (auto intro: rr_step.clear)
  with Some show ?thesis
    unfolding tryClearCompletedRollingRestart_def rr_of_def [symmetric]
    by (auto intro!: follows_ret follows_status [OF echo] split: if_split)
qed

lemma follows_ensure:
  assumes echo: "status_echo S" and x: "rr_steps n x (rr_of c)"
  shows "follows n x (ensureRollingRestartState S c n)"
proof -
  have none: "rr_steps n x None \<Longrightarrow> rr_steps n x (Some (new_rr n now))" for now
    by (rule rr_steps_trans [OF _ rr_step.begin_restart])
  have first: "follows n x (case rr_of c of Some _ \<Rightarrow> ret (c, Inr ()) | None \<Rightarrow> do {
          now \<leftarrow> Now S;
          u \<leftarrow> StatusUpdate KCluster (api_cluster S) (put_rr (Some (new_rr n now)) c);
          case u of
            Inl e \<Rightarrow> ret (put_rr (Some (new_rr n now)) c, Inl e)
          | Inr c' \<Rightarrow> ret (c', Inr ()) })"
    using x by (cases "rr_of c")
      (auto intro!: follows_ret follows_bind [OF emits_calls(8)] follows_status [OF echo] none)
  show ?thesis
    unfolding ensureRollingRestartState_def Let_def rr_of_def [symmetric]
    by (rule follows_bind_pair [OF first])
       (auto intro!: follows_ret follows_bind [OF emits_calls(8)] follows_status [OF echo] none
             split: sum.split option.split)
qed

text \<open>The state \<open>ensure\<close> returns is the one of the cluster it returns.\<close>

lemma ensure_state:
  assumes echo: "status_echo S"
    and run: "run_state (ensureRollingRestartState S c n) s = ((c', Inr st), t)"
  shows "rr_of c' = Some st"
proof -
  have e: "k_status (api_cluster S) d w = (Inr d', w') \<Longrightarrow>
      Status_RollingRestart (Status d') = Status_RollingRestart (Status d)" for d w d' w'
    using echo by (auto simp: status_echo_def rr_of_def)
  show ?thesis
    using run unfolding ensureRollingRestartState_def
    by (auto simp: Let_def rr_of_def StatusUpdate_def call_def emit_def Now_def put_rr_def
        split: prod.splits sum.splits option.splits dest!: e)
qed

lemma follows_reconcileRollingRestart:
  assumes echo: "status_echo S"
  shows "follows n (rr_of c) (reconcileRollingRestart S tok c sr n)"
proof -
  let ?x = "rr_of c"
  have abandon: "rr_steps n ?x (rr_of c1) \<Longrightarrow> not_started c1 \<Longrightarrow> rr_steps n ?x None" for c1
    by (rule rr_steps_trans [of n ?x "rr_of c1"])
       (auto simp: not_started_def rr_of_def [symmetric] split: option.splits intro: rr_step.abandon)
  have go: "follows n ?x (do {
      (c2, ensured) \<leftarrow> ensureRollingRestartState S c1 n;
      case ensured of
        Inl e \<Rightarrow> ret (c2, Inl e)
      | Inr st \<Rightarrow> rolling_phase S tok c2 st (pod_name c1 (RR_CurrentOrdinal st))
                    (StsS_UpdateRevision cur) (ProxyAdminPort (sys_semver S) c1) })"
    if "rr_steps n ?x (rr_of c1)" for c1 cur
    by (rule follows_bind_pair [OF follows_ensure [OF echo that]])
       (auto intro!: follows_ret follows_phase [OF echo] dest: ensure_state [OF echo] split: sum.split)
  show ?thesis
    unfolding reconcileRollingRestart_def
    by (rule follows_bind [OF emits_calls(1)], simp, intro follows_sum follows_if)
       (auto intro!: follows_ret follows_bind_pair [OF follows_tryClear [OF echo]] follows_commit [OF echo]
          go abandon split: sum.split bool.split)
qed

section \<open>The rollout in the cluster\<close>

text \<open>
  One rollout of a new template over \<open>n\<close> pods, the operator and the StatefulSet controller
  together. A configuration has the persisted coordination state, the partition of the
  StatefulSet, and which pods run the update revision. The operator sets the partition at
  every reconcile (\<open>sync\<close>), lowers it to release the current ordinal (\<open>release\<close>), and moves
  the coordination state: to waiting only once the partition is lowered, past a pod only
  once that pod runs the update revision. The StatefulSet controller replaces pods at or
  above the partition with the update revision, and recreates a lost pod in the revision
  its ordinal has.
\<close>

record rollout =
  RO_state :: "RollingRestartState option"
  RO_partition :: int
  RO_updated :: "int \<Rightarrow> bool"

inductive rollout_step :: "HyperbytedbCluster \<Rightarrow> int \<Rightarrow> rollout \<Rightarrow> rollout \<Rightarrow> bool" for c n where
  sync: "rollout_step c n r (r\<lparr> RO_partition := rolloutPartition (put_rr (RO_state r) c) n \<rparr>)"
| release: "RO_state r = Some st \<Longrightarrow>
    RR_Phase st = RollingRestartExcluding \<or> RR_Phase st = RollingRestartDraining \<Longrightarrow>
    rollout_step c n r (r\<lparr> RO_partition := min (RO_partition r) (RR_CurrentOrdinal st) \<rparr>)"
| advance: "rr_step n (RO_state r) (Some st) \<Longrightarrow>
    (RR_Phase st = RollingRestartWaitingReady \<longrightarrow> RO_partition r \<le> RR_CurrentOrdinal st) \<Longrightarrow>
    (\<forall>old. RO_state r = Some old \<and> RR_Phase old = RollingRestartWaitingReady \<longrightarrow> RO_updated r (RR_CurrentOrdinal old)) \<Longrightarrow>
    rollout_step c n r (r\<lparr> RO_state := Some st \<rparr>)"
| replace: "RO_partition r \<le> i \<Longrightarrow> rollout_step c n r (r\<lparr> RO_updated := (RO_updated r)(i := True) \<rparr>)"
| recreate: "rollout_step c n r (r\<lparr> RO_updated := (RO_updated r)(i := RO_partition r \<le> i) \<rparr>)"

definition rollout_init :: "int \<Rightarrow> rollout" where
  "rollout_init n = \<lparr> RO_state = None, RO_partition = n, RO_updated = (\<lambda>_. False) \<rparr>"

definition rollout_reachable :: "HyperbytedbCluster \<Rightarrow> int \<Rightarrow> rollout \<Rightarrow> bool" where
  "rollout_reachable c n r \<longleftrightarrow> (rollout_step c n)\<^sup>*\<^sup>* (rollout_init n) r"

inductive_cases rr_step_someE: "rr_step n x (Some st)"

fun rollout_inv :: "int \<Rightarrow> rollout \<Rightarrow> bool" where
  "rollout_inv n r =
     (case RO_state r of
        None \<Rightarrow> RO_partition r = n \<and> (\<forall>j. 0 \<le> j \<and> j < n \<longrightarrow> \<not> RO_updated r j)
      | Some st \<Rightarrow>
          (case RR_Phase st of
             RollingRestartCompleted \<Rightarrow> RO_partition r = 0 \<and> (\<forall>j. 0 \<le> j \<and> j < n \<longrightarrow> RO_updated r j)
           | ph \<Rightarrow>
               ph \<in> {RollingRestartExcluding, RollingRestartDraining, RollingRestartWaitingReady} \<and>
               0 \<le> RR_CurrentOrdinal st \<and> RR_CurrentOrdinal st < n \<and>
               RR_CurrentOrdinal st \<le> RO_partition r \<and>
               RO_partition r \<le> RR_CurrentOrdinal st + (if ph = RollingRestartWaitingReady then 0 else 1) \<and>
               (\<forall>j. 0 \<le> j \<and> j < RR_CurrentOrdinal st \<longrightarrow> \<not> RO_updated r j) \<and>
               (\<forall>j. RR_CurrentOrdinal st < j \<and> j < n \<longrightarrow> RO_updated r j)))"

lemma rollout_inv_step:
  assumes "rollout_step c n r r'" "rollout_inv n r" "1 \<le> n" "in_i32 n"
  shows "rollout_inv n r'"
  using assms(1)
proof cases
  case sync
  then show ?thesis
    using assms(2-4)
    by (auto simp: rolloutPartition_def put_rr_def in_i32_def split: option.splits RollingRestartPhase.splits)
next
  case (release st)
  then show ?thesis using assms(2,3) by (auto split: RollingRestartPhase.splits)
next
  case (advance st)
  have pred: "(a::int) - 1 < j \<longleftrightarrow> j = a \<or> a < j" for a j by auto
  from advance show ?thesis using assms(2,3)
    by (elim rr_step_someE) (auto simp: new_rr_def pred split: RollingRestartPhase.splits, metis order_le_less)
next
  case (replace i)
  then show ?thesis using assms(2,3) by (auto split: option.splits RollingRestartPhase.splits)
next
  case (recreate i)
  then show ?thesis using assms(2,3) by (auto split: option.splits RollingRestartPhase.splits)
qed

lemma rollout_inv_reachable:
  assumes "rollout_reachable c n r" "1 \<le> n" "in_i32 n"
  shows "rollout_inv n r"
  using assms(1) unfolding rollout_reachable_def
proof (induction rule: rtranclp_induct)
  case base
  show ?case by (simp add: rollout_init_def)
next
  case (step y z)
  then show ?case using rollout_inv_step assms(2,3) by blast
qed

section \<open>Exclusion and release\<close>

definition exclude_request :: "string \<Rightarrow> int \<Rightarrow> pod \<Rightarrow> event \<Rightarrow> bool" where
  "exclude_request ip port p e \<longleftrightarrow>
     http_to MethodPost (endpoint (Pod_IP p) port (''/admin/backends/'' @ ip @ ''/exclude'')) None e"

text \<open>The proxy took the exclusion: it accepted it, had it already, or does not know the backend.\<close>

definition exclude_taken :: "event \<Rightarrow> bool" where
  "exclude_taken e \<longleftrightarrow>
     (case answer e of
        Inl _ \<Rightarrow> False
      | Inr resp \<Rightarrow> Resp_Status resp = 200 \<or> Resp_Status resp = 409 \<or>
          (Resp_Status resp = 404 \<and> Contains (Resp_Body resp) ''not found in pool''))"

lemma ExcludeProxyBackend_ok:
  assumes "run_state (ExcludeProxyBackend S tok (Pod_IP p) port ip) s = (r, t)"
  shows "\<exists>e. log t = log s @ [e] \<and> exclude_request ip port p e \<and> (isOk r \<longrightarrow> exclude_taken e)"
proof -
  obtain q u where q: "run_state (send S tok MethodPost (endpoint (Pod_IP p) port (''/admin/backends/'' @ ip @ ''/exclude'')) None) s = (q, u)"
    by (rule runE)
  obtain e where e: "log u = log s @ [e]" "exclude_request ip port p e" "map_sum snd id q = answer e"
    using send_one [OF q] by (metis exclude_request_def)
  have "t = u" using assms q by (auto simp: ExcludeProxyBackend_def split: sum.splits prod.splits if_splits)
  moreover have "isOk r \<Longrightarrow> exclude_taken e"
    using assms q unfolding exclude_taken_def e(3) [symmetric]
    by (cases q) (auto simp: ExcludeProxyBackend_def split: prod.splits if_splits)
  ultimately show ?thesis using e by blast
qed

definition all_excluded :: "HyperbytedbCluster \<Rightarrow> string \<Rightarrow> int \<Rightarrow> event list \<Rightarrow> bool" where
  "all_excluded c ip port es \<longleftrightarrow>
     (\<exists>pods. EvList (proxyLabels c) (Inr (map KPod pods)) \<in> set es \<and>
        (\<forall>p\<in>set pods. proxyRunning p \<longrightarrow> (\<exists>e\<in>set es. exclude_request ip port p e \<and> exclude_taken e)))"

lemma forErr_ok_each:
  assumes "run_state (forErr xs f) s = (Inr (), t)"
    and "\<And>x s r t. x \<in> set xs \<Longrightarrow> run_state (f x) s = (r, t) \<Longrightarrow> \<exists>es. log t = log s @ es \<and> (isOk r \<longrightarrow> Q x es)"
    and "\<And>x es pre post. Q x es \<Longrightarrow> Q x (pre @ es @ post)"
  shows "\<exists>es. log t = log s @ es \<and> (\<forall>x\<in>set xs. Q x es)"
  using assms(1,2)
proof (induction xs arbitrary: s)
  case (Cons x xs)
  obtain r u where r: "run_state (f x) s = (r, u)" by (rule runE)
  obtain es where es: "log u = log s @ es" "isOk r \<longrightarrow> Q x es" using Cons.prems(2) [OF _ r] by auto
  have ok: "isOk r" and rest: "run_state (forErr xs f) u = (Inr (), t)"
    using Cons.prems(1) r by (cases r; simp)+
  obtain fs where fs: "log t = log u @ fs" "\<forall>x\<in>set xs. Q x fs"
    using Cons.IH [OF rest] Cons.prems(2) by (meson list.set_intros(2))
  have "Q x (es @ fs)" using es(2) ok assms(3) [of x es "[]" fs] by simp
  moreover have "\<forall>y\<in>set xs. Q y (es @ fs)" using fs(2) assms(3) [of _ fs es "[]"] by auto
  ultimately show ?case using es(1) fs(1) by (intro exI [of _ "es @ fs"]) auto
qed simp

lemma excludeFromAllProxies_ok:
  assumes "run_state (excludeFromAllProxies S tok c ip port) s = (Inr (), t)"
  shows "\<exists>es. log t = log s @ es \<and> all_excluded c ip port es"
proof -
  let ?f = "\<lambda>p. if \<not> proxyRunning p then ret (Inr ()) else do {
             x \<leftarrow> ExcludeProxyBackend S tok (Pod_IP p) port ip;
             ret (map_sum (WrapErr (''proxy pod '' @ Meta_Name (Pod_Meta p))) id x) }"
  let ?Q = "\<lambda>p es. proxyRunning p \<longrightarrow> (\<exists>e\<in>set es. exclude_request ip port p e \<and> exclude_taken e)"
  obtain r u where r: "run_state (ListObjs KPod (api_pod S) (Namespace c) (proxyLabels c)) s = (r, u)" by (rule runE)
  have lu: "log u = log s @ [EvList (proxyLabels c) (map_sum id (map KPod) r)]"
    using r by (auto simp: ListObjs_def call_def emit_def split: prod.splits)
  from assms r obtain pods where pods: "r = Inr pods" and rest: "run_state (forErr pods ?f) u = (Inr (), t)"
    by (auto simp: excludeFromAllProxies_def forEachRunningProxy_def split: sum.splits)
  have "\<exists>es. log t = log u @ es \<and> (\<forall>p\<in>set pods. ?Q p es)"
  proof (rule forErr_ok_each [OF rest])
    fix p s r t assume run: "run_state (?f p) s = (r, t)"
    show "\<exists>es. log t = log s @ es \<and> (isOk r \<longrightarrow> ?Q p es)"
    proof (cases "proxyRunning p")
      case True
      obtain x v where x: "run_state (ExcludeProxyBackend S tok (Pod_IP p) port ip) s = (x, v)" by (rule runE)
      with True run have "t = v" "isOk r \<longleftrightarrow> isOk x" by (cases x; auto)+
      with ExcludeProxyBackend_ok [OF x] show ?thesis by fastforce
    qed (use run in auto)
  qed auto
  then obtain es where es: "log t = log u @ es" "\<forall>p\<in>set pods. ?Q p es" by blast
  show ?thesis
    unfolding all_excluded_def
    by (rule exI [of _ "EvList (proxyLabels c) (Inr (map KPod pods)) # es"]) (use lu pods es in auto)
qed

text \<open>
  \<open>confirming\<close>: a status write that records the exclusion as confirmed. \<open>lowering\<close>: a patch of
  the StatefulSet, which is how an ordinal is released.
\<close>

definition confirming :: "event \<Rightarrow> bool" where
  "confirming e =
     (case e of
        EvStatus (KCluster d) _ \<Rightarrow> (case rr_of d of Some st \<Rightarrow> RR_ExcludeConfirmed st | None \<Rightarrow> False)
      | _ \<Rightarrow> False)"

definition lowering :: "event \<Rightarrow> bool" where
  "lowering e = (case e of EvPatch _ _ _ \<Rightarrow> True | _ \<Rightarrow> False)"

text \<open>The pod to restart is gone, or already runs the update revision.\<close>

definition nothing_to_drain :: "HyperbytedbCluster \<Rightarrow> string \<Rightarrow> string \<Rightarrow> event list \<Rightarrow> bool" where
  "nothing_to_drain c podName upd es \<longleftrightarrow>
     (\<exists>e. EvGet (nn_of c podName) (Inl e) \<in> set es \<and> IsNotFound e) \<or>
     (\<exists>p. EvGet (nn_of c podName) (Inr (KPod p)) \<in> set es \<and> upd \<noteq> [] \<and>
        mget (Meta_Labels (Pod_Meta p)) revisionLabel = upd)"

lemma confirming_simps [simp]:
  "\<not> confirming (EvGet k g)" "\<not> confirming (EvList sel g')" "\<not> confirming (EvPatch o1 o2 r)"
  "\<not> confirming (EvRecord a b d)" "http_to m u body e \<Longrightarrow> \<not> confirming e"
  "confirming (EvStatus (KCluster (put_rr (Some st) c)) x) \<longleftrightarrow> RR_ExcludeConfirmed st"
  by (auto simp: confirming_def split: event.split)

lemma lowering_simps [simp]:
  "\<not> lowering (EvGet k g)" "\<not> lowering (EvList sel g')" "\<not> lowering (EvStatus c r)"
  "\<not> lowering (EvRecord a b d)" "http_to m u body e \<Longrightarrow> \<not> lowering e"
  by (auto simp: lowering_def split: event.split)

lemma emits_commit: "(\<And>r. P (EvStatus (KCluster c) r)) \<Longrightarrow> emits P (commit S c a)"
  unfolding commit_def by (intro emits_intro)

lemma emits_exclude_calls:
  "emits (\<lambda>e. \<not> confirming e \<and> \<not> lowering e) (excludeFromAllProxies S tok c ip p)"
  unfolding excludeFromAllProxies_def forEachRunningProxy_def
  by (intro emits_intro emits_proxy_client) simp_all

lemma emits_release_unconfirmed:
  "\<not> RR_ExcludeConfirmed st \<Longrightarrow> emits (\<lambda>e. \<not> confirming e) (rollingRestartRelease S c st requeue)"
  unfolding rollingRestartRelease_def releaseOrdinal_def
  by (intro emits_intro emits_commit) simp_all

lemma rollingRestartExcluding_cases:
  assumes run: "run_state (rollingRestartExcluding S tok c st podName upd port requeue) s = (a, t)"
    and unconfirmed: "\<not> RR_ExcludeConfirmed st"
  shows "\<exists>es. log t = log s @ es \<and>
     (list_ex confirming es \<longrightarrow> (\<exists>ip. all_excluded c ip port es)) \<and>
     (list_ex lowering es \<longrightarrow> nothing_to_drain c podName upd es)"
proof -
  obtain g u where g: "run_state (Get KPod (api_pod S) (nn_of c podName)) s = (g, u)" by (rule runE)
  let ?g = "EvGet (nn_of c podName) (map_sum id KPod g)"
  have lu: "log u = log s @ [?g]" by (rule run_Get [OF g])
  let ?free = "(\<exists>e. g = Inl e \<and> IsNotFound e) \<or>
    (\<exists>p. g = Inr p \<and> upd \<noteq> [] \<and> mget (Meta_Labels (Pod_Meta p)) revisionLabel = upd)"
  let ?stop = "(\<exists>e. g = Inl e \<and> \<not> IsNotFound e) \<or> (\<exists>p. g = Inr p \<and> Pod_IP p = [])"
  consider (free) ?free | (stop) "\<not> ?free" ?stop | (pod) p where "\<not> ?free" "g = Inr p" "Pod_IP p \<noteq> []"
    by (cases g) auto
  then show ?thesis
  proof cases
    case free
    then have "run_state (rollingRestartRelease S c st requeue) u = (a, t)"
      using run g by (auto simp: rollingRestartExcluding_def)
    then obtain es where "log t = log u @ es" "list_all (\<lambda>e. \<not> confirming e) es"
      using emitsD [OF emits_release_unconfirmed [OF unconfirmed]] by metis
    moreover have "nothing_to_drain c podName upd (?g # es)"
      using free by (auto simp: nothing_to_drain_def)
    ultimately show ?thesis using lu
      by (intro exI [of _ "?g # es"]) (auto simp: list_all_iff list_ex_iff)
  next
    case stop
    then have "t = u" using run g by (auto simp: rollingRestartExcluding_def)
    with lu show ?thesis by simp
  next
    case (pod p)
    obtain x v where x: "run_state (excludeFromAllProxies S tok c (Pod_IP p) port) u = (x, v)" by (rule runE)
    obtain es where es: "log v = log u @ es" "list_all (\<lambda>e. \<not> confirming e \<and> \<not> lowering e) es"
      using emitsD [OF emits_exclude_calls x] .
    let ?P = "\<lambda>e. \<not> lowering e \<and> (confirming e \<longrightarrow> isOk x)"
    let ?m = "excluding_outcome S c (st\<lparr> RR_OldPodIP := Pod_IP p \<rparr>) podName requeue x"
    have "emits ?P ?m"
      unfolding excluding_outcome_def by (intro emits_intro emits_commit) (use unconfirmed in simp_all)
    moreover have "run_state ?m v = (a, t)"
      using run g pod x by (auto simp: rollingRestartExcluding_def)
    ultimately obtain fs where fs: "log t = log v @ fs" "list_all ?P fs" by (rule emitsD)
    have "isOk x \<Longrightarrow> all_excluded c (Pod_IP p) port (?g # es @ fs)"
      using excludeFromAllProxies_ok [of S tok c "Pod_IP p" port u v] x es(1)
      by (cases x) (fastforce simp: all_excluded_def)+
    with lu es fs show ?thesis
      by (intro exI [of _ "?g # es @ fs"]) (auto simp: list_all_iff list_ex_iff)
  qed
qed

section \<open>Properties\<close>


lemma sim_status_echo: "status_echo (sim_sys sv)"
  by (auto simp: status_echo_def sim_sys_def mem_api_def Let_def split: if_splits)

definition rollout_example :: "RollingRestartState option \<Rightarrow> HyperbytedbCluster" where
  "rollout_example st = put_rr st (new_cluster ''t'' ''p'')"

definition pending_sts :: sts where
  "pending_sts = \<lparr> Sts_Meta = new_meta ''t'' ''p'' Map.empty, Sts_Replicas = Some 1, Sts_ServiceName = [],
     Sts_Selector = Map.empty, Sts_PodManagementPolicy = [], Sts_UpdateType = [], Sts_RollingUpdate = None,
     Sts_Template = \<lparr> T_Labels = Map.empty, T_Annotations = Map.empty, T_Spec =
       \<lparr> PS_GracePeriodSeconds = None, PS_ImagePullSecrets = [], PS_InitContainers = [], PS_Containers = [],
         PS_Volumes = [], PS_Tolerations = [], PS_Affinity = None, PS_TopologySpread = [], PS_RestartPolicy = [] \<rparr> \<rparr>,
     Sts_VolumeClaimTemplates = [], StsS_Replicas = 1, StsS_ReadyReplicas = 1, StsS_UpdatedReplicas = 0,
     StsS_CurrentRevision = ''a'', StsS_UpdateRevision = ''b'' \<rparr>"

definition rollout_sim :: sim where
  "rollout_sim = sim_empty\<lparr> sim_clusters := [(nn_of (rollout_example None) ''t'', rollout_example None)],
     sim_sts := [(nn_of (rollout_example None) ''t'', pending_sts)] \<rparr>"

definition one_replica :: stsReconcileResult where
  "one_replica = \<lparr> SR_SpecReplicas = 1, SR_ReadyReplicas = 1, SR_StatusReplicas = 1, SR_Recreating = False \<rparr>"




text \<open>A rollout of one pod behind one proxy, to try the phases on.\<close>

definition old_pod :: pod where
  "old_pod = \<lparr> Pod_Meta = new_meta ''t-0'' ''p'' Map.empty, Pod_IP = ''10.0.0.1'', Pod_Conditions = [],
     Pod_ContainerStatuses = [] \<rparr>"

definition proxy_pod :: pod where
  "proxy_pod = \<lparr> Pod_Meta = new_meta ''x'' ''p'' (proxyLabels (new_cluster ''t'' ''p'')), Pod_IP = ''10.0.0.9'',
     Pod_Conditions = [], Pod_ContainerStatuses = [(''proxy'', True)] \<rparr>"

definition exclude_sim :: sim where
  "exclude_sim = rollout_sim\<lparr> sim_pods := map (\<lambda>p. (key_of (Pod_Meta p), p)) [old_pod, proxy_pod],
     sim_http := [(endpoint ''10.0.0.9'' 8087 ''/admin/backends/10.0.0.1/exclude'', ok_json [])] \<rparr>"

end
