(* ===== verification/Membership.thy ===== *)
theory Membership
  imports Rolling_Restart
begin

text \<open>
  Members: \<^verbatim>\<open>internal/hyperbytedb/member.go\<close> and, from the cluster controller, the
  reconciliation of the Raft membership, the replication health monitor and the automatic
  failover. Functions that mutate the in-memory cluster return it.
\<close>

section \<open>Status conditions\<close>

definition mk_cond :: "string \<Rightarrow> cond_status \<Rightarrow> string \<Rightarrow> string \<Rightarrow> time option \<Rightarrow> int \<Rightarrow> condition" where
  "mk_cond ty st reason msg at gen =
     \<lparr> Cond_Type = ty, Cond_Status = st, Cond_Reason = reason, Cond_Message = msg,
       Cond_LastTransitionTime = at, Cond_ObservedGeneration = gen \<rparr>"

definition put_conditions :: "condition list \<Rightarrow> HyperbytedbCluster \<Rightarrow> HyperbytedbCluster" where
  "put_conditions cs c = c\<lparr> Status := (Status c)\<lparr> Status_Conditions := cs \<rparr> \<rparr>"

text \<open>\<^verbatim>\<open>meta.SetStatusCondition(&cluster.Status.Conditions, \<dots>)\<close> with \<^verbatim>\<open>LastTransitionTime: metav1.Now()\<close>.\<close>

definition set_cond_now ::
  "'w sys \<Rightarrow> HyperbytedbCluster \<Rightarrow> string \<Rightarrow> cond_status \<Rightarrow> string \<Rightarrow> string \<Rightarrow> ('w, HyperbytedbCluster) prog" where
  "set_cond_now S c ty st reason msg = do {
     now \<leftarrow> Now S;
     cs \<leftarrow> SetStatusCondition S (Status_Conditions (Status c)) (mk_cond ty st reason msg (Some now) 0);
     ret (put_conditions cs c) }"

text \<open>The same without a time, with the observed generation.\<close>

definition set_cond_gen ::
  "'w sys \<Rightarrow> HyperbytedbCluster \<Rightarrow> string \<Rightarrow> cond_status \<Rightarrow> string \<Rightarrow> string \<Rightarrow> ('w, HyperbytedbCluster) prog" where
  "set_cond_gen S c ty st reason msg = do {
     cs \<leftarrow> SetStatusCondition S (Status_Conditions (Status c))
            (mk_cond ty st reason msg None (Meta_Generation (Meta c)));
     ret (put_conditions cs c) }"

section \<open>Collecting members\<close>

definition collect_member :: "'w sys \<Rightarrow> string \<Rightarrow> HyperbytedbCluster \<Rightarrow> string \<Rightarrow> int \<Rightarrow> ('w, MemberStatus) prog" where
  "collect_member S tok c ns i =
     (let host = pod_name c i @ ''.'' @ HeadlessServiceName c @ ''.'' @ ns @ ''.svc.cluster.local'' in do {
       now \<leftarrow> Now S;
       hs \<leftarrow> GetNodeHealth S tok host (ServerPort c);
       let ms = \<lparr> Mem_Name = Name c @ ''-'' @ dec i, Mem_NodeID = i + 1, Mem_PodName = pod_name c i,
                  Mem_State = ''Unknown'', Mem_Health = False, Mem_WALSequence = 0, Mem_ParquetFiles = 0,
                  Mem_PeerCount = 0, Mem_LastTransitionTime = now \<rparr>;
       ret (case hs of
              Inl _ \<Rightarrow> ms\<lparr> Mem_State := ''Unreachable'' \<rparr>
            | Inr h \<Rightarrow> ms\<lparr> Mem_State := HS_Status h,
                  Mem_Health := HS_Status h \<in> {''pass'', ''Active'', ''active''} \<rparr>) })"

definition CollectMemberStatuses ::
  "'w sys \<Rightarrow> string \<Rightarrow> HyperbytedbCluster \<Rightarrow> string \<Rightarrow> int \<Rightarrow> ('w, MemberStatus list) prog" where
  "CollectMemberStatuses S tok c ns replicas = collect (ords_up 0 replicas) (collect_member S tok c ns)"

definition syncing_state :: "string \<Rightarrow> bool" where
  "syncing_state st \<longleftrightarrow> st \<in> {''Syncing'', ''Joining'', ''syncing'', ''joining''}"

definition DeriveClusterState :: "MemberStatus list \<Rightarrow> string" where
  "DeriveClusterState members =
     (if members = [] then ''Unknown''
      else (let healthy = length (filter Mem_Health members);
                syncing = length (filter (\<lambda>m. \<not> Mem_Health m \<and> syncing_state (Mem_State m)) members)
            in if healthy = length members then ''Healthy''
               else if syncing > 0 \<and> healthy + syncing = length members then ''Recovering''
               else if healthy > 0 then ''Degraded''
               else ''Unavailable''))"

definition FindUnhealthyMembers :: "MemberStatus list \<Rightarrow> MemberStatus list" where
  "FindUnhealthyMembers members = filter (\<lambda>m. \<not> Mem_Health m) members"

section \<open>Raft membership\<close>

record podView =
  PV_ordinal :: int
  PV_host :: string
  PV_nodeID :: int
  PV_addr :: string
  PV_reachable :: bool
  PV_nodes :: "NodeInfo list"

definition view_pod :: "'w sys \<Rightarrow> string \<Rightarrow> HyperbytedbCluster \<Rightarrow> int \<Rightarrow> ('w, podView) prog" where
  "view_pod S tok c i =
     (let host = pod_host c i; port = ServerPort c in do {
       r \<leftarrow> GetClusterNodes S tok host port;
       ret \<lparr> PV_ordinal = i, PV_host = host, PV_nodeID = u64 (i + 1), PV_addr = host @ '':'' @ dec port,
             PV_reachable = isOk r, PV_nodes = (case r of Inl _ \<Rightarrow> [] | Inr ns \<Rightarrow> ns) \<rparr> })"

fun find_leader ::
  "'w sys \<Rightarrow> string \<Rightarrow> podView list \<Rightarrow> int \<Rightarrow> podView list \<Rightarrow> ('w, string \<times> int) prog" where
  "find_leader S tok views port [] = ret ([], 0)"
| "find_leader S tok views port (v # vs) =
     (if \<not> PV_reachable v then find_leader S tok views port vs
      else do {
        r \<leftarrow> GetClusterLeader S tok (PV_host v) port;
        case r of
          Inl _ \<Rightarrow> find_leader S tok views port vs
        | Inr info \<Rightarrow>
            (case LI_LeaderID info of
               None \<Rightarrow> find_leader S tok views port vs
             | Some l \<Rightarrow>
                 if l = PV_nodeID v then ret (PV_host v, l)
                 else (case find (\<lambda>w. PV_nodeID w = l) views of
                         Some w \<Rightarrow> ret (PV_host w, l)
                       | None \<Rightarrow> find_leader S tok views port vs)) })"

definition findLeader :: "'w sys \<Rightarrow> string \<Rightarrow> podView list \<Rightarrow> int \<Rightarrow> ('w, string \<times> int) prog" where
  "findLeader S tok views port = find_leader S tok views port views"

definition isDepartedState :: "string \<Rightarrow> bool" where
  "isDepartedState st \<longleftrightarrow> st = ''leaving'' \<or> st = ''decommissioning''"

text \<open>The ids the leader lists as current, the leader itself always included.\<close>

definition known_ids :: "podView list \<Rightarrow> string \<Rightarrow> int \<Rightarrow> int list" where
  "known_ids views leaderHost leaderID =
     remdups (concat (map (\<lambda>v. if PV_host v = leaderHost
          then map (\<lambda>n. u64 (NI_NodeID n)) (filter (\<lambda>n. \<not> isDepartedState (NI_State n)) (PV_nodes v)) else []) views)
       @ [leaderID])"

fun add_missing ::
  "'w sys \<Rightarrow> string \<Rightarrow> string \<Rightarrow> int \<Rightarrow> int list \<Rightarrow> podView list \<Rightarrow> ('w, bool) prog" where
  "add_missing S tok leaderHost port known [] = ret True"
| "add_missing S tok leaderHost port known (v # vs) =
     (if \<not> PV_reachable v then do {
        _ \<leftarrow> add_missing S tok leaderHost port known vs; ret False }
      else if PV_nodeID v \<in> set known then add_missing S tok leaderHost port known vs
      else do {
        r \<leftarrow> AddClusterNode S tok leaderHost port (PV_nodeID v) (PV_addr v) True;
        case r of
          Inl _ \<Rightarrow> do { _ \<leftarrow> add_missing S tok leaderHost port known vs; ret False }
        | Inr resp \<Rightarrow> do {
            RecordEvent ''Normal'' ''MemberAdded'' (''Added node '' @ dec (PV_nodeID v) @ '' ('' @ PV_addr v
              @ '') to raft cluster (promoted='' @ fmt_t (AN_PromotedToVoter resp) @ '')'');
            add_missing S tok leaderHost port known vs } })"

fun update_first :: "('a \<Rightarrow> bool) \<Rightarrow> ('a \<Rightarrow> 'a) \<Rightarrow> 'a list \<Rightarrow> 'a list" where
  "update_first P f [] = []"
| "update_first P f (x # xs) = (if P x then f x # xs else x # update_first P f xs)"

definition put_members :: "MemberStatus list \<Rightarrow> HyperbytedbCluster \<Rightarrow> HyperbytedbCluster" where
  "put_members ms c = c\<lparr> Status := (Status c)\<lparr> Status_Members := ms \<rparr> \<rparr>"

definition peer_counts :: "podView list \<Rightarrow> MemberStatus list \<Rightarrow> MemberStatus list" where
  "peer_counts views ms =
     foldl (\<lambda>ms v. if \<not> PV_reachable v then ms
        else update_first (\<lambda>m. u64 (Mem_NodeID m) = PV_nodeID v)
               (\<lambda>m. m\<lparr> Mem_PeerCount := i32 (i32 (int (length (PV_nodes v))) - 1) \<rparr>) ms) ms views"

definition conditionClusterFormed :: string where "conditionClusterFormed = ''ClusterFormed''"

definition reconcileClusterMembership ::
  "'w sys \<Rightarrow> string \<Rightarrow> HyperbytedbCluster \<Rightarrow> int \<Rightarrow> ('w, HyperbytedbCluster) prog" where
  "reconcileClusterMembership S tok c replicas =
     (let port = ServerPort c in do {
       views \<leftarrow> collect (ords_up 0 replicas) (view_pod S tok c);
       (leaderHost, leaderID) \<leftarrow> findLeader S tok views port;
       if leaderHost = []
       then set_cond_now S c conditionClusterFormed ConditionFalse ''NoLeader'' ''No raft leader reachable yet''
       else do {
         let known = known_ids views leaderHost leaderID;
         allMembers \<leftarrow> add_missing S tok leaderHost port known views;
         let c1 = put_members (peer_counts views (Status_Members (Status c))) c;
         if allMembers \<and> int (length known) \<ge> replicas
         then set_cond_now S c1 conditionClusterFormed ConditionTrue ''AllNodesMembers''
                (''All '' @ dec replicas @ '' expected nodes are raft members'')
         else set_cond_now S c1 conditionClusterFormed ConditionFalse ''MembershipIncomplete''
                (dec (int (length known)) @ ''/'' @ dec replicas @ '' expected nodes are raft members'') } })"

section \<open>Replication health\<close>

record nodeManifest =
  NM_ordinal :: int
  NM_walSeq :: int
  NM_parquetFiles :: int

fun query_manifests ::
  "'w sys \<Rightarrow> string \<Rightarrow> HyperbytedbCluster \<Rightarrow> int list \<Rightarrow> ('w, HyperbytedbCluster \<times> nodeManifest list) prog" where
  "query_manifests S tok c [] = ret (c, [])"
| "query_manifests S tok c (i # is) = do {
     r \<leftarrow> GetSyncManifest S tok (pod_host c i) (ServerPort c);
     case r of
       Inl _ \<Rightarrow> query_manifests S tok c is
     | Inr m \<Rightarrow> do {
         let files = i32 (TotalParquetFiles m);
         let c1 = put_members (update_first (\<lambda>x. Mem_NodeID x = i + 1)
                (\<lambda>x. x\<lparr> Mem_WALSequence := SMa_WALLastSeq m, Mem_ParquetFiles := files \<rparr>)
                (Status_Members (Status c))) c;
         (c2, ms) \<leftarrow> query_manifests S tok c1 is;
         ret (c2, \<lparr> NM_ordinal = i, NM_walSeq = SMa_WALLastSeq m, NM_parquetFiles = files \<rparr> # ms) } }"

text \<open>The comparison of the largest and smallest file count, in 32-bit arithmetic.\<close>

definition replication_verdict :: "int \<Rightarrow> int \<Rightarrow> string \<times> string" where
  "replication_verdict maxFiles minFiles =
     (if maxFiles > 0 \<and> minFiles < quot maxFiles 2 then (''Diverged'', ''LargeDataGap'')
      else if maxFiles > 0 \<and> minFiles < quot (i32 (maxFiles * 8)) 10 then (''Lagging'', ''DataLag'')
      else (''Healthy'', ''InSync''))"

definition put_replication :: "string \<Rightarrow> HyperbytedbCluster \<Rightarrow> HyperbytedbCluster" where
  "put_replication st c = c\<lparr> Status := (Status c)\<lparr> Status_ReplicationState := st \<rparr> \<rparr>"

definition monitorReplicationHealth ::
  "'w sys \<Rightarrow> string \<Rightarrow> HyperbytedbCluster \<Rightarrow> int \<Rightarrow> ('w, HyperbytedbCluster) prog" where
  "monitorReplicationHealth S tok c replicas = do {
     (c1, manifests) \<leftarrow> query_manifests S tok c (ords_up 0 replicas);
     case manifests of
       m # n # ms \<Rightarrow> do {
         let files = map NM_parquetFiles manifests;
         let maxFiles = foldl max (hd files) (tl files);
         let minFiles = foldl min (hd files) (tl files);
         let (replState, reason) = replication_verdict maxFiles minFiles;
         set_cond_now S (put_replication replState c1) ''ReplicationHealthy''
           (if replState \<noteq> ''Healthy'' then ConditionFalse else ConditionTrue) reason
           (''Parquet files: min='' @ dec minFiles @ '' max='' @ dec maxFiles @ '' across ''
             @ dec (int (length manifests)) @ '' nodes'') }
     | _ \<Rightarrow> set_cond_now S (put_replication ''Unknown'' c1) ''ReplicationHealthy'' ConditionUnknown
              ''InsufficientData'' ''Could not query enough nodes for replication comparison'' }"

section \<open>Automatic failover\<close>

text \<open>\<^verbatim>\<open>time.Duration.String\<close> on a whole number of seconds.\<close>

definition dur_text :: "int \<Rightarrow> string" where
  "dur_text secs =
     (let h = secs div 3600; m = secs div 60 mod 60; s = secs mod 60
      in (if h > 0 then dec h @ ''h'' else []) @ (if h > 0 \<or> m > 0 then dec m @ ''m'' else []) @ dec s @ ''s'')"

definition failover_limit :: "FailoverSpec \<Rightarrow> int" where
  "failover_limit f = (if Fail_MaxFailoverCount f \<le> 0 then 1 else Fail_MaxFailoverCount f)"

definition failover_timeout :: "FailoverSpec \<Rightarrow> int" where
  "failover_timeout f = (if Fail_FailoverTimeoutSecs f \<le> 0 then 300 else Fail_FailoverTimeoutSecs f) * second"

definition count_failover :: "HyperbytedbCluster \<Rightarrow> HyperbytedbCluster" where
  "count_failover c = c\<lparr> Status := (Status c)\<lparr> Status_FailoverCount := i32 (Status_FailoverCount (Status c) + 1) \<rparr> \<rparr>"

fun failover_loop ::
  "'w sys \<Rightarrow> HyperbytedbCluster \<Rightarrow> int \<Rightarrow> MemberStatus list \<Rightarrow> ('w, HyperbytedbCluster \<times> unit result) prog" where
  "failover_loop S c timeout [] = ret (c, Inr ())"
| "failover_loop S c timeout (m # ms) =
     (if Mem_State m = ''Syncing'' \<or> Mem_State m = ''Joining'' then failover_loop S c timeout ms
      else do {
        now \<leftarrow> Now S;
        let age = now - Mem_LastTransitionTime m;
        if age < timeout then failover_loop S c timeout ms
        else do {
          g \<leftarrow> Get KPod (api_pod S) (nn_of c (Mem_PodName m));
          case g of
            Inl e \<Rightarrow> if IsNotFound e then failover_loop S c timeout ms else ret (c, Inl e)
          | Inr p \<Rightarrow> do {
              d \<leftarrow> Delete KPod (api_pod S) p False;
              case ignoreNotFound d of
                Inl e \<Rightarrow> ret (c, Inl (WrapErr (''deleting failed pod '' @ Mem_PodName m) e))
              | Inr _ \<Rightarrow> do {
                  RecordEvent ''Warning'' ''AutoFailover'' (''Deleted unhealthy pod '' @ Mem_PodName m
                    @ '' (state='' @ Mem_State m @ '', unhealthy for '' @ dur_text (age div second) @ '')'');
                  ret (count_failover c, Inr ()) } } } })"

definition handleAutoFailover ::
  "'w sys \<Rightarrow> HyperbytedbCluster \<Rightarrow> MemberStatus list \<Rightarrow> ('w, HyperbytedbCluster \<times> unit result) prog" where
  "handleAutoFailover S c members =
     (case Spec_Failover (Spec c) of
        None \<Rightarrow> ret (c, Inr ())
      | Some f \<Rightarrow>
          if \<not> Fail_Enabled f then ret (c, Inr ())
          else if Status_FailoverCount (Status c) \<ge> failover_limit f then ret (c, Inr ())
          else failover_loop S c (failover_timeout f) (FindUnhealthyMembers members))"

section \<open>The status-condition interface\<close>

definition cond_of :: "string \<Rightarrow> condition list \<Rightarrow> condition option" where
  "cond_of ty cs = find (\<lambda>d. Cond_Type d = ty) cs"

text \<open>
  What apimachinery documents of \<^verbatim>\<open>SetStatusCondition\<close> and \<^verbatim>\<open>RemoveStatusCondition\<close>: the condition
  of that type then has the given status, reason and message, or is gone; the conditions of
  other types stay.
\<close>

locale condition_laws =
  fixes S :: "'w sys"
  assumes set_law: "set_condition S cs n w = (cs', w') \<Longrightarrow>
      map_option (\<lambda>d. (Cond_Status d, Cond_Reason d, Cond_Message d)) (cond_of (Cond_Type n) cs')
        = Some (Cond_Status n, Cond_Reason n, Cond_Message n)"
    and set_other: "set_condition S cs n w = (cs', w') \<Longrightarrow> ty \<noteq> Cond_Type n \<Longrightarrow> cond_of ty cs' = cond_of ty cs"
    and remove_law: "cond_of ty (remove_condition S cs ty) = None"
    and remove_other: "ty' \<noteq> ty \<Longrightarrow> cond_of ty' (remove_condition S cs ty) = cond_of ty' cs"
begin

lemma set_cond_now_status:
  assumes "run_state (set_cond_now S c ty st reason msg) s = (c', t)"
  shows "map_option Cond_Status (cond_of ty (Status_Conditions (Status c'))) = Some st"
    and "map_option Cond_Reason (cond_of ty (Status_Conditions (Status c'))) = Some reason"
  using assms set_law
  by (fastforce simp: set_cond_now_def Now_def call_def SetStatusCondition_def put_conditions_def mk_cond_def
      split: prod.splits)+

lemma set_cond_gen_status:
  assumes "run_state (set_cond_gen S c ty st reason msg) s = (c', t)"
  shows "map_option Cond_Status (cond_of ty (Status_Conditions (Status c'))) = Some st"
  using assms set_law
  by (fastforce simp: set_cond_gen_def call_def SetStatusCondition_def put_conditions_def mk_cond_def
      split: prod.splits)

lemma set_cond_other:
  assumes "run_state (set_cond_now S c ty st reason msg) s = (c', t)" "ty' \<noteq> ty"
  shows "cond_of ty' (Status_Conditions (Status c')) = cond_of ty' (Status_Conditions (Status c))"
  using assms set_other
  by (fastforce simp: set_cond_now_def Now_def call_def SetStatusCondition_def put_conditions_def mk_cond_def
      split: prod.splits)

end

lemma find_append: "find P (xs @ ys) = (case find P xs of None \<Rightarrow> find P ys | Some y \<Rightarrow> Some y)"
  by (induction xs) auto

lemma find_type_None: "(\<not> list_ex (\<lambda>d. Cond_Type d = ty) cs) \<longleftrightarrow> find (\<lambda>d. Cond_Type d = ty) cs = None"
  by (induction cs) auto

interpretation sim_conditions: condition_laws "sim_sys sv" for sv
proof
  fix cs :: "condition list" and n :: condition and w :: sim and cs' w' ty ty'
  {
    assume "set_condition (sim_sys sv) cs n w = (cs', w')"
    then have cs': "cs' = ref_set_condition cs n (sim_now w)" by (auto simp: sim_sys_def)
    have same: "list_ex (\<lambda>d. Cond_Type d = Cond_Type n) cs \<Longrightarrow>
        map_option (\<lambda>d. (Cond_Status d, Cond_Reason d, Cond_Message d))
          (find (\<lambda>d. Cond_Type d = Cond_Type n) (ref_set_condition cs n (sim_now w)))
        = Some (Cond_Status n, Cond_Reason n, Cond_Message n)"
      unfolding ref_set_condition_def by (simp, induction cs) auto
    show "map_option (\<lambda>d. (Cond_Status d, Cond_Reason d, Cond_Message d)) (cond_of (Cond_Type n) cs')
        = Some (Cond_Status n, Cond_Reason n, Cond_Message n)"
      using same find_type_None [of "Cond_Type n" cs]
      by (cases "list_ex (\<lambda>d. Cond_Type d = Cond_Type n) cs")
         (simp_all add: cs' cond_of_def ref_set_condition_def find_append)
    assume ne: "ty \<noteq> Cond_Type n"
    have "find (\<lambda>d. Cond_Type d = ty) (map (\<lambda>c. if Cond_Type c \<noteq> Cond_Type n then c else f c) cs)
        = find (\<lambda>d. Cond_Type d = ty) cs" if "\<And>c. Cond_Type (f c) = Cond_Type n" for f
      using ne that by (induction cs) auto
    then show "cond_of ty cs' = cond_of ty cs"
      unfolding cs' cond_of_def ref_set_condition_def
      using ne by (auto simp: find_append split: option.split)
  }
  show "cond_of ty (remove_condition (sim_sys sv) cs ty) = None"
    by (induction cs) (auto simp: cond_of_def sim_sys_def ref_remove_condition_def)
  assume "ty' \<noteq> ty"
  then show "cond_of ty' (remove_condition (sim_sys sv) cs ty) = cond_of ty' cs"
    by (induction cs) (auto simp: cond_of_def sim_sys_def ref_remove_condition_def)
qed

section \<open>Adding members\<close>

lemma collect_spec:
  assumes "\<And>x s y t. run_state (f x) s = (y, t) \<Longrightarrow> \<exists>e. log t = log s @ [e] \<and> R x y e"
    and "run_state (collect xs f) s = (ys, t)"
  shows "\<exists>es. log t = log s @ es \<and> length ys = length xs \<and> length es = length xs \<and>
     (\<forall>k<length xs. R (xs ! k) (ys ! k) (es ! k))"
  using assms(2)
proof (induction xs arbitrary: s ys t)
  case (Cons x xs)
  obtain y u where y: "run_state (f x) s = (y, u)" by (rule runE)
  obtain ws v where ws: "run_state (collect xs f) u = (ws, v)" by (rule runE)
  have eq: "ys = y # ws" "t = v" using Cons.prems y ws by simp_all
  obtain e where e: "log u = log s @ [e]" "R x y e" using assms(1) [OF y] by blast
  obtain es where es: "log v = log u @ es" "length ws = length xs" "length es = length xs"
    "\<forall>k<length xs. R (xs ! k) (ws ! k) (es ! k)" using Cons.IH [OF ws] by blast
  show ?case
    by (rule exI [of _ "e # es"]) (use e es eq in \<open>auto simp: nth_Cons split: nat.split\<close>)
qed simp

definition nodes_query :: "HyperbytedbCluster \<Rightarrow> int \<Rightarrow> event \<Rightarrow> bool" where
  "nodes_query c i e \<longleftrightarrow> http_to MethodGet (endpoint (pod_host c i) (ServerPort c) ''/cluster/nodes'') None e"

definition nodes_answer :: "event \<Rightarrow> NodeInfo list result" where
  "nodes_answer e = result_of (fetched ''cluster/nodes'' ''decoding cluster nodes'' set_nodesResponse []) e"

definition current_ids :: "NodeInfo list result \<Rightarrow> int set" where
  "current_ids r = (case r of Inl _ \<Rightarrow> {} | Inr ns \<Rightarrow> (\<lambda>n. u64 (NI_NodeID n)) ` {n \<in> set ns. \<not> isDepartedState (NI_State n)})"

definition view_ok :: "HyperbytedbCluster \<Rightarrow> int \<Rightarrow> podView \<Rightarrow> event \<Rightarrow> bool" where
  "view_ok c i v e \<longleftrightarrow> nodes_query c i e \<and>
     v = \<lparr> PV_ordinal = i, PV_host = pod_host c i, PV_nodeID = u64 (i + 1),
           PV_addr = pod_host c i @ '':'' @ dec (ServerPort c), PV_reachable = isOk (nodes_answer e),
           PV_nodes = (case nodes_answer e of Inl _ \<Rightarrow> [] | Inr ns \<Rightarrow> ns) \<rparr>"

lemma view_pod_ok:
  assumes "run_state (view_pod S tok c i) s = (v, t)"
  shows "\<exists>e. log t = log s @ [e] \<and> view_ok c i v e"
proof -
  obtain r u where r: "run_state (GetClusterNodes S tok (pod_host c i) (ServerPort c)) s = (r, u)" by (rule runE)
  obtain e where "log u = log s @ [e]" "nodes_query c i e" "r = nodes_answer e"
    using exchange_one [OF r [unfolded GetClusterNodes_def]] by (metis nodes_query_def nodes_answer_def)
  with assms r show ?thesis by (auto simp: view_pod_def Let_def view_ok_def)
qed

lemma collect_views:
  assumes "run_state (collect (ords_up 0 n) (view_pod S tok c)) s = (vs, t)"
  shows "\<exists>es. log t = log s @ es \<and> list_all (\<lambda>e. \<exists>i. nodes_query c i e) es \<and>
     (\<forall>v\<in>set vs. \<exists>i\<in>{0..<n}. \<exists>e\<in>set es. view_ok c i v e) \<and>
     (\<forall>i\<in>{0..<n}. \<exists>v\<in>set vs. \<exists>e\<in>set es. view_ok c i v e)"
proof -
  obtain es where es: "log t = log s @ es" "length vs = length (ords_up 0 n)" "length es = length (ords_up 0 n)"
    "\<forall>k<length (ords_up 0 n). view_ok c (ords_up 0 n ! k) (vs ! k) (es ! k)"
    using collect_spec [where R = "view_ok c", OF view_pod_ok [of S tok c] assms] by blast
  have at: "k < length vs \<Longrightarrow> ords_up 0 n ! k \<in> {0..<n}" for k
    using es(2) by (metis nth_mem set_ords(1))
  have "\<exists>i\<in>{0..<n}. \<exists>e\<in>set es. view_ok c i v e" if v: "v \<in> set vs" for v
    using v es(2-4) at by (metis in_set_conv_nth)
  moreover have "\<exists>v\<in>set vs. \<exists>e\<in>set es. view_ok c i v e" if "i \<in> {0..<n}" for i
    using that es(2-4) by (metis in_set_conv_nth set_ords(1))
  moreover have "list_all (\<lambda>e. \<exists>i. nodes_query c i e) es"
    unfolding list_all_length using es(3,4) by (metis view_ok_def)
  ultimately show ?thesis using es(1) by blast
qed

definition names_leader :: "string \<Rightarrow> int \<Rightarrow> int \<Rightarrow> event \<Rightarrow> bool" where
  "names_leader h port l e \<longleftrightarrow> http_to MethodGet (endpoint h port ''/cluster/leader'') None e \<and>
     (case result_of (fetched ''cluster/leader'' ''decoding cluster leader'' set_LeaderInfo zero_LeaderInfo) e of
        Inl _ \<Rightarrow> False | Inr info \<Rightarrow> LI_LeaderID info = Some l)"

lemma find_leader_spec:
  "run_state (find_leader S tok views port vs) s = ((h, l), t) \<Longrightarrow> set vs \<subseteq> set views \<Longrightarrow>
   \<exists>es. log t = log s @ es \<and> (h = [] \<or>
     (\<exists>v\<in>set views. \<exists>e\<in>set es. names_leader (PV_host v) port l e) \<and>
     (\<exists>w\<in>set views. PV_host w = h \<and> PV_nodeID w = l))"
proof (induction vs arbitrary: s)
  case (Cons v vs)
  let ?rest = "find_leader S tok views port vs"
  obtain r u where r: "run_state (GetClusterLeader S tok (PV_host v) port) s = (r, u)" by (rule runE)
  obtain e where e: "log u = log s @ [e]" "http_to MethodGet (endpoint (PV_host v) port ''/cluster/leader'') None e"
    "r = result_of (fetched ''cluster/leader'' ''decoding cluster leader'' set_LeaderInfo zero_LeaderInfo) e"
    using exchange_one [OF r [unfolded GetClusterLeader_def]] by metis
  consider (skip) "run_state ?rest s = ((h, l), t)" | (asked) "run_state ?rest u = ((h, l), t)"
    | (found) info where "r = Inr info" "LI_LeaderID info = Some l" "t = u"
        "l = PV_nodeID v \<and> h = PV_host v \<or> (\<exists>w. find (\<lambda>w. PV_nodeID w = l) views = Some w \<and> h = PV_host w)"
    using Cons.prems(1) r by (auto split: if_splits sum.splits option.splits)
  then show ?case
  proof cases
    case asked
    obtain es where es: "log t = log s @ e # es" "h = [] \<or>
        (\<exists>v\<in>set views. \<exists>e\<in>set es. names_leader (PV_host v) port l e) \<and>
        (\<exists>w\<in>set views. PV_host w = h \<and> PV_nodeID w = l)"
      using Cons.IH [OF asked] Cons.prems(2) e(1) by auto
    have "set es \<subseteq> set (e # es)" by auto
    with es show ?thesis by (intro exI [of _ "e # es"]) blast
  next
    case found
    have "names_leader (PV_host v) port l e"
      using e(2) found(2) unfolding names_leader_def e(3) [symmetric] found(1) by simp
    then show ?thesis
      using found(3,4) Cons.prems(2) e(1) by (intro exI [of _ "[e]"]) (auto simp: find_Some_iff)
  qed (use Cons in auto)
qed simp

lemma emits_find_leader:
  "(\<And>h e. http_to MethodGet (endpoint h port ''/cluster/leader'') None e \<Longrightarrow> P e) \<Longrightarrow>
   emits P (find_leader S tok views port vs)"
  by (induction vs) (auto intro!: emits_intro emits_client)

definition add_request :: "HyperbytedbCluster \<Rightarrow> string \<Rightarrow> int \<Rightarrow> event \<Rightarrow> bool" where
  "add_request c h i e \<longleftrightarrow>
     http_to MethodPost (endpoint h (ServerPort c) ''/cluster/membership/add-node'')
       (Some (add_node_body (u64 (i + 1)) (pod_host c i @ '':'' @ dec (ServerPort c)) True)) e"

definition add_ok :: "event \<Rightarrow> bool" where
  "add_ok e \<longleftrightarrow> isOk (result_of (changed_member ''membership/add-node'' ''decoding add-node response''
     set_AddNodeResponse zero_AddNodeResponse) e)"

lemma emits_add_missing:
  "(\<And>v e. v \<in> set vs \<Longrightarrow> PV_reachable v \<Longrightarrow> PV_nodeID v \<notin> set known \<Longrightarrow>
     http_to MethodPost (endpoint h port ''/cluster/membership/add-node'')
       (Some (add_node_body (PV_nodeID v) (PV_addr v) True)) e \<Longrightarrow> P e) \<Longrightarrow>
   (\<And>a b d. P (EvRecord a b d)) \<Longrightarrow> emits P (add_missing S tok h port known vs)"
  by (induction vs) (auto intro!: emits_intro emits_client)

lemma add_missing_all:
  "run_state (add_missing S tok h port known vs) s = (True, t) \<Longrightarrow>
   \<exists>es. log t = log s @ es \<and> (\<forall>v\<in>set vs. PV_reachable v \<and> (PV_nodeID v \<in> set known \<or>
     (\<exists>e\<in>set es. add_ok e \<and> http_to MethodPost (endpoint h port ''/cluster/membership/add-node'')
       (Some (add_node_body (PV_nodeID v) (PV_addr v) True)) e)))"
proof (induction vs arbitrary: s)
  case (Cons v vs)
  then have reach: "PV_reachable v" by (auto split: if_splits prod.splits)
  show ?case
  proof (cases "PV_nodeID v \<in> set known")
    case True
    with Cons reach show ?thesis by auto
  next
    case False
    obtain r u where r: "run_state (AddClusterNode S tok h port (PV_nodeID v) (PV_addr v) True) s = (r, u)"
      by (rule runE)
    obtain e where e: "log u = log s @ [e]" "add_ok e = isOk r"
      "http_to MethodPost (endpoint h port ''/cluster/membership/add-node'')
         (Some (add_node_body (PV_nodeID v) (PV_addr v) True)) e"
      using exchange_one [OF r [unfolded AddClusterNode_def]] by (metis add_ok_def)
    from Cons.prems reach False r obtain resp where resp: "r = Inr resp"
      by (cases r) (auto split: prod.splits)
    define msg where "msg = ''Added node '' @ dec (PV_nodeID v) @ '' ('' @ PV_addr v
              @ '') to raft cluster (promoted='' @ fmt_t (AN_PromotedToVoter resp) @ '')''"
    have rest: "run_state (add_missing S tok h port known vs)
        (u\<lparr> log := log u @ [EvRecord ''Normal'' ''MemberAdded'' msg] \<rparr>) = (True, t)"
      using Cons.prems reach False r resp by (simp add: RecordEvent_def emit_def msg_def)
    obtain es where es: "log t = log u @ EvRecord ''Normal'' ''MemberAdded'' msg # es"
      "\<forall>v\<in>set vs. PV_reachable v \<and> (PV_nodeID v \<in> set known \<or> (\<exists>e\<in>set es. add_ok e \<and>
         http_to MethodPost (endpoint h port ''/cluster/membership/add-node'')
           (Some (add_node_body (PV_nodeID v) (PV_addr v) True)) e))"
      using Cons.IH [OF rest] by auto
    show ?thesis
      by (rule exI [of _ "e # EvRecord ''Normal'' ''MemberAdded'' msg # es"]) (use es e resp reach in auto)
  qed
qed simp

text \<open>
  A pod of the cluster has named node \<open>l\<close> as the Raft leader, and \<open>h\<close> is the host of that node.
\<close>

definition leader_seen :: "HyperbytedbCluster \<Rightarrow> int \<Rightarrow> event list \<Rightarrow> string \<Rightarrow> int \<Rightarrow> bool" where
  "leader_seen c n es h l \<longleftrightarrow>
     (\<exists>i\<in>{0..<n}. \<exists>e\<in>set es. names_leader (pod_host c i) (ServerPort c) l e) \<and>
     (\<exists>j\<in>{0..<n}. u64 (j + 1) = l \<and> pod_host c j = h)"

text \<open>
  An add request is justified by the earlier events when it is sent to a leader seen there, for a
  pod that answered, is not the leader, and is absent from an answer of the leader's host.
\<close>

definition justified_add :: "HyperbytedbCluster \<Rightarrow> int \<Rightarrow> event list \<Rightarrow> event \<Rightarrow> bool" where
  "justified_add c n es e \<longleftrightarrow>
     (\<exists>h l. leader_seen c n es h l \<and>
       (\<exists>i\<in>{0..<n}. \<exists>j\<in>{0..<n}. \<exists>qi\<in>set es. \<exists>qj\<in>set es.
          nodes_query c i qi \<and> isOk (nodes_answer qi) \<and> u64 (i + 1) \<noteq> l \<and>
          pod_host c j = h \<and> nodes_query c j qj \<and> u64 (i + 1) \<notin> current_ids (nodes_answer qj) \<and>
          add_request c h i e))"

lemma set_known_ids:
  "set (known_ids views h l) =
     insert l (\<Union>v\<in>{v \<in> set views. PV_host v = h}. (\<lambda>n. u64 (NI_NodeID n)) ` {n \<in> set (PV_nodes v). \<not> isDepartedState (NI_State n)})"
  by (auto simp: known_ids_def)

lemma current_ids_view:
  "view_ok c i v e \<Longrightarrow> (\<lambda>n. u64 (NI_NodeID n)) ` {n \<in> set (PV_nodes v). \<not> isDepartedState (NI_State n)} = current_ids (nodes_answer e)"
  by (auto simp: view_ok_def current_ids_def split: sum.splits)

lemma emits_set_cond_now: "emits P (set_cond_now S c ty st reason msg)"
  unfolding set_cond_now_def by (intro emits_intro)

lemma set_cond_now_log:
  assumes "run_state (set_cond_now S c ty st reason msg) s = (c', t)"
  shows "log t = log s"
  using emitsD [OF emits_set_cond_now [of "\<lambda>_. False"] assms] by (metis append_Nil2 list.pred_inject(2) neq_Nil_conv)

text \<open>One pass of the membership reconciliation, taken apart.\<close>

lemma membership_run:
  assumes run: "run_state (reconcileClusterMembership S tok c n) s = (c', t)"
  obtains (no_leader) es u where
      "log u = log s @ es" "list_all (\<lambda>e. \<not> (\<exists>u b. http_to MethodPost u b e)) es"
      "run_state (set_cond_now S c conditionClusterFormed ConditionFalse ''NoLeader'' ''No raft leader reachable yet'') u = (c', t)"
  | (leader) vs es u h l all v d st reason msg where
      "log u = log s @ es" "list_all (\<lambda>e. \<not> (\<exists>u b. http_to MethodPost u b e)) es"
      "\<forall>v\<in>set vs. \<exists>i\<in>{0..<n}. \<exists>e\<in>set es. view_ok c i v e"
      "\<forall>i\<in>{0..<n}. \<exists>v\<in>set vs. \<exists>e\<in>set es. view_ok c i v e"
      "\<exists>v\<in>set vs. PV_host v = h" "leader_seen c n es h l"
      "run_state (add_missing S tok h (ServerPort c) (known_ids vs h l) vs) u = (all, v)"
      "run_state (set_cond_now S d conditionClusterFormed st reason msg) v = (c', t)"
      "st = (if all \<and> int (length (known_ids vs h l)) \<ge> n then ConditionTrue else ConditionFalse)"
proof -
  obtain vs u0 where vs: "run_state (collect (ords_up 0 n) (view_pod S tok c)) s = (vs, u0)" by (rule runE)
  obtain es0 where es0: "log u0 = log s @ es0" "list_all (\<lambda>e. \<exists>i. nodes_query c i e) es0"
    "\<forall>v\<in>set vs. \<exists>i\<in>{0..<n}. \<exists>e\<in>set es0. view_ok c i v e"
    "\<forall>i\<in>{0..<n}. \<exists>v\<in>set vs. \<exists>e\<in>set es0. view_ok c i v e" using collect_views [OF vs] by blast
  obtain hl u where hl: "run_state (findLeader S tok vs (ServerPort c)) u0 = (hl, u)" by (rule runE)
  obtain h l where [simp]: "hl = (h, l)" by fastforce
  let ?get = "\<lambda>e. \<not> (\<exists>u b. http_to MethodPost u b e)"
  have get: "http_to MethodGet u b e \<Longrightarrow> ?get e" for u b e using http_to_unique by blast
  obtain es1 where es1: "log u = log u0 @ es1" "list_all ?get es1"
    using emitsD [OF emits_find_leader [of "ServerPort c" ?get S tok vs vs] hl [unfolded findLeader_def]] get by blast
  have es: "log u = log s @ es0 @ es1" "list_all ?get (es0 @ es1)"
    using es0(1,2) es1 get by (auto simp: list_all_iff nodes_query_def)
  show thesis
  proof (cases "h = []")
    case True
    have "run_state (set_cond_now S c conditionClusterFormed ConditionFalse ''NoLeader'' ''No raft leader reachable yet'') u = (c', t)"
      using run vs hl True by (simp add: reconcileClusterMembership_def Let_def)
    with es show thesis by (rule no_leader)
  next
    case False
    have named: "(\<exists>v\<in>set vs. \<exists>e\<in>set es1. names_leader (PV_host v) (ServerPort c) l e)"
      "\<exists>w\<in>set vs. PV_host w = h \<and> PV_nodeID w = l"
      using find_leader_spec [OF hl [unfolded findLeader_def \<open>hl = (h, l)\<close>]] False es1(1) by auto
    have h: "\<exists>v\<in>set vs. PV_host v = h" using named(2) by blast
    have at: "v \<in> set vs \<Longrightarrow> \<exists>i\<in>{0..<n}. PV_host v = pod_host c i \<and> PV_nodeID v = u64 (i + 1)" for v
      using es0(3) by (force simp: view_ok_def)
    have seen: "leader_seen c n (es0 @ es1) h l"
      unfolding leader_seen_def set_append using named at by (metis UnI2)
    obtain all v where add: "run_state (add_missing S tok h (ServerPort c) (known_ids vs h l) vs) u = (all, v)" by (rule runE)
    have views: "\<forall>v\<in>set vs. \<exists>i\<in>{0..<n}. \<exists>e\<in>set (es0 @ es1). view_ok c i v e"
      "\<forall>i\<in>{0..<n}. \<exists>v\<in>set vs. \<exists>e\<in>set (es0 @ es1). view_ok c i v e"
      using es0(3,4) unfolding set_append by blast+
    have "\<exists>d reason msg. run_state (set_cond_now S d conditionClusterFormed
        (if all \<and> int (length (known_ids vs h l)) \<ge> n then ConditionTrue else ConditionFalse) reason msg) v = (c', t)"
      using run vs hl False add by (auto simp: reconcileClusterMembership_def Let_def split: if_splits)
    then show thesis using leader [OF es views h seen add _ refl] by blast
  qed
qed

lemma membership_adds:
  assumes "run_state (reconcileClusterMembership S tok c n) s = (c', t)"
  shows "\<exists>es. log t = log s @ es \<and> (\<forall>e\<in>set es. (\<exists>u b. http_to MethodPost u b e) \<longrightarrow> justified_add c n es e)"
  using assms
proof (cases rule: membership_run)
  case (no_leader es u)
  then show ?thesis
    using set_cond_now_log [OF no_leader(3)] by (intro exI [of _ es]) (auto simp: list_all_iff)
next
  case (leader vs es u h l all v d st reason msg)
  let ?P = "\<lambda>e. (\<exists>u b. http_to MethodPost u b e) \<longrightarrow> justified_add c n es e"
  have "emits ?P (add_missing S tok h (ServerPort c) (known_ids vs h l) vs)"
  proof (rule emits_add_missing)
    fix w e
    assume w: "w \<in> set vs" "PV_reachable w" "PV_nodeID w \<notin> set (known_ids vs h l)"
      and e: "http_to MethodPost (endpoint h (ServerPort c) ''/cluster/membership/add-node'')
         (Some (add_node_body (PV_nodeID w) (PV_addr w) True)) e"
    obtain i qi where i: "i \<in> {0..<n}" "qi \<in> set es" "view_ok c i w qi" using leader(3) w(1) by blast
    obtain x j qj where j: "x \<in> set vs" "PV_host x = h" "j \<in> {0..<n}" "qj \<in> set es" "view_ok c j x qj"
      using leader(3,5) by blast
    have "h = pod_host c j" using j(2,5) by (simp add: view_ok_def)
    moreover have id: "PV_nodeID w = u64 (i + 1)" using i(3) by (simp add: view_ok_def)
    moreover have "u64 (i + 1) \<notin> current_ids (nodes_answer qj)"
      using w(3) j(1,2) current_ids_view [OF j(5)] unfolding set_known_ids id by blast
    moreover have "u64 (i + 1) \<noteq> l" using w(3) unfolding set_known_ids id by blast
    moreover have facts: "nodes_query c i qi" "isOk (nodes_answer qi)" "nodes_query c j qj" "add_request c h i e"
      using i(3) j(5) w(2) e by (auto simp: view_ok_def add_request_def)
    ultimately show "?P e"
      using i(1,2) j(3,4) leader(6) facts unfolding justified_add_def by metis
  qed simp
  then obtain fs where fs: "log v = log u @ fs" "list_all ?P fs" using leader(7) by (rule emitsD)
  have t: "log t = log v" by (rule set_cond_now_log [OF leader(8)])
  have "justified_add c n es e \<Longrightarrow> justified_add c n (es @ fs) e" for e
    unfolding justified_add_def leader_seen_def set_append by blast
  with leader(1,2) fs t show ?thesis
    by (intro exI [of _ "es @ fs"]) (auto simp: list_all_iff)
qed

text \<open>Evidence that pod \<open>i\<close> is a Raft member: the leader's list, the leader itself, or an accepted add.\<close>

definition member_evidence :: "HyperbytedbCluster \<Rightarrow> int \<Rightarrow> event list \<Rightarrow> string \<Rightarrow> int \<Rightarrow> int \<Rightarrow> bool" where
  "member_evidence c n es h l i \<longleftrightarrow>
     (\<exists>q\<in>set es. nodes_query c i q \<and> isOk (nodes_answer q)) \<and>
     (u64 (i + 1) = l \<or>
      (\<exists>j\<in>{0..<n}. \<exists>q\<in>set es. pod_host c j = h \<and> nodes_query c j q \<and> u64 (i + 1) \<in> current_ids (nodes_answer q)) \<or>
      (\<exists>e\<in>set es. add_request c h i e \<and> add_ok e))"

definition cond_true :: "string \<Rightarrow> HyperbytedbCluster \<Rightarrow> bool" where
  "cond_true ty c \<longleftrightarrow> map_option Cond_Status (cond_of ty (Status_Conditions (Status c))) = Some ConditionTrue"

lemma membership_formed:
  assumes laws: "condition_laws S"
    and run: "run_state (reconcileClusterMembership S tok c n) s = (c', t)"
    and true: "cond_true ''ClusterFormed'' c'"
  shows "\<exists>es h l. log t = log s @ es \<and> leader_seen c n es h l \<and> (\<forall>i\<in>{0..<n}. member_evidence c n es h l i)"
  using run
proof (cases rule: membership_run)
  case (no_leader es u)
  have "Some ConditionFalse = Some ConditionTrue"
    using condition_laws.set_cond_now_status(1) [OF laws no_leader(3) [unfolded conditionClusterFormed_def]] true
    unfolding cond_true_def by (rule trans [OF sym])
  then show ?thesis by simp
next
  case (leader vs es u h l all v d st reason msg)
  have "st = ConditionTrue"
    using condition_laws.set_cond_now_status(1) [OF laws leader(8) [unfolded conditionClusterFormed_def]] true
    unfolding cond_true_def by (metis option.inject)
  with leader(9) have all: all by (simp split: if_splits)
  with leader(7) obtain fs where fs: "log v = log u @ fs"
    "\<forall>w\<in>set vs. PV_reachable w \<and> (PV_nodeID w \<in> set (known_ids vs h l) \<or>
       (\<exists>e\<in>set fs. add_ok e \<and> http_to MethodPost (endpoint h (ServerPort c) ''/cluster/membership/add-node'')
         (Some (add_node_body (PV_nodeID w) (PV_addr w) True)) e))"
    using add_missing_all by metis
  have "member_evidence c n (es @ fs) h l i" if i: "i \<in> {0..<n}" for i
  proof -
    obtain w q where w: "w \<in> set vs" "q \<in> set es" "view_ok c i w q" using leader(4) i by blast
    have ok: "nodes_query c i q" "isOk (nodes_answer q)" "PV_nodeID w = u64 (i + 1)"
      "PV_addr w = pod_host c i @ '':'' @ dec (ServerPort c)"
      using w fs(2) by (auto simp: view_ok_def)
    consider (leader) "u64 (i + 1) = l" | (listed) x where "x \<in> set vs" "PV_host x = h"
        "u64 (i + 1) \<in> (\<lambda>n. u64 (NI_NodeID n)) ` {n \<in> set (PV_nodes x). \<not> isDepartedState (NI_State n)}"
      | (added) e where "e \<in> set fs" "add_ok e" "add_request c h i e"
    proof -
      have "PV_nodeID w \<in> set (known_ids vs h l) \<or> (\<exists>e\<in>set fs. add_ok e \<and> add_request c h i e)"
        using fs(2) w(1) ok(3,4) unfolding add_request_def by metis
      then show thesis using that ok(3) unfolding set_known_ids by auto
    qed
    then show ?thesis
    proof cases
      case (listed x)
      obtain j qj where j: "j \<in> {0..<n}" "qj \<in> set es" "view_ok c j x qj" using leader(3) listed(1) by blast
      then have "pod_host c j = h" "nodes_query c j qj" using listed(2) by (auto simp: view_ok_def)
      moreover have "u64 (i + 1) \<in> current_ids (nodes_answer qj)" using listed(3) current_ids_view [OF j(3)] by simp
      ultimately show ?thesis
        using ok(1,2) w(2) j(1,2) unfolding member_evidence_def set_append by blast
    qed (use ok(1,2) w(2) in \<open>auto simp: member_evidence_def\<close>)
  qed
  moreover have "leader_seen c n (es @ fs) h l" using leader(6) unfolding leader_seen_def set_append by blast
  ultimately show ?thesis
    using leader(1) fs(1) set_cond_now_log [OF leader(8)] by (intro exI [of _ "es @ fs"] exI [of _ h] exI [of _ l]) auto
qed

section \<open>Failover\<close>

definition is_delete :: "event \<Rightarrow> bool" where
  "is_delete e = (case e of EvDelete _ _ _ \<Rightarrow> True | _ \<Rightarrow> False)"

lemma failover_loop_spec:
  "run_state (failover_loop S c timeout ms) s = ((c', r), t) \<Longrightarrow>
   \<exists>es. log t = log s @ es \<and>
     length (filter is_delete es) \<le> 1 \<and>
     (c' = c \<or> c' = count_failover c \<and> length (filter is_delete es) = 1)"
proof (induction ms arbitrary: s)
  case (Cons m ms)
  let ?rest = "failover_loop S c timeout ms"
  obtain now u where now: "run_state (Now S) s = (now, u)" by (rule runE)
  have lu: "log u = log s" using now by (auto simp: Now_def call_def split: prod.splits)
  consider (skip) "run_state ?rest s = ((c', r), t)" | (young) "run_state ?rest u = ((c', r), t)"
    | (old) "now - Mem_LastTransitionTime m \<ge> timeout" "\<not> (Mem_State m = ''Syncing'' \<or> Mem_State m = ''Joining'')"
    using Cons.prems now by (auto split: if_splits simp: Let_def)
  then show ?case
  proof cases
    case old
    obtain g v where g: "run_state (Get KPod (api_pod S) (nn_of c (Mem_PodName m))) u = (g, v)" by (rule runE)
    have lv: "log v = log s @ [EvGet (nn_of c (Mem_PodName m)) (map_sum id KPod g)]" using run_Get [OF g] lu by simp
    show ?thesis
    proof (cases g)
      case (Inl e)
      show ?thesis
      proof (cases "IsNotFound e")
        case True
        with Cons.prems now old g Inl have "run_state ?rest v = ((c', r), t)" by (simp add: Let_def)
        from Cons.IH [OF this] lv show ?thesis by (auto simp: is_delete_def)
      next
        case False
        with Cons.prems now old g Inl have "t = v" "c' = c" by (auto simp: Let_def)
        with lv show ?thesis by (auto simp: is_delete_def)
      qed
    next
      case (Inr p)
      obtain d w where d: "run_state (Delete KPod (api_pod S) p False) v = (d, w)" by (rule runE)
      have lw: "log w = log v @ [EvDelete (KPod p) False (err_of d)]" by (rule run_Delete [OF d])
      from Cons.prems now old g Inr d have "log t = log w \<and> c' = c \<or>
          (\<exists>a b m. log t = log w @ [EvRecord a b m]) \<and> c' = count_failover c"
        by (cases "ignoreNotFound d") (auto simp: Let_def RecordEvent_def emit_def)
      then show ?thesis unfolding lw lv by (auto simp: is_delete_def)
    qed
  qed (use Cons.IH lu in metis)+
qed simp

lemma failover_loop_young:
  assumes "\<And>m w. m \<in> set ms \<Longrightarrow> fst (sys_now S w) - Mem_LastTransitionTime m < timeout"
  shows "\<exists>x. run_state (failover_loop S c timeout ms) s = ((c, Inr ()), s\<lparr> ext := x \<rparr>)"
  using assms
proof (induction ms arbitrary: s)
  case Nil
  show ?case by (intro exI [of _ "ext s"]) simp
next
  case (Cons m ms)
  then have IH: "\<exists>x. run_state (failover_loop S c timeout ms) s' = ((c, Inr ()), s'\<lparr> ext := x \<rparr>)" for s' by simp
  obtain now x where now: "sys_now S (ext s) = (now, x)" by fastforce
  with Cons.prems [of m "ext s"] have "now - Mem_LastTransitionTime m < timeout" by simp
  then show ?case
    using IH [of s] IH [of "s\<lparr> ext := x \<rparr>"] now by (auto simp: Now_def call_def Let_def)
qed


lemma failover_loop_target:
  "run_state (failover_loop S c timeout ms) s = ((c', r), t) \<Longrightarrow>
   \<exists>es. log t = log s @ es \<and> (\<forall>obj orphan d. EvDelete obj orphan d \<in> set es \<longrightarrow>
     (\<exists>m\<in>set ms. Mem_State m \<notin> {''Syncing'', ''Joining''} \<and>
        EvGet (nn_of c (Mem_PodName m)) (Inr obj) \<in> set es))"
proof (induction ms arbitrary: s)
  case (Cons m ms)
  let ?rest = "failover_loop S c timeout ms"
  obtain now u where now: "run_state (Now S) s = (now, u)" by (rule runE)
  have lu: "log u = log s" using now by (auto simp: Now_def call_def split: prod.splits)
  obtain g v where g: "run_state (Get KPod (api_pod S) (nn_of c (Mem_PodName m))) u = (g, v)" by (rule runE)
  have lv: "log v = log s @ [EvGet (nn_of c (Mem_PodName m)) (map_sum id KPod g)]" using run_Get [OF g] lu by simp
  consider (skip) "run_state ?rest s = ((c', r), t)" | (young) "run_state ?rest u = ((c', r), t)"
    | (gone) "run_state ?rest v = ((c', r), t)" | (failed) "t = v"
    | (hit) p where "g = Inr p" "Mem_State m \<notin> {''Syncing'', ''Joining''}"
        "\<exists>d w. run_state (Delete KPod (api_pod S) p False) v = (d, w) \<and>
           (t = w \<or> (\<exists>a b x. log t = log w @ [EvRecord a b x]))"
    using Cons.prems now g
    by (cases g; cases "run_state (Delete KPod (api_pod S) (projr g) False) v";
        cases "ignoreNotFound (fst (run_state (Delete KPod (api_pod S) (projr g) False) v))")
       (auto split: if_splits simp: Let_def RecordEvent_def emit_def)
  then show ?case
  proof cases
    case hit
    then obtain d w where d: "run_state (Delete KPod (api_pod S) p False) v = (d, w)"
      "t = w \<or> (\<exists>a b x. log t = log w @ [EvRecord a b x])" by blast
    have "log w = log v @ [EvDelete (KPod p) False (err_of d)]" by (rule run_Delete [OF d(1)])
    then obtain fs where fs: "log t = log s @ EvGet (nn_of c (Mem_PodName m)) (Inr (KPod p)) # EvDelete (KPod p) False (err_of d) # fs"
      "\<forall>e\<in>set fs. \<exists>a b x. e = EvRecord a b x" using d(2) lv hit(1) by auto
    show ?thesis
      by (rule exI, rule conjI, rule fs(1)) (use fs(2) hit(2) in auto)
  next
    case gone
    then show ?thesis using Cons.IH [OF gone] lv by fastforce
  next
    case failed
    then show ?thesis using lv by auto
  qed (use Cons.IH lu in \<open>metis list.set_intros(2)\<close>)+
qed simp

section \<open>Properties\<close>

text \<open>
  C8. Raft membership: every POST of a membership pass is an add-node request sent to the host
  of the node that a pod of the cluster named as leader, for a pod that answered in this pass,
  is not the leader and is absent from the list of current members the leader's host returned.
\<close>

theorem membership_adds_justified:
  assumes "run_state (reconcileClusterMembership S tok c n) s = (c', t)"
  shows "\<exists>es. log t = log s @ es \<and> (\<forall>e\<in>set es. (\<exists>u b. http_to MethodPost u b e) \<longrightarrow> justified_add c n es e)"
  using assms by (rule membership_adds)

definition member_example :: HyperbytedbCluster where
  "member_example = new_cluster ''t'' ''p''"

definition nodes_json :: "int list \<Rightarrow> string" where
  "nodes_json ids = ''['' @ Join (map (\<lambda>i. json_object [(''node_id'', dec i), (''state'', json_string ''Active'')]) ids) '','' @ '']''"

text \<open>Pod 0 leads and knows only itself; pod 1 answers and is added.\<close>

definition member_http :: "(string \<times> http_resp) list" where
  "member_http =
    [(endpoint (pod_host member_example 0) 8086 ''/cluster/nodes'', ok_json [(''nodes'', nodes_json [1])]),
     (endpoint (pod_host member_example 1) 8086 ''/cluster/nodes'', ok_json [(''nodes'', nodes_json [2])]),
     (endpoint (pod_host member_example 0) 8086 ''/cluster/leader'', ok_json [(''leader_id'', dec 1)]),
     (endpoint (pod_host member_example 0) 8086 ''/cluster/membership/add-node'', ok_json [(''node_id'', dec 2)])]"

definition post_event :: "event \<Rightarrow> bool" where
  "post_event e = (case e of EvHttp q _ \<Rightarrow> Req_Method q = MethodPost | _ \<Rightarrow> False)"

definition member_run :: "HyperbytedbCluster \<times> sim world" where
  "member_run = run_state (reconcileClusterMembership (sim_sys plain_semver) [] member_example 2)
     (start (sim_empty\<lparr> sim_http := member_http \<rparr>))"

lemma post_event_http: "post_event e \<Longrightarrow> \<exists>u b. http_to MethodPost u b e"
  by (cases e) (auto simp: post_event_def)

theorem membership_adds_justified_witness:
  "\<exists>e. e \<in> set (log (snd member_run)) \<and> post_event e \<and> justified_add member_example 2 (log (snd member_run)) e"
proof -
  have "list_ex post_event (log (snd member_run))" by code_simp
  then obtain e where e: "e \<in> set (log (snd member_run))" "post_event e" by (auto simp: list_ex_iff)
  moreover have "\<forall>e\<in>set (log (snd member_run)). (\<exists>u b. http_to MethodPost u b e) \<longrightarrow>
      justified_add member_example 2 (log (snd member_run)) e"
    using membership_adds_justified [OF surjective_pairing, of "sim_sys plain_semver" "[]" member_example 2
        "start (sim_empty\<lparr> sim_http := member_http \<rparr>)"]
    unfolding member_run_def [symmetric] by (auto simp: start_def)
  ultimately show ?thesis using post_event_http [OF e(2)] by blast
qed

text \<open>
  C9. The condition \<^verbatim>\<open>ClusterFormed\<close> is sound: when a membership pass leaves it \<^verbatim>\<open>True\<close>, a pod
  named a leader, and every expected ordinal answered in this pass and is the leader, is listed
  as current by the leader's host, or was accepted by it as a new member.
\<close>

theorem membership_formed_sound:
  assumes "condition_laws S"
    and "run_state (reconcileClusterMembership S tok c n) s = (c', t)"
    and "cond_true ''ClusterFormed'' c'"
  shows "\<exists>es h l. log t = log s @ es \<and> leader_seen c n es h l \<and> (\<forall>i\<in>{0..<n}. member_evidence c n es h l i)"
  using assms by (rule membership_formed)

definition formed_run :: "HyperbytedbCluster \<times> sim world" where
  "formed_run = run_state (reconcileClusterMembership (sim_sys plain_semver) [] member_example 2)
     (start (sim_empty\<lparr> sim_http :=
        (endpoint (pod_host member_example 0) 8086 ''/cluster/nodes'', ok_json [(''nodes'', nodes_json [1, 2])]) # member_http \<rparr>))"

theorem membership_formed_sound_witness:
  "cond_true ''ClusterFormed'' (fst formed_run) \<and>
   (\<exists>h l. \<forall>i\<in>{0..<2}. member_evidence member_example 2 (log (snd formed_run)) h l i)"
proof
  show formed: "cond_true ''ClusterFormed'' (fst formed_run)" by code_simp
  show "\<exists>h l. \<forall>i\<in>{0..<2}. member_evidence member_example 2 (log (snd formed_run)) h l i"
    using membership_formed_sound [OF sim_conditions.condition_laws_axioms
        surjective_pairing [of formed_run, unfolded formed_run_def] formed [unfolded formed_run_def]]
    unfolding formed_run_def [symmetric] by (auto simp: start_def)
qed


definition failover_allowed :: "HyperbytedbCluster \<Rightarrow> bool" where
  "failover_allowed c = (case Spec_Failover (Spec c) of None \<Rightarrow> False
     | Some f \<Rightarrow> Fail_Enabled f \<and> Status_FailoverCount (Status c) < failover_limit f)"


definition failing_member :: MemberStatus where
  "failing_member = \<lparr> Mem_Name = ''t-1'', Mem_NodeID = 2, Mem_PodName = pod_name member_example 1,
     Mem_State = ''Unreachable'', Mem_Health = False, Mem_WALSequence = 0, Mem_ParquetFiles = 0,
     Mem_PeerCount = 0, Mem_LastTransitionTime = 0 \<rparr>"

definition failover_spec_example :: FailoverSpec where
  "failover_spec_example = \<lparr> Fail_Enabled = True, Fail_MaxFailoverCount = 1, Fail_FailoverTimeoutSecs = 30 \<rparr>"

definition failover_example :: HyperbytedbCluster where
  "failover_example = member_example\<lparr> Spec := (Spec member_example)\<lparr> Spec_Failover := Some failover_spec_example \<rparr> \<rparr>"

definition failing_pod :: pod where
  "failing_pod = \<lparr> Pod_Meta = new_meta (pod_name member_example 1) ''p'' Map.empty,
     Pod_IP = [], Pod_Conditions = [], Pod_ContainerStatuses = [] \<rparr>"

definition failover_run :: "(HyperbytedbCluster \<times> unit result) \<times> sim world" where
  "failover_run = run_state (handleAutoFailover (sim_sys plain_semver) failover_example [failing_member])
     (start (sim_empty\<lparr> sim_now := 31 * second, sim_pods := [(nn_of member_example (pod_name member_example 1), failing_pod)] \<rparr>))"


definition collect_and_failover ::
  "'w sys \<Rightarrow> string \<Rightarrow> HyperbytedbCluster \<Rightarrow> int \<Rightarrow> ('w, HyperbytedbCluster \<times> unit result) prog" where
  "collect_and_failover S tok c n = do {
     members \<leftarrow> CollectMemberStatuses S tok c (Namespace c) n;
     handleAutoFailover S c members }"

lemma collected_times:
  assumes "\<And>w. T \<le> fst (sys_now S w)"
  shows "\<forall>m\<in>set (fst (run_state (CollectMemberStatuses S tok c ns n) s)). T \<le> Mem_LastTransitionTime m"
proof -
  have one: "T \<le> Mem_LastTransitionTime (fst (run_state (collect_member S tok c ns i) s))" for i s
    using assms by (auto simp: collect_member_def Let_def Now_def call_def split: prod.splits sum.splits)
      (metis fst_conv)+
  have "\<forall>m\<in>set (fst (run_state (collect is (collect_member S tok c ns)) s)). T \<le> Mem_LastTransitionTime m" for "is" s
    using one by (induction "is" arbitrary: s) (auto split: prod.splits, metis fst_conv, metis fst_conv)
  then show ?thesis by (simp add: CollectMemberStatuses_def)
qed

text \<open>
  C21. As the controller uses it, failover does not fire: the members it is given are stamped
  with the time of their own collection, whatever transition times the status recorded, so
  their age is the duration of the pass. In a pass whose clock readings all lie within the
  failover timeout no pod is read or deleted and the count stays.
\<close>

theorem failover_never_due:
  assumes "Spec_Failover (Spec c) = Some f"
    and "\<And>w. T \<le> fst (sys_now S w) \<and> fst (sys_now S w) < T + failover_timeout f"
    and "run_state (CollectMemberStatuses S tok c (Namespace c) n) s = (members, u)"
  shows "\<exists>t. run_state (collect_and_failover S tok c n) s = ((c, Inr ()), t) \<and> log t = log u"
proof -
  have "\<forall>m\<in>set members. T \<le> Mem_LastTransitionTime m"
    using collected_times [of T S tok c "Namespace c" n s] assms(2,3) by simp
  then have young: "m \<in> set (FindUnhealthyMembers members) \<Longrightarrow>
      fst (sys_now S w) - Mem_LastTransitionTime m < failover_timeout f" for m w
    using assms(2) [of w] by (fastforce simp: FindUnhealthyMembers_def)
  obtain x where "run_state (failover_loop S c (failover_timeout f) (FindUnhealthyMembers members)) u
      = ((c, Inr ()), u\<lparr> ext := x \<rparr>)" using failover_loop_young [OF young] by blast
  then show ?thesis
    using assms(1,3) by (auto simp: collect_and_failover_def handleAutoFailover_def)
qed

text \<open>Pod 1 has been unreachable for an hour, by the status; the pass still deletes nothing.\<close>

definition stale_example :: HyperbytedbCluster where
  "stale_example = put_members [failing_member] failover_example"

definition hour_later :: "sim sys" where
  "hour_later = (sim_sys plain_semver)\<lparr> sys_now := (\<lambda>w. (3600 * second, w)) \<rparr>"

theorem failover_never_due_witness:
  "\<exists>t. run_state (collect_and_failover hour_later [] stale_example 2) (start sim_empty) = ((stale_example, Inr ()), t) \<and>
       list_all (\<lambda>e. \<not> is_delete e) (log t)"
proof -
  let ?m = "run_state (CollectMemberStatuses hour_later [] stale_example (Namespace stale_example) 2) (start sim_empty)"
  have f: "Spec_Failover (Spec stale_example) = Some failover_spec_example"
    by (simp add: stale_example_def put_members_def failover_example_def)
  have clock: "3600 * second \<le> fst (sys_now hour_later w) \<and>
      fst (sys_now hour_later w) < 3600 * second + failover_timeout failover_spec_example" for w
    by (simp add: hour_later_def failover_timeout_def failover_spec_example_def second_def)
  have "list_all (\<lambda>e. \<not> is_delete e) (log (snd ?m))" by code_simp
  with failover_never_due [OF f clock surjective_pairing, of "[]" 2 "start sim_empty"] show ?thesis by auto
qed

lemma length_filter_eq_length_iff: "length (filter P xs) = length xs \<longleftrightarrow> (\<forall>x\<in>set xs. P x)"
proof
  assume eq: "length (filter P xs) = length xs"
  show "\<forall>x\<in>set xs. P x"
  proof (rule ccontr)
    assume "\<not> (\<forall>x\<in>set xs. P x)"
    then obtain x where "x \<in> set xs" "\<not> P x" by blast
    from length_filter_less [of x xs P, OF this] eq show False by simp
  qed
qed simp

lemma length_filter_add:
  "length (filter P xs) + length (filter (\<lambda>x. \<not> P x \<and> Q x) xs) = length xs \<longleftrightarrow> (\<forall>x\<in>set xs. P x \<or> Q x)"
proof -
  have "length (filter P xs) + length (filter (\<lambda>x. \<not> P x \<and> Q x) xs) = length (filter (\<lambda>x. P x \<or> Q x) xs)"
    by (induction xs) auto
  then show ?thesis by (simp add: length_filter_eq_length_iff)
qed

text \<open>
  C30. The derived cluster state: \<^verbatim>\<open>Healthy\<close> exactly when there are members and none is
  unhealthy, \<^verbatim>\<open>Recovering\<close> when some are unhealthy and all of those are syncing or joining,
  otherwise \<^verbatim>\<open>Degraded\<close> or \<^verbatim>\<open>Unavailable\<close> by whether a healthy one is left; neither the order
  of the members nor repetitions matter.
\<close>

theorem DeriveClusterState_spec:
  "DeriveClusterState ms =
     (if ms = [] then ''Unknown''
      else if FindUnhealthyMembers ms = [] then ''Healthy''
      else if list_all (\<lambda>m. syncing_state (Mem_State m)) (FindUnhealthyMembers ms) then ''Recovering''
      else if list_ex Mem_Health ms then ''Degraded'' else ''Unavailable'') \<and>
   (set ns = set ms \<longrightarrow> DeriveClusterState ns = DeriveClusterState ms)"
proof -
  have all: "length (filter Mem_Health ms) = length ms \<longleftrightarrow> FindUnhealthyMembers ms = []" for ms
    by (simp add: FindUnhealthyMembers_def filter_empty_conv length_filter_eq_length_iff)
  have some: "length (filter Mem_Health ms) > 0 \<longleftrightarrow> list_ex Mem_Health ms" for ms
    by (auto simp: list_ex_iff filter_empty_conv)
  have sync: "length (filter (\<lambda>m. \<not> Mem_Health m \<and> syncing_state (Mem_State m)) ms) > 0 \<and>
      length (filter Mem_Health ms) + length (filter (\<lambda>m. \<not> Mem_Health m \<and> syncing_state (Mem_State m)) ms) = length ms
      \<longleftrightarrow> list_all (\<lambda>m. syncing_state (Mem_State m)) (FindUnhealthyMembers ms)"
    if "FindUnhealthyMembers ms \<noteq> []" for ms
    using that unfolding length_filter_add
    by (auto simp: FindUnhealthyMembers_def list_all_iff filter_empty_conv)
  have spec: "DeriveClusterState ms =
     (if ms = [] then ''Unknown''
      else if FindUnhealthyMembers ms = [] then ''Healthy''
      else if list_all (\<lambda>m. syncing_state (Mem_State m)) (FindUnhealthyMembers ms) then ''Recovering''
      else if list_ex Mem_Health ms then ''Degraded'' else ''Unavailable'')" for ms
    unfolding DeriveClusterState_def Let_def all some using sync by simp
  moreover have "DeriveClusterState ns = DeriveClusterState ms" if "set ns = set ms"
  proof -
    have "ns = [] \<longleftrightarrow> ms = []" using that by (metis set_empty)
    then show ?thesis
      unfolding spec FindUnhealthyMembers_def list_all_iff list_ex_iff filter_empty_conv set_filter that by simp
  qed
  ultimately show ?thesis by blast
qed

theorem DeriveClusterState_spec_witness:
  "DeriveClusterState [failing_member, failing_member\<lparr> Mem_Health := True \<rparr>] = ''Degraded''"
proof -
  let ?up = "failing_member\<lparr> Mem_Health := True \<rparr>"
  have "DeriveClusterState [failing_member, ?up] = DeriveClusterState [?up, failing_member]"
    using DeriveClusterState_spec [of "[?up, failing_member]" "[failing_member, ?up]"] by auto
  also have "\<dots> = ''Degraded''" by code_simp
  finally show ?thesis .
qed

definition gap_state :: "int \<Rightarrow> int \<Rightarrow> string" where
  "gap_state hi lo =
     (if 0 < hi \<and> lo < hi div 2 then ''Diverged'' else if 0 < hi \<and> lo < 8 * hi div 10 then ''Lagging'' else ''Healthy'')"

lemma foldl_max: "foldl max (x :: int) xs = Max (set (x # xs))"
  using Max.set_eq_fold [of x xs] by (metis foldl_conv_fold max.commute ext)
lemma foldl_min: "foldl min (x :: int) xs = Min (set (x # xs))"
  using Min.set_eq_fold [of x xs] by (metis foldl_conv_fold min.commute ext)

lemma replication_verdict_exact:
  assumes "0 \<le> lo" "hi \<le> 268435455"
  shows "fst (replication_verdict hi lo) = gap_state hi lo"
  using assms by (auto simp: replication_verdict_def gap_state_def quot_def i32_def)

text \<open>
  C31. The replication monitor: with two or more answers the state compares the largest and
  the smallest file count. Below 268435456 files, where the 32-bit product does not wrap, it
  is \<^verbatim>\<open>Diverged\<close> when the smallest is under half of the largest, \<^verbatim>\<open>Lagging\<close> under eight tenths
  and \<^verbatim>\<open>Healthy\<close> otherwise, and the condition is \<^verbatim>\<open>True\<close> exactly then.
\<close>

theorem monitorReplicationHealth_verdict:
  assumes laws: "condition_laws S"
    and q: "run_state (query_manifests S tok c (ords_up 0 n)) s = ((c1, ms), u)"
    and run: "run_state (monitorReplicationHealth S tok c n) s = (c', t)"
    and range: "\<forall>m\<in>set ms. 0 \<le> NM_parquetFiles m \<and> NM_parquetFiles m \<le> 268435455"
  shows "(let files = NM_parquetFiles ` set ms in
     Status_ReplicationState (Status c') = (if length ms < 2 then ''Unknown'' else gap_state (Max files) (Min files)) \<and>
     (cond_true ''ReplicationHealthy'' c' \<longleftrightarrow> Status_ReplicationState (Status c') = ''Healthy''))"
proof -
  have kept: "Status_ReplicationState (Status d') = Status_ReplicationState (Status d)"
    if "run_state (set_cond_now S d ty st reason msg) v = (d', w)" for d ty st reason msg v d' w
    using that by (auto simp: set_cond_now_def put_conditions_def split: prod.splits)
  have cond: "cond_true ty d' \<longleftrightarrow> st = ConditionTrue"
    if "run_state (set_cond_now S d ty st reason msg) v = (d', w)" for d ty st reason msg v d' w
    using condition_laws.set_cond_now_status(1) [OF laws that] unfolding cond_true_def by (metis option.inject)
  show ?thesis
  proof (cases "length ms < 2")
    case True
    then have "ms = [] \<or> (\<exists>m. ms = [m])" by (cases ms; cases "tl ms") auto
    then obtain reason msg where "run_state (set_cond_now S (put_replication ''Unknown'' c1) ''ReplicationHealthy''
        ConditionUnknown reason msg) u = (c', t)" using run q by (auto simp: monitorReplicationHealth_def)
    from kept [OF this] cond [OF this] True show ?thesis by (simp add: put_replication_def)
  next
    case False
    then obtain m n ms' where ms: "ms = m # n # ms'" by (metis length_Cons less_2_cases_iff list.exhaust list.size(3) One_nat_def)
    let ?files = "NM_parquetFiles ` set ms"
    have hi: "foldl max (NM_parquetFiles m) (map NM_parquetFiles (n # ms')) = Max ?files"
      and lo: "foldl min (NM_parquetFiles m) (map NM_parquetFiles (n # ms')) = Min ?files"
      unfolding foldl_max foldl_min ms by simp_all
    have bounds: "0 \<le> Min ?files" "Max ?files \<le> 268435455"
      using range ms by (auto simp: Min_ge_iff Max_le_iff simp del: Min_insert Max_insert)
    let ?v = "replication_verdict (Max ?files) (Min ?files)"
    obtain msg where "run_state (set_cond_now S (put_replication (fst ?v) c1) ''ReplicationHealthy''
        (if fst ?v \<noteq> ''Healthy'' then ConditionFalse else ConditionTrue) (snd ?v) msg) u = (c', t)"
      using run q hi lo unfolding monitorReplicationHealth_def ms
      by (cases ?v) (auto simp: Let_def ms simp del: foldl_Cons Min_insert Max_insert)
    from kept [OF this] cond [OF this] False show ?thesis
      unfolding replication_verdict_exact [OF bounds] by (simp add: put_replication_def Let_def)
  qed
qed

text \<open>Two nodes answer, with four files and one file: the data has diverged.\<close>

definition manifest_json :: "nat \<Rightarrow> http_resp" where
  "manifest_json n = ok_json [(''databases'', ''['' @ json_object [(''measurements'', ''['' @ json_object
     [(''parquet_files'', ''['' @ Join (replicate n ''{}'') '','' @ '']'')] @ '']'')] @ '']'')]"

definition manifest_start :: "sim world" where
  "manifest_start = start (sim_empty\<lparr> sim_http :=
     [(endpoint (pod_host member_example 0) 8086 ''/internal/sync/manifest'', manifest_json 4),
      (endpoint (pod_host member_example 1) 8086 ''/internal/sync/manifest'', manifest_json 1)] \<rparr>)"

theorem monitorReplicationHealth_verdict_witness:
  "Status_ReplicationState (Status (fst (run_state
     (monitorReplicationHealth (sim_sys plain_semver) [] member_example 2) manifest_start))) = ''Diverged''"
proof -
  let ?q = "run_state (query_manifests (sim_sys plain_semver) [] member_example (ords_up 0 2)) manifest_start"
  have q: "?q = ((fst (fst ?q), snd (fst ?q)), snd ?q)" by simp
  have files: "map NM_parquetFiles (snd (fst ?q)) = [4, 1]" by code_simp
  then have len: "length (snd (fst ?q)) = 2" by (metis length_map length_Cons list.size(3) numeral_2_eq_2)
  have img: "NM_parquetFiles ` set (snd (fst ?q)) = {4, 1}" using arg_cong [OF files, of set] by simp
  have "0 \<le> x \<and> x \<le> 268435455" if "x \<in> {4, 1 :: int}" for x using that by auto
  then have "\<forall>m\<in>set (snd (fst ?q)). 0 \<le> NM_parquetFiles m \<and> NM_parquetFiles m \<le> 268435455"
    using img by (metis imageI)
  from monitorReplicationHealth_verdict [OF sim_conditions.condition_laws_axioms q surjective_pairing this]
  show ?thesis unfolding img len Let_def by (simp add: gap_state_def)
qed

end
