(* ===== verification/Trace.thy ===== *)
theory Trace
  imports World
begin

text \<open>
  Reasoning about the events of one run: a calculus that executes a program symbolically, call by
  call, and the predicate that every event of a run is justified by the events before it.
\<close>

section \<open>Symbolic execution\<close>

text \<open>
  \<open>traces m R\<close>: every run of \<open>m\<close> adds events \<open>es\<close> to the log and returns a value \<open>a\<close> with
  \<open>R a es\<close>. The rules below run a program call by call, keeping the events in order.
\<close>

definition traces :: "('w, 'a) prog \<Rightarrow> ('a \<Rightarrow> event list \<Rightarrow> bool) \<Rightarrow> bool" where
  "traces m R \<longleftrightarrow> (\<forall>s. \<exists>es. log (snd (run_state m s)) = log s @ es \<and> R (fst (run_state m s)) es)"

named_theorems trace_intro \<open>symbolic execution of programs\<close>

lemma tracesI: "(\<And>s a t. run_state m s = (a, t) \<Longrightarrow> \<exists>es. log t = log s @ es \<and> R a es) \<Longrightarrow> traces m R"
  unfolding traces_def by (metis prod.collapse)

lemma tracesD:
  assumes "traces m R" "run_state m s = (a, t)"
  obtains es where "log t = log s @ es" "R a es"
  using assms unfolding traces_def by (metis fst_conv snd_conv)

lemma traces_bind:
  assumes m: "traces m Q" and f: "\<And>a es. Q a es \<Longrightarrow> traces (f a) (\<lambda>b fs. R b (es @ fs))"
  shows "traces (State_Monad.bind m f) R"
proof (rule tracesI)
  fix s b t
  assume run: "run_state (State_Monad.bind m f) s = (b, t)"
  obtain a u where a: "run_state m s = (a, u)" by (rule runE)
  with run have b: "run_state (f a) u = (b, t)" by simp
  obtain es where es: "log u = log s @ es" "Q a es" using tracesD [OF m a] .
  obtain fs where "log t = log u @ fs" "R b (es @ fs)" using tracesD [OF f [OF es(2)] b] .
  with es(1) show "\<exists>es. log t = log s @ es \<and> R b es" by (metis append_assoc)
qed

lemma traces_weaken: "traces m Q \<Longrightarrow> (\<And>a es. Q a es \<Longrightarrow> R a es) \<Longrightarrow> traces m R"
  unfolding traces_def by blast

lemma traces_emits: "emits P m \<Longrightarrow> traces m (\<lambda>_. list_all P)"
  by (rule tracesI) (metis emitsD)

lemma traces_return [trace_intro]: "R a [] \<Longrightarrow> traces (ret a) R"
  by (simp add: traces_def)

lemma traces_if [trace_intro]:
  "(b \<Longrightarrow> traces m R) \<Longrightarrow> (\<not> b \<Longrightarrow> traces n R) \<Longrightarrow> traces (if b then m else n) R"
  by simp

lemma traces_bind_if [trace_intro]:
  "(b \<Longrightarrow> traces (State_Monad.bind m f) R) \<Longrightarrow> (\<not> b \<Longrightarrow> traces (State_Monad.bind n f) R) \<Longrightarrow>
   traces (State_Monad.bind (if b then m else n) f) R"
  by simp

lemma traces_sum [trace_intro]:
  "(\<And>e. r = Inl e \<Longrightarrow> traces (f e) R) \<Longrightarrow> (\<And>a. r = Inr a \<Longrightarrow> traces (g a) R) \<Longrightarrow>
   traces (case r of Inl e \<Rightarrow> f e | Inr a \<Rightarrow> g a) R"
  by (cases r) simp_all

lemma traces_option [trace_intro]:
  "(r = None \<Longrightarrow> traces m R) \<Longrightarrow> (\<And>a. r = Some a \<Longrightarrow> traces (g a) R) \<Longrightarrow>
   traces (case r of None \<Rightarrow> m | Some a \<Rightarrow> g a) R"
  by (cases r) simp_all

lemma traces_let [trace_intro]: "traces (f a) R \<Longrightarrow> traces (let x = a in f x) R"
  by simp

lemma traces_call:
  "(\<And>a. traces (f a) R) \<Longrightarrow> traces (State_Monad.bind (call g) f) R"
  by (rule traces_bind [where Q = "\<lambda>_ es. es = []"])
    (auto simp: traces_def call_def split: prod.splits)

lemma traces_emit:
  "traces (f ()) (\<lambda>b es. R b (e # es)) \<Longrightarrow> traces (State_Monad.bind (emit e) f) R"
  by (rule traces_bind [where Q = "\<lambda>_ es. es = [e]"]) (auto simp: traces_def emit_def)

lemma traces_calls [trace_intro]:
  "(\<And>r. traces (f r) (\<lambda>b es. R b (EvGet k (map_sum id K r) # es))) \<Longrightarrow>
     traces (State_Monad.bind (Get K api k) f) R"
  "(\<And>r. traces (f r) (\<lambda>b es. R b (EvCreate (K obj) (err_of r) # es))) \<Longrightarrow>
     traces (State_Monad.bind (Create K api obj) f) R"
  "(\<And>r. traces (f r) (\<lambda>b es. R b (EvUpdate (K obj) (err_of r) # es))) \<Longrightarrow>
     traces (State_Monad.bind (Update K api obj) f) R"
  "(\<And>r. traces (f r) (\<lambda>b es. R b (EvStatus (K obj) (err_of r) # es))) \<Longrightarrow>
     traces (State_Monad.bind (StatusUpdate K api obj) f) R"
  "(\<And>r. traces (d r) (\<lambda>b es. R b (EvDelete (K obj) orphan (err_of r) # es))) \<Longrightarrow>
     traces (State_Monad.bind (Delete K api obj orphan) d) R"
  "traces (h ()) (\<lambda>b es. R b (EvRecord ty reason msg # es)) \<Longrightarrow>
     traces (State_Monad.bind (RecordEvent ty reason msg) h) R"
  "(\<And>cs. traces (fc cs) R) \<Longrightarrow> traces (State_Monad.bind (SetStatusCondition S conds cond) fc) R"
  unfolding Get_def Create_def Update_def StatusUpdate_def Delete_def RecordEvent_def
    SetStatusCondition_def State_Monad.bind_assoc State_Monad.bind_left_identity
  by (auto intro!: traces_call traces_emit)

lemma traces_list [trace_intro]:
  "(\<And>r. traces (f r) (\<lambda>b es. R b (EvList sel (map_sum id (map K) r) # es))) \<Longrightarrow>
     traces (State_Monad.bind (ListObjs K api ns sel) f) R"
  unfolding ListObjs_def State_Monad.bind_assoc State_Monad.bind_left_identity
  by (auto intro!: traces_call traces_emit)

lemma traces_now [trace_intro]:
  "(\<And>w. traces (f (fst (sys_now S w))) R) \<Longrightarrow> traces (State_Monad.bind (Now S) f) R"
  by (rule traces_bind [where Q = "\<lambda>a es. es = [] \<and> (\<exists>w. a = fst (sys_now S w))"])
    (auto simp: traces_def Now_def call_def split: prod.splits, metis fst_conv)

section \<open>Justification of each event by the earlier ones\<close>

text \<open>
  \<open>each J pre es\<close>: every event of \<open>es\<close> is justified by the events before it, those of \<open>pre\<close>
  included.
\<close>

fun each :: "(event list \<Rightarrow> event \<Rightarrow> bool) \<Rightarrow> event list \<Rightarrow> event list \<Rightarrow> bool" where
  "each J pre [] = True"
| "each J pre (e # es) = (J pre e \<and> each J (pre @ [e]) es)"

lemma each_append [simp]: "each J pre (xs @ ys) \<longleftrightarrow> each J pre xs \<and> each J (pre @ xs) ys"
  by (induction xs arbitrary: pre) simp_all

lemma each_nth: "each J pre es \<longleftrightarrow> (\<forall>k<length es. J (pre @ take k es) (es ! k))"
proof (induction es arbitrary: pre)
  case (Cons e es)
  then show ?case using less_Suc_eq_0_disj by (auto simp: all_conj_distrib)
qed simp

lemma each_list_all: "list_all P es \<Longrightarrow> (\<And>mid e. P e \<Longrightarrow> J (pre @ mid) e) \<Longrightarrow> each J pre es"
  by (auto simp: each_nth list_all_length)

lemma each_mono: "each J pre es \<Longrightarrow> (\<And>pre e. J pre e \<Longrightarrow> K pre e) \<Longrightarrow> each K pre es"
  by (simp add: each_nth)

end
