(* ===== verification/Resources.thy ===== *)
theory Resources
  imports Workloads Membership Sim Trace
begin

text \<open>
  The object reconcilers of the cluster controller: for each kind of object, read the existing
  one, create it, update it or delete it, with the early returns of
  \<^verbatim>\<open>internal/controller/hyperbytedbcluster_controller.go\<close>.
\<close>

section \<open>Create or update\<close>

text \<open>
  The shape most reconcilers share: \<^verbatim>\<open>Get\<close>; on NotFound create the desired object; on another
  error return it; otherwise update what \<open>change\<close> makes of the existing object, if anything.
\<close>

definition create_or_update ::
  "('o \<Rightarrow> kobj) \<Rightarrow> ('o, 'w) kind_api \<Rightarrow> nn \<Rightarrow> 'o \<Rightarrow> ('o \<Rightarrow> 'o option) \<Rightarrow> ('w, unit result) prog" where
  "create_or_update K api k desired change = do {
     g \<leftarrow> Get K api k;
     case g of
       Inl e \<Rightarrow> if IsNotFound e then void (Create K api desired) else ret (Inl e)
     | Inr existing \<Rightarrow>
         (case change existing of
            None \<Rightarrow> ret (Inr ())
          | Some obj \<Rightarrow> void (Update K api obj)) }"

text \<open>\<^verbatim>\<open>controllerutil.SetControllerReference(cluster, obj, r.Scheme)\<close>\<close>

definition own :: "'w sys \<Rightarrow> HyperbytedbCluster \<Rightarrow> object_meta \<Rightarrow> (object_meta \<Rightarrow> ('w, 'a result) prog) \<Rightarrow> ('w, 'a result) prog" where
  "own S c m f = (case set_owner S (Meta c) m of Inl e \<Rightarrow> ret (Inl e) | Inr m' \<Rightarrow> f m')"

section \<open>Secrets\<close>

definition reconcileTLS :: "'w sys \<Rightarrow> HyperbytedbCluster \<Rightarrow> int \<Rightarrow> ('w, unit result) prog" where
  "reconcileTLS S c replicas =
     (case Server_TLS (Spec_Server (Spec c)) of
        None \<Rightarrow> ret (Inr ())
      | Some tls \<Rightarrow>
          if \<not> TLS_Enabled tls \<or> TLS_SecretName tls \<noteq> [] \<or> TLS_CertManagerIssuerRef tls \<noteq> None then ret (Inr ())
          else do {
            g \<leftarrow> Get KSecret (api_secret S) (nn_of c (TLSSecretName c));
            case g of
              Inr _ \<Rightarrow> ret (Inr ())
            | Inl e \<Rightarrow>
                if \<not> IsNotFound e then ret (Inl e)
                else attempt (wrapped ''generating TLS secret'' (BuildSelfSignedTLSSecret S c (Namespace c) replicas)) (\<lambda>sec.
                  own S c (Sec_Meta sec) (\<lambda>m. do {
                    RecordEvent ''Normal'' ''TLSCreated'' ''Generated self-signed TLS certificate'';
                    void (Create KSecret (api_secret S) (sec\<lparr> Sec_Meta := m \<rparr>)) })) })"

text \<open>The Secret is read back from the answer of the write, which the client decodes into it.\<close>

definition cluster_token :: "secret \<Rightarrow> string" where
  "cluster_token sec = mget (Sec_Data sec) AuthSecretClusterTokenKey"

definition create_auth_secret :: "'w sys \<Rightarrow> HyperbytedbCluster \<Rightarrow> ('w, string result) prog" where
  "create_auth_secret S c =
     attempt (wrapped ''generating auth secret'' (BuildAuthSecret S c)) (\<lambda>sec.
     attempt (if Auth_CredentialsSecretName (Spec_Auth (Spec c)) = []
              then own S c (Sec_Meta sec) (\<lambda>m. ret (Inr (sec\<lparr> Sec_Meta := m \<rparr>)))
              else ret (Inr sec)) (\<lambda>owned.
     attempt (Create KSecret (api_secret S) owned) (\<lambda>stored. do {
       RecordEvent ''Normal'' ''AuthSecretCreated''
         (''Generated cluster token and admin login in Secret '' @ AuthSecretName c);
       ret (Inr (cluster_token stored)) })))"

definition reconcileAuthSecret :: "'w sys \<Rightarrow> HyperbytedbCluster \<Rightarrow> ('w, string result) prog" where
  "reconcileAuthSecret S c = do {
     g \<leftarrow> Get KSecret (api_secret S) (nn_of c (AuthSecretName c));
     case g of
       Inl e \<Rightarrow> if IsNotFound e then create_auth_secret S c else ret (Inl e)
     | Inr existing \<Rightarrow> do {
         (sec, r) \<leftarrow> FillAuthSecret S existing;
         case r of
           Inl e \<Rightarrow> ret (Inl e)
         | Inr changed \<Rightarrow>
             if \<not> changed then ret (Inr (cluster_token sec))
             else attempt (Update KSecret (api_secret S) sec) (\<lambda>stored. do {
               RecordEvent ''Normal'' ''AuthSecretUpdated''
                 (''Added missing keys to Secret '' @ AuthSecretName c);
               ret (Inr (cluster_token stored)) }) } }"

section \<open>ConfigMap and Services\<close>

definition reconcileConfigMap :: "'w sys \<Rightarrow> HyperbytedbCluster \<Rightarrow> ('w, unit result) prog" where
  "reconcileConfigMap S c =
     (let desired = BuildConfigMap (sys_semver S) c
      in own S c (CM_Meta desired) (\<lambda>m.
           create_or_update KCm (api_cm S) (key_of m) (desired\<lparr> CM_Meta := m \<rparr>)
             (\<lambda>existing. if \<not> maps_equal S (CM_Data existing) (CM_Data desired)
                         then Some (existing\<lparr> CM_Data := CM_Data desired \<rparr>) else None)))"

definition cleanupLegacyPeersConfigMap :: "'w sys \<Rightarrow> HyperbytedbCluster \<Rightarrow> ('w, unit result) prog" where
  "cleanupLegacyPeersConfigMap S c = do {
     g \<leftarrow> Get KCm (api_cm S) (nn_of c (Name c @ ''-peers''));
     case g of
       Inl e \<Rightarrow> if IsNotFound e then ret (Inr ()) else ret (Inl e)
     | Inr existing \<Rightarrow> Delete KCm (api_cm S) existing False }"

definition reconcileService :: "'w sys \<Rightarrow> HyperbytedbCluster \<Rightarrow> service \<Rightarrow> ('w, unit result) prog" where
  "reconcileService S c desired =
     own S c (Svc_Meta desired) (\<lambda>m.
       create_or_update KSvc (api_svc S) (key_of m) (desired\<lparr> Svc_Meta := m \<rparr>)
         (\<lambda>existing. Some (existing\<lparr> Svc_Ports := Svc_Ports desired, Svc_Selector := Svc_Selector desired \<rparr>)))"

section \<open>StatefulSet\<close>

text \<open>The mutable fields the controller copies from the desired object into the existing one.\<close>

definition merge_sts :: "sts \<Rightarrow> sts \<Rightarrow> sts" where
  "merge_sts existing desired =
     existing\<lparr> Sts_Replicas := Sts_Replicas desired,
       Sts_Template := (let t = Sts_Template existing; d = Sts_Template desired in
         t\<lparr> T_Annotations := T_Annotations d, T_Labels := T_Labels d,
            T_Spec := (T_Spec t)\<lparr> PS_Containers := PS_Containers (T_Spec d),
              PS_InitContainers := PS_InitContainers (T_Spec d), PS_Volumes := PS_Volumes (T_Spec d),
              PS_ImagePullSecrets := PS_ImagePullSecrets (T_Spec d), PS_Affinity := PS_Affinity (T_Spec d),
              PS_Tolerations := PS_Tolerations (T_Spec d), PS_TopologySpread := PS_TopologySpread (T_Spec d) \<rparr> \<rparr>),
       Sts_UpdateType := Sts_UpdateType desired, Sts_RollingUpdate := Sts_RollingUpdate desired \<rparr>"

definition desired_sts :: "'w sys \<Rightarrow> HyperbytedbCluster \<Rightarrow> string \<Rightarrow> sts" where
  "desired_sts S c configHash =
     (let desired = BuildStatefulSet (sys_semver S) c configHash
      in if ProxyEnabled c
         then desired\<lparr> Sts_RollingUpdate := Some \<lparr> RU_Partition =
                Some (rolloutPartition c (deref 0 (Sts_Replicas desired))) \<rparr> \<rparr>
         else desired)"

definition no_sts_result :: stsReconcileResult where
  "no_sts_result = \<lparr> SR_SpecReplicas = 0, SR_ReadyReplicas = 0, SR_StatusReplicas = 0, SR_Recreating = False \<rparr>"

definition reconcileStatefulSet :: "'w sys \<Rightarrow> HyperbytedbCluster \<Rightarrow> string \<Rightarrow> ('w, stsReconcileResult result) prog" where
  "reconcileStatefulSet S c configHash =
     (let desired = desired_sts S c configHash
      in own S c (Sts_Meta desired) (\<lambda>m. do {
        g \<leftarrow> Get KSts (api_sts S) (key_of m);
        case g of
          Inl e \<Rightarrow>
            if \<not> IsNotFound e then ret (Inl e)
            else do {
              RecordEvent ''Normal'' ''CreatingStatefulSet'' ''Creating StatefulSet for cluster'';
              attempt (Create KSts (api_sts S) (desired\<lparr> Sts_Meta := m \<rparr>)) (\<lambda>stored.
                case Sts_Replicas stored of
                  None \<Rightarrow> ret (Inl NilDeref)
                | Some n \<Rightarrow> ret (Inr (no_sts_result\<lparr> SR_SpecReplicas := n \<rparr>))) }
        | Inr existing \<Rightarrow>
            if Sts_PodManagementPolicy existing \<noteq> Sts_PodManagementPolicy desired
            then do {
              RecordEvent ''Normal'' ''RecreatingStatefulSet''
                (''Recreating StatefulSet to change pod management from '' @ Sts_PodManagementPolicy existing
                  @ '' to '' @ Sts_PodManagementPolicy desired @ ''; pods keep running'');
              d \<leftarrow> Delete KSts (api_sts S) existing True;
              ret (map_sum id (\<lambda>_. no_sts_result\<lparr> SR_Recreating := True \<rparr>) (ignoreNotFound d)) }
            else attempt (Update KSts (api_sts S) (merge_sts existing desired)) (\<lambda>stored.
              case Sts_Replicas stored of
                None \<Rightarrow> ret (Inl NilDeref)
              | Some n \<Rightarrow> ret (Inr \<lparr> SR_SpecReplicas = n, SR_ReadyReplicas = StsS_ReadyReplicas stored,
                                     SR_StatusReplicas = StsS_Replicas stored, SR_Recreating = False \<rparr>)) }))"

section \<open>Monitoring, disruption budget, autoscaling\<close>

definition reconcileServiceMonitor :: "'w sys \<Rightarrow> HyperbytedbCluster \<Rightarrow> ('w, unit result) prog" where
  "reconcileServiceMonitor S c =
     (let desired = BuildServiceMonitor c
      in own S c (SM_Meta desired) (\<lambda>m.
           create_or_update KSm (api_sm S) (key_of m) (desired\<lparr> SM_Meta := m \<rparr>) (\<lambda>_. None)))"

definition delete_if_there :: "('o \<Rightarrow> kobj) \<Rightarrow> ('o, 'w) kind_api \<Rightarrow> nn \<Rightarrow> ('w, unit result) prog" where
  "delete_if_there K api k = do {
     g \<leftarrow> Get K api k;
     case g of
       Inl e \<Rightarrow> if IsNotFound e then ret (Inr ()) else ret (Inl e)
     | Inr existing \<Rightarrow> Delete K api existing False }"

definition reconcilePDB :: "'w sys \<Rightarrow> HyperbytedbCluster \<Rightarrow> ('w, unit result) prog" where
  "reconcilePDB S c =
     (let replicas = deref 1 (Spec_Replicas (Spec c)); pdbName = Name c @ ''-pdb''
      in if replicas < 2 then delete_if_there KPdb (api_pdb S) (nn_of c pdbName)
         else (let desired = \<lparr> PDB_Meta = new_meta pdbName (Namespace c) (CommonLabels c),
                               PDB_MinAvailable = IntVal (i32 (replicas - 1)), PDB_Selector = CommonLabels c \<rparr>
               in own S c (PDB_Meta desired) (\<lambda>m.
                    create_or_update KPdb (api_pdb S) (nn_of c pdbName) (desired\<lparr> PDB_Meta := m \<rparr>)
                      (\<lambda>existing. Some (existing\<lparr> PDB_MinAvailable := PDB_MinAvailable desired,
                                                  PDB_Selector := PDB_Selector desired \<rparr>)))))"

definition desired_hpa :: "HyperbytedbCluster \<Rightarrow> AutoscalingSpec \<Rightarrow> hpa" where
  "desired_hpa c a =
     \<lparr> HPA_Meta = new_meta (Name c) (Namespace c) (CommonLabels c), HPA_TargetKind = ''StatefulSet'',
       HPA_TargetName = StatefulSetName c, HPA_MinReplicas = AS_MinReplicas a, HPA_MaxReplicas = AS_MaxReplicas a,
       HPA_TargetCPU = (if AS_TargetCPUUtilizationPercentage a = 0 then 80 else AS_TargetCPUUtilizationPercentage a) \<rparr>"

definition reconcileHPA :: "'w sys \<Rightarrow> HyperbytedbCluster \<Rightarrow> ('w, unit result) prog" where
  "reconcileHPA S c =
     (case Spec_Autoscaling (Spec c) of
        None \<Rightarrow> delete_if_there KHpa (api_hpa S) (nn_of c (Name c))
      | Some a \<Rightarrow>
          if \<not> AS_Enabled a then delete_if_there KHpa (api_hpa S) (nn_of c (Name c))
          else own S c (HPA_Meta (desired_hpa c a)) (\<lambda>m.
            create_or_update KHpa (api_hpa S) (nn_of c (Name c)) ((desired_hpa c a)\<lparr> HPA_Meta := m \<rparr>)
              (\<lambda>existing. Some ((desired_hpa c a)\<lparr> HPA_Meta := HPA_Meta existing \<rparr>))))"

section \<open>Proxy\<close>

definition reconcile_proxy_service :: "'w sys \<Rightarrow> HyperbytedbCluster \<Rightarrow> ('w, unit result) prog" where
  "reconcile_proxy_service S c =
     (let desired = BuildProxyService c
      in own S c (Svc_Meta desired) (\<lambda>m. do {
        g \<leftarrow> Get KSvc (api_svc S) (key_of m);
        case g of
          Inl e \<Rightarrow>
            if IsNotFound e
            then wrapped ''create proxy service'' (void (Create KSvc (api_svc S) (desired\<lparr> Svc_Meta := m \<rparr>)))
            else ret (Inl (WrapErr ''get proxy service'' e))
        | Inr existing \<Rightarrow>
            (let existing1 = existing\<lparr> Svc_Ports := Svc_Ports desired, Svc_Selector := Svc_Selector desired \<rparr>
             in if Svc_Type existing = Svc_Type desired
                then wrapped ''update proxy service'' (void (Update KSvc (api_svc S) existing1))
                else attempt (wrapped ''delete proxy service for type change'' (Delete KSvc (api_svc S) existing1 False)) (\<lambda>_.
                  wrapped ''recreate proxy service'' (void (Create KSvc (api_svc S) (desired\<lparr> Svc_Meta := m \<rparr>))))) }))"

definition merge_dep :: "deployment \<Rightarrow> deployment \<Rightarrow> deployment" where
  "merge_dep existing desired =
     (let t = Dep_Template desired
      in existing\<lparr> Dep_Replicas := Dep_Replicas desired, Dep_Selector := Dep_Selector desired,
           Dep_StrategyType := Dep_StrategyType desired, Dep_MaxUnavailable := Dep_MaxUnavailable desired,
           Dep_MaxSurge := Dep_MaxSurge desired,
           Dep_Template := t\<lparr> T_Annotations := T_Annotations (Dep_Template existing) ++ T_Annotations t \<rparr> \<rparr>)"

definition reconcileProxy :: "'w sys \<Rightarrow> HyperbytedbCluster \<Rightarrow> ('w, unit result) prog" where
  "reconcileProxy S c =
     attempt (reconcile_proxy_service S c) (\<lambda>_.
       (let desired = BuildProxyDeployment (sys_semver S) c
        in own S c (Dep_Meta desired) (\<lambda>m. do {
          g \<leftarrow> Get KDep (api_dep S) (key_of m);
          case g of
            Inl e \<Rightarrow>
              if IsNotFound e then do {
                RecordEvent ''Normal'' ''CreatingProxy'' ''Creating hyperbytedb-proxy Deployment'';
                void (Create KDep (api_dep S) (desired\<lparr> Dep_Meta := m \<rparr>)) }
              else ret (Inl (WrapErr ''get proxy deployment'' e))
          | Inr existing \<Rightarrow> void (Update KDep (api_dep S) (merge_dep existing desired)) })))"

section \<open>What is written to the StatefulSet\<close>

text \<open>
  An update keeps what Kubernetes does not let change and what the controller does not own: name
  and labels, selector, service name, pod management, claim templates and status.
\<close>

definition same_identity :: "sts \<Rightarrow> sts \<Rightarrow> bool" where
  "same_identity old new \<longleftrightarrow>
     Sts_Meta new = Sts_Meta old \<and> Sts_ServiceName new = Sts_ServiceName old \<and> Sts_Selector new = Sts_Selector old \<and>
     Sts_PodManagementPolicy new = Sts_PodManagementPolicy old \<and>
     Sts_VolumeClaimTemplates new = Sts_VolumeClaimTemplates old \<and>
     StsS_Replicas new = StsS_Replicas old \<and> StsS_ReadyReplicas new = StsS_ReadyReplicas old \<and>
     StsS_UpdateRevision new = StsS_UpdateRevision old \<and> StsS_CurrentRevision new = StsS_CurrentRevision old"

text \<open>The rest is the desired state: count, digest, containers, and the rollout's partition.\<close>

definition carries :: "semver \<Rightarrow> HyperbytedbCluster \<Rightarrow> string \<Rightarrow> sts \<Rightarrow> bool" where
  "carries sv c h new \<longleftrightarrow>
     Sts_Replicas new = Some (replicas_of c) \<and> Sts_UpdateType new = ''RollingUpdate'' \<and>
     (ProxyEnabled c \<longrightarrow>
        Sts_RollingUpdate new = Some \<lparr> RU_Partition = Some (rolloutPartition c (replicas_of c)) \<rparr>) \<and>
     (let t = Sts_Template new; d = Sts_Template (BuildStatefulSet sv c h)
      in T_Annotations t = T_Annotations d \<and> T_Labels t = T_Labels d \<and>
         PS_Containers (T_Spec t) = PS_Containers (T_Spec d) \<and> PS_InitContainers (T_Spec t) = PS_InitContainers (T_Spec d) \<and>
         PS_Volumes (T_Spec t) = PS_Volumes (T_Spec d))"

definition sts_write :: "semver \<Rightarrow> HyperbytedbCluster \<Rightarrow> string \<Rightarrow> event list \<Rightarrow> event \<Rightarrow> bool" where
  "sts_write sv c h pre e =
     (case e of
        EvGet k _ \<Rightarrow> True
      | EvRecord _ _ _ \<Rightarrow> True
      | EvCreate obj _ \<Rightarrow>
          (\<exists>k err new. EvGet k (Inl err) \<in> set pre \<and> IsNotFound err \<and> obj = KSts new \<and> carries sv c h new \<and>
             Sts_PodManagementPolicy new = podManagementPolicy c (clusterMetadataEnabled c))
      | EvUpdate obj _ \<Rightarrow>
          (\<exists>k old new. EvGet k (Inr (KSts old)) \<in> set pre \<and> obj = KSts new \<and> same_identity old new \<and> carries sv c h new \<and>
             Sts_PodManagementPolicy old = podManagementPolicy c (clusterMetadataEnabled c))
      | EvDelete obj orphan _ \<Rightarrow>
          (\<exists>k old. EvGet k (Inr (KSts old)) \<in> set pre \<and> obj = KSts old \<and> orphan \<and>
             Sts_PodManagementPolicy old \<noteq> podManagementPolicy c (clusterMetadataEnabled c))
      | _ \<Rightarrow> False)"

lemma merge_sts_identity: "same_identity existing (merge_sts existing desired)"
  by (simp add: same_identity_def merge_sts_def)

lemma desired_carries: "carries (sys_semver S) c h ((desired_sts S c h)\<lparr> Sts_Meta := m \<rparr>)"
  "carries (sys_semver S) c h (merge_sts existing (desired_sts S c h))"
  by (simp_all add: carries_def merge_sts_def desired_sts_def BuildStatefulSet_def replicas_of_def Let_def)

lemma desired_policy: "Sts_PodManagementPolicy (desired_sts S c h) = podManagementPolicy c (clusterMetadataEnabled c)"
  by (simp add: desired_sts_def BuildStatefulSet_def Let_def)

lemma traces_attempt [trace_intro]:
  "traces (State_Monad.bind m (\<lambda>r. case r of Inl e \<Rightarrow> ret (Inl e) | Inr a \<Rightarrow> f a)) R \<Longrightarrow> traces (attempt m f) R"
  by (simp add: attempt_def)

lemma traces_own [trace_intro]:
  "(\<And>e. R (Inl e) []) \<Longrightarrow> (\<And>m'. traces (f m') R) \<Longrightarrow> traces (own S c m f) R"
  unfolding own_def by (intro trace_intro)

lemma reconcileStatefulSet_each:
  "traces (reconcileStatefulSet S c h) (\<lambda>_. each (sts_write (sys_semver S) c h) [])"
  unfolding reconcileStatefulSet_def Let_def
  by (intro trace_intro)
    (auto simp: sts_write_def desired_policy desired_carries merge_sts_identity
       intro!: exI [of _ "key_of m" for m])

section \<open>Properties\<close>

text \<open>
  C7. What the controller writes to the StatefulSet, whatever the API answers: it creates one only
  after reading that there is none; an update keeps the identity, claim templates and status of
  the one read; both carry exactly the spec's replica count, the template generated for the
  digest and, behind a proxy, the partition of the rolling restart; it deletes one only to
  change the pod management policy, leaving the pods running.
\<close>

theorem reconcileStatefulSet_writes:
  "\<exists>es. log (snd (run_state (reconcileStatefulSet S c h) s)) = log s @ es \<and>
     each (sts_write (sys_semver S) c h) [] es"
  using reconcileStatefulSet_each [of S c h] unfolding traces_def by blast

end
