(* ===== verification/Store.thy ===== *)
theory Store
  imports Sim
begin

text \<open>
  What the reconcilers rely on of the Kubernetes API, as an interface: one kind of object is a
  store with a lookup by namespace and name. \<open>object_store\<close> has the laws of reading and writing
  one kind; it is interpreted on every kind of the simulated API. Clients reason about programs
  by what they leave stored.
\<close>

section \<open>The interface\<close>

locale object_store =
  fixes api :: "('o, 'w) kind_api"
    and look :: "'w \<Rightarrow> nn \<Rightarrow> 'o option"
    and mt :: "'o \<Rightarrow> object_meta"
  assumes get_found: "look w k = Some obj \<Longrightarrow> k_get api k w = (Inr obj, w)"
    and get_missing: "look w k = None \<Longrightarrow> \<exists>e. k_get api k w = (Inl e, w) \<and> IsNotFound e"
    and create_new: "look w (key_of (mt obj)) = None \<Longrightarrow>
      \<exists>w'. k_create api obj w = (Inr obj, w') \<and> look w' = (look w)(key_of (mt obj) \<mapsto> obj)"
    and create_taken: "look w (key_of (mt obj)) \<noteq> None \<Longrightarrow>
      \<exists>e. k_create api obj w = (Inl e, w) \<and> IsAlreadyExists e"
    and update_stored: "look w (key_of (mt obj)) \<noteq> None \<Longrightarrow>
      \<exists>w'. k_update api obj w = (Inr obj, w') \<and> look w' = (look w)(key_of (mt obj) \<mapsto> obj)"
    and status_stored: "look w (key_of (mt obj)) \<noteq> None \<Longrightarrow>
      \<exists>w'. k_status api obj w = (Inr obj, w') \<and> look w' = (look w)(key_of (mt obj) \<mapsto> obj)"
    and delete_stored: "look w (key_of (mt obj)) \<noteq> None \<Longrightarrow>
      \<exists>w'. k_delete api obj orphan w = (Inr (), w') \<and> look w' = (look w)(key_of (mt obj) := None)"
begin

lemma run_Get_found:
  assumes "look (ext s) k = Some obj"
  obtains t where "run_state (Get K api k) s = (Inr obj, t)" "ext t = ext s"
  using get_found [OF assms] by (simp add: Get_def call_def emit_def)

lemma run_Get_missing:
  assumes "look (ext s) k = None"
  obtains e t where "run_state (Get K api k) s = (Inl e, t)" "IsNotFound e" "ext t = ext s"
  using get_missing [OF assms] by (auto simp: Get_def call_def emit_def)

lemma run_Create_new:
  assumes "look (ext s) (key_of (mt obj)) = None"
  obtains t where "run_state (Create K api obj) s = (Inr obj, t)"
    "look (ext t) = (look (ext s))(key_of (mt obj) \<mapsto> obj)" "ext t = snd (k_create api obj (ext s))"
  using create_new [OF assms] by (auto simp: Create_def call_def emit_def)

lemma run_Create_taken:
  assumes "look (ext s) (key_of (mt obj)) \<noteq> None"
  obtains e t where "run_state (Create K api obj) s = (Inl e, t)" "IsAlreadyExists e" "ext t = ext s"
  using create_taken [OF assms] by (auto simp: Create_def call_def emit_def)

lemma run_Update:
  assumes "look (ext s) (key_of (mt obj)) \<noteq> None"
  obtains t where "run_state (Update K api obj) s = (Inr obj, t)"
    "look (ext t) = (look (ext s))(key_of (mt obj) \<mapsto> obj)" "ext t = snd (k_update api obj (ext s))"
  using update_stored [OF assms] by (auto simp: Update_def call_def emit_def)

lemma run_StatusUpdate:
  assumes "look (ext s) (key_of (mt obj)) \<noteq> None"
  obtains t where "run_state (StatusUpdate K api obj) s = (Inr obj, t)"
    "look (ext t) = (look (ext s))(key_of (mt obj) \<mapsto> obj)" "ext t = snd (k_status api obj (ext s))"
  using status_stored [OF assms] by (auto simp: StatusUpdate_def call_def emit_def)

lemma run_Delete_stored:
  assumes "look (ext s) (key_of (mt obj)) \<noteq> None"
  obtains t where "run_state (Delete K api obj orphan) s = (Inr (), t)"
    "look (ext t) = (look (ext s))(key_of (mt obj) := None)" "ext t = snd (k_delete api obj orphan (ext s))"
  using delete_stored [OF assms, of orphan] by (auto simp: Delete_def call_def emit_def)

end

section \<open>The simulated API is such a store\<close>

lemma mem_api_store:
  assumes "\<And>f w. objs (upd f w) = f (objs w)"
  shows "object_store (mem_api mt objs upd) (\<lambda>w. map_of (objs w)) mt"
proof -
  have removed: "map_of (filter (\<lambda>(k, _). k \<noteq> a) xs) = (map_of xs)(a := None)" for a and xs :: "(nn \<times> 'a) list"
    by (induction xs) auto
  show ?thesis
    by unfold_locales
      (auto simp: mem_api_def Let_def assms no_such_def IsNotFound_def IsAlreadyExists_def update_conv'
         removed fun_eq_iff)
qed

interpretation sim_restores: object_store "api_restore (sim_sys sv)" "\<lambda>w. map_of (sim_restores w)" RMeta for sv
  unfolding sim_sys_def by (simp add: mem_api_store)
interpretation sim_backups: object_store "api_backup (sim_sys sv)" "\<lambda>w. map_of (sim_backups w)" BMeta for sv
  unfolding sim_sys_def by (simp add: mem_api_store)
interpretation sim_clusters: object_store "api_cluster (sim_sys sv)" "\<lambda>w. map_of (sim_clusters w)" Meta for sv
  unfolding sim_sys_def by (simp add: mem_api_store)
interpretation sim_sts: object_store "api_sts (sim_sys sv)" "\<lambda>w. map_of (sim_sts w)" Sts_Meta for sv
  unfolding sim_sys_def by (simp add: mem_api_store)
interpretation sim_jobs: object_store "api_job (sim_sys sv)" "\<lambda>w. map_of (sim_jobs w)" Job_Meta for sv
  unfolding sim_sys_def by (simp add: mem_api_store)
interpretation sim_cms: object_store "api_cm (sim_sys sv)" "\<lambda>w. map_of (sim_cms w)" CM_Meta for sv
  unfolding sim_sys_def by (simp add: mem_api_store)
interpretation sim_svcs: object_store "api_svc (sim_sys sv)" "\<lambda>w. map_of (sim_svcs w)" Svc_Meta for sv
  unfolding sim_sys_def by (simp add: mem_api_store)
interpretation sim_pdbs: object_store "api_pdb (sim_sys sv)" "\<lambda>w. map_of (sim_pdbs w)" PDB_Meta for sv
  unfolding sim_sys_def by (simp add: mem_api_store)
interpretation sim_hpas: object_store "api_hpa (sim_sys sv)" "\<lambda>w. map_of (sim_hpas w)" HPA_Meta for sv
  unfolding sim_sys_def by (simp add: mem_api_store)
interpretation sim_deps: object_store "api_dep (sim_sys sv)" "\<lambda>w. map_of (sim_deps w)" Dep_Meta for sv
  unfolding sim_sys_def by (simp add: mem_api_store)

end
