(* ===== verification/Converge.thy ===== *)
theory Converge
  imports Resources Store
begin

text \<open>
  Convergence of the object reconcilers of the cluster controller: on an API that keeps what is
  written, one pass leaves the desired object stored, or none where the spec asks for none.
\<close>

section \<open>Convergence\<close>

context object_store
begin

text \<open>What \<^const>\<open>create_or_update\<close> leaves stored.\<close>

lemma create_or_update_stores:
  assumes keyed: "\<And>x. look (ext s) k = Some x \<Longrightarrow> key_of (mt x) = k" "key_of (mt desired) = k"
    and change: "\<And>x y. change x = Some y \<Longrightarrow> key_of (mt y) = key_of (mt x)"
  obtains t where "run_state (create_or_update K api k desired change) s = (Inr (), t)"
    "look (ext t) = (look (ext s))(k \<mapsto> (case look (ext s) k of None \<Rightarrow> desired | Some x \<Rightarrow> deref x (change x)))"
proof (cases "look (ext s) k")
  case None
  then obtain e u where u: "run_state (Get K api k) s = (Inl e, u)" "IsNotFound e" "ext u = ext s"
    by (rule run_Get_missing)
  have "look (ext u) (key_of (mt desired)) = None" using None u(3) keyed(2) by simp
  then obtain t where "run_state (Create K api desired) u = (Inr desired, t)"
    "look (ext t) = (look (ext u))(key_of (mt desired) \<mapsto> desired)" by (rule run_Create_new)
  with u None keyed(2) show ?thesis by (intro that [of t]) (simp_all add: create_or_update_def void_def)
next
  case (Some x)
  then obtain u where u: "run_state (Get K api k) s = (Inr x, u)" "ext u = ext s" by (rule run_Get_found)
  show ?thesis
  proof (cases "change x")
    case None
    with u Some show ?thesis by (intro that [of u]) (auto simp: create_or_update_def)
  next
    case ch: (Some y)
    have y: "key_of (mt y) = k" using change [OF ch] keyed(1) [OF Some] by simp
    then have "look (ext u) (key_of (mt y)) \<noteq> None" using Some u(2) by simp
    then obtain t where "run_state (Update K api y) u = (Inr y, t)"
      "look (ext t) = (look (ext u))(key_of (mt y) \<mapsto> y)" by (rule run_Update)
    with u Some ch y show ?thesis by (intro that [of t]) (simp_all add: create_or_update_def void_def)
  qed
qed

text \<open>Deleting what is there, if anything.\<close>

lemma delete_if_there_removes:
  assumes "\<And>x. look (ext s) k = Some x \<Longrightarrow> key_of (mt x) = k"
  obtains t where "run_state (delete_if_there K api k) s = (Inr (), t)" "look (ext t) = (look (ext s))(k := None)"
proof (cases "look (ext s) k")
  case None
  then obtain e u where "run_state (Get K api k) s = (Inl e, u)" "IsNotFound e" "ext u = ext s" by (rule run_Get_missing)
  with None show ?thesis by (intro that [of u]) (auto simp: delete_if_there_def)
next
  case (Some x)
  then obtain u where u: "run_state (Get K api k) s = (Inr x, u)" "ext u = ext s" by (rule run_Get_found)
  have "look (ext u) (key_of (mt x)) \<noteq> None" using Some u(2) assms by simp
  then obtain t where "run_state (Delete K api x False) u = (Inr (), t)" "look (ext t) = (look (ext u))(key_of (mt x) := None)"
    by (rule run_Delete_stored)
  with u assms [OF Some] show ?thesis by (intro that [of t]) (simp_all add: delete_if_there_def)
qed

text \<open>
  A reconciler built on it converges: when the new object and every changed or unchanged one
  satisfy \<open>P\<close>, so does the stored one afterwards, and objects that need no change stay.
\<close>

lemma create_or_update_converges:
  assumes "\<And>x. look (ext s) k = Some x \<Longrightarrow> key_of (mt x) = k" "key_of (mt desired) = k"
    and "\<And>x y. change x = Some y \<Longrightarrow> key_of (mt y) = key_of (mt x)"
    and "P desired" "\<And>x. P (deref x (change x))"
  shows "fst (run_state (create_or_update K api k desired change) s) = Inr () \<and>
    (\<exists>x. look (ext (snd (run_state (create_or_update K api k desired change) s))) = (look (ext s))(k \<mapsto> x) \<and>
         P x \<and> key_of (mt x) = k)"
proof -
  obtain t where t: "run_state (create_or_update K api k desired change) s = (Inr (), t)"
    "look (ext t) = (look (ext s))(k \<mapsto> (case look (ext s) k of None \<Rightarrow> desired | Some x \<Rightarrow> deref x (change x)))"
    using create_or_update_stores [OF assms(1-3)] .
  have "key_of (mt (deref x (change x))) = k" if "look (ext s) k = Some x" for x
    using assms(1) [OF that] assms(3) by (cases "change x") auto
  with t assms(2,4,5) show ?thesis by (cases "look (ext s) k") auto
qed

end

definition well_keyed :: "('o \<Rightarrow> object_meta) \<Rightarrow> (nn \<times> 'o) list \<Rightarrow> bool" where
  "well_keyed mt xs \<longleftrightarrow> list_all (\<lambda>(k, x). key_of (mt x) = k) xs"

lemma well_keyedD: "well_keyed mt xs \<Longrightarrow> map_of xs k = Some x \<Longrightarrow> key_of (mt x) = k"
  by (auto simp: well_keyed_def list_all_iff dest!: map_of_SomeD)

lemma sim_own:
  "own (sim_sys sv) c m f = f (m\<lparr> Meta_Owners := [Name c] \<rparr>)"
  by (simp add: own_def sim_sys_def)

lemma key_of_owned [simp]: "key_of (m\<lparr> Meta_Owners := os \<rparr>) = key_of m"
  by (simp add: key_of_def)

lemma start_ext [simp]: "ext (start w) = w"
  by (simp add: start_def)

lemma configmap_converges:
  fixes sv c w
  defines "r \<equiv> run_state (reconcileConfigMap (sim_sys sv) c) (start w)"
  assumes "well_keyed CM_Meta (sim_cms w)"
  shows "fst r = Inr () \<and> (\<exists>m. map_of (sim_cms (ext (snd r))) = (map_of (sim_cms w))(nn_of c (ConfigMapName c) \<mapsto> m) \<and>
     CM_Data m ''config.toml'' = Some (renderConfigTOML sv c))"
proof -
  have key: "key_of (CM_Meta (BuildConfigMap sv c)) = nn_of c (ConfigMapName c)"
    by (simp add: BuildConfigMap_def key_of_def nn_of_def new_meta_def)
  have eq: "maps_equal (sim_sys sv) a b \<longleftrightarrow> a ''config.toml'' = b ''config.toml''" for a b
    by (simp add: sim_sys_def)
  have sv: "sys_semver (sim_sys sv) = sv" by (simp add: sim_sys_def)
  have data: "CM_Data (BuildConfigMap sv c) ''config.toml'' = Some (renderConfigTOML sv c)"
    by (simp add: BuildConfigMap_def)
  have "fst r = Inr () \<and> (\<exists>m. map_of (sim_cms (ext (snd r))) = (map_of (sim_cms (ext (start w))))(nn_of c (ConfigMapName c) \<mapsto> m) \<and>
      CM_Data m ''config.toml'' = Some (renderConfigTOML sv c) \<and> key_of (CM_Meta m) = nn_of c (ConfigMapName c))"
    unfolding r_def reconcileConfigMap_def Let_def sim_own sv key key_of_owned
    by (rule sim_cms.create_or_update_converges)
      (auto simp: key data eq well_keyedD [OF assms(2)] split: if_splits)
  then show ?thesis by auto
qed

lemma service_converges:
  fixes sv c w v
  defines "r \<equiv> run_state (reconcileService (sim_sys sv) c v) (start w)"
  assumes "well_keyed Svc_Meta (sim_svcs w)"
  shows "fst r = Inr () \<and> (\<exists>x. map_of (sim_svcs (ext (snd r))) = (map_of (sim_svcs w))(key_of (Svc_Meta v) \<mapsto> x) \<and>
     Svc_Ports x = Svc_Ports v \<and> Svc_Selector x = Svc_Selector v)"
proof -
  have "fst r = Inr () \<and> (\<exists>x. map_of (sim_svcs (ext (snd r))) = (map_of (sim_svcs (ext (start w))))(key_of (Svc_Meta v) \<mapsto> x) \<and>
     (Svc_Ports x = Svc_Ports v \<and> Svc_Selector x = Svc_Selector v) \<and> key_of (Svc_Meta x) = key_of (Svc_Meta v))"
    unfolding r_def reconcileService_def sim_own key_of_owned
    by (rule sim_svcs.create_or_update_converges) (auto simp: well_keyedD [OF assms(2)])
  then show ?thesis by auto
qed

lemma pdb_converges:
  fixes sv c w
  defines "r \<equiv> run_state (reconcilePDB (sim_sys sv) c) (start w)"
  assumes "well_keyed PDB_Meta (sim_pdbs w)" "2 \<le> replicas_of c"
  shows "fst r = Inr () \<and> (\<exists>x. map_of (sim_pdbs (ext (snd r))) = (map_of (sim_pdbs w))(nn_of c (Name c @ ''-pdb'') \<mapsto> x) \<and>
     PDB_MinAvailable x = IntVal (i32 (replicas_of c - 1)) \<and> PDB_Selector x = CommonLabels c)"
proof -
  have n: "\<not> deref 1 (Spec_Replicas (Spec c)) < 2" using assms(3) by (simp add: replicas_of_def)
  have "fst r = Inr () \<and> (\<exists>x. map_of (sim_pdbs (ext (snd r))) = (map_of (sim_pdbs (ext (start w))))(nn_of c (Name c @ ''-pdb'') \<mapsto> x) \<and>
     (PDB_MinAvailable x = IntVal (i32 (replicas_of c - 1)) \<and> PDB_Selector x = CommonLabels c) \<and>
     key_of (PDB_Meta x) = nn_of c (Name c @ ''-pdb''))"
    unfolding r_def reconcilePDB_def Let_def sim_own if_not_P [OF n]
    by (rule sim_pdbs.create_or_update_converges)
      (auto simp: replicas_of_def key_of_def nn_of_def dest!: well_keyedD [OF assms(2)])
  then show ?thesis by auto
qed

lemma pdb_removed:
  assumes "well_keyed PDB_Meta (sim_pdbs w)" "replicas_of c < 2"
  obtains t where "run_state (reconcilePDB (sim_sys sv) c) (start w) = (Inr (), t)"
    "map_of (sim_pdbs (ext t)) = (map_of (sim_pdbs w))(nn_of c (Name c @ ''-pdb'') := None)"
proof -
  have "deref 1 (Spec_Replicas (Spec c)) < 2" using assms(2) by (simp add: replicas_of_def)
  then have eq: "reconcilePDB (sim_sys sv) c = delete_if_there KPdb (api_pdb (sim_sys sv)) (nn_of c (Name c @ ''-pdb''))"
    by (simp add: reconcilePDB_def Let_def)
  show thesis
    using sim_pdbs.delete_if_there_removes [of "start w" "nn_of c (Name c @ ''-pdb'')" KPdb sv] well_keyedD [OF assms(1)] that
    unfolding eq start_ext by blast
qed

lemma hpa_converges:
  fixes c w sv
  assumes "well_keyed HPA_Meta (sim_hpas w)"
  defines "k \<equiv> nn_of c (Name c)"
  obtains t where "run_state (reconcileHPA (sim_sys sv) c) (start w) = (Inr (), t)"
    "\<And>a. Spec_Autoscaling (Spec c) = Some a \<Longrightarrow> AS_Enabled a \<Longrightarrow>
       \<exists>m. map_of (sim_hpas (ext t)) = (map_of (sim_hpas w))(k \<mapsto> (desired_hpa c a)\<lparr> HPA_Meta := m \<rparr>)"
    "(case Spec_Autoscaling (Spec c) of None \<Rightarrow> True | Some a \<Rightarrow> \<not> AS_Enabled a) \<Longrightarrow>
       map_of (sim_hpas (ext t)) = (map_of (sim_hpas w))(k := None)"
proof (cases "case Spec_Autoscaling (Spec c) of None \<Rightarrow> True | Some a \<Rightarrow> \<not> AS_Enabled a")
  case True
  then have eq: "reconcileHPA (sim_sys sv) c = delete_if_there KHpa (api_hpa (sim_sys sv)) k"
    by (auto simp: reconcileHPA_def k_def split: option.splits)
  obtain t where "run_state (delete_if_there KHpa (api_hpa (sim_sys sv)) k) (start w) = (Inr (), t)"
    "map_of (sim_hpas (ext t)) = (map_of (sim_hpas w))(k := None)"
    using sim_hpas.delete_if_there_removes [of "start w" k KHpa sv] well_keyedD [OF assms(1)] unfolding start_ext by blast
  with True show thesis unfolding eq [symmetric] by (intro that [of t]) auto
next
  case False
  then obtain a where a: "Spec_Autoscaling (Spec c) = Some a" "AS_Enabled a" by (auto split: option.splits)
  let ?d = "(desired_hpa c a)\<lparr> HPA_Meta := (HPA_Meta (desired_hpa c a))\<lparr> Meta_Owners := [Name c] \<rparr> \<rparr>"
  let ?change = "\<lambda>existing. Some ((desired_hpa c a)\<lparr> HPA_Meta := HPA_Meta existing \<rparr>)"
  have key: "key_of (HPA_Meta ?d) = k" by (simp add: desired_hpa_def k_def key_of_def nn_of_def new_meta_def)
  obtain t where t: "run_state (create_or_update KHpa (api_hpa (sim_sys sv)) k ?d ?change) (start w) = (Inr (), t)"
    "map_of (sim_hpas (ext t)) = (map_of (sim_hpas (ext (start w))))
       (k \<mapsto> (case map_of (sim_hpas (ext (start w))) k of None \<Rightarrow> ?d | Some x \<Rightarrow> deref x (?change x)))"
    by (rule sim_hpas.create_or_update_stores [of "start w" k ?d ?change KHpa sv])
      (use key well_keyedD [OF assms(1)] in auto)
  have "reconcileHPA (sim_sys sv) c = create_or_update KHpa (api_hpa (sim_sys sv)) k ?d ?change"
    using a by (simp add: reconcileHPA_def sim_own k_def)
  moreover have "\<exists>m. map_of (sim_hpas (ext t)) = (map_of (sim_hpas w))(k \<mapsto> (desired_hpa c a)\<lparr> HPA_Meta := m \<rparr>)"
    using t(2) by (cases "map_of (sim_hpas w) k") auto
  ultimately show thesis using a t(1) by (intro that [of t]) auto
qed

text \<open>The proxy: its Service is recreated when its type changes, its Deployment keeps foreign annotations.\<close>

definition proxy_service_ok :: "HyperbytedbCluster \<Rightarrow> service \<Rightarrow> bool" where
  "proxy_service_ok c x \<longleftrightarrow> Svc_Type x = Svc_Type (BuildProxyService c) \<and> Svc_Ports x = Svc_Ports (BuildProxyService c) \<and>
     Svc_Selector x = Svc_Selector (BuildProxyService c)"

lemma proxy_service_converges:
  assumes "well_keyed Svc_Meta (sim_svcs w)"
  obtains t x where "run_state (reconcile_proxy_service (sim_sys sv) c) (start w) = (Inr (), t)"
    "map_of (sim_svcs (ext t)) = (map_of (sim_svcs w))(nn_of c (ProxyServiceName c) \<mapsto> x)"
    "proxy_service_ok c x" "sim_deps (ext t) = sim_deps w"
proof -
  let ?k = "nn_of c (ProxyServiceName c)" and ?b = "BuildProxyService c" and ?api = "api_svc (sim_sys sv)"
  let ?d = "?b\<lparr> Svc_Meta := (Svc_Meta ?b)\<lparr> Meta_Owners := [Name c] \<rparr> \<rparr>"
  have key: "key_of (Svc_Meta ?b) = ?k" "key_of (Svc_Meta ?d) = ?k"
    by (simp_all add: BuildProxyService_def Let_def key_of_def nn_of_def new_meta_def)
  have deps: "sim_deps (snd (k_create ?api y v)) = sim_deps v" "sim_deps (snd (k_update ?api y v)) = sim_deps v"
    "sim_deps (snd (k_delete ?api y b v)) = sim_deps v" for y v b
    by (simp_all add: sim_sys_def mem_api_def Let_def)
  note eq = reconcile_proxy_service_def Let_def sim_own key_of_owned key wrapped_def void_def attempt_def
  show thesis
  proof (cases "map_of (sim_svcs (ext (start w))) ?k")
    case None
    then obtain e u where u: "run_state (Get KSvc ?api ?k) (start w) = (Inl e, u)" "IsNotFound e" "ext u = ext (start w)"
      by (rule sim_svcs.run_Get_missing)
    have "map_of (sim_svcs (ext u)) (key_of (Svc_Meta ?d)) = None" using None u(3) key by simp
    then obtain t where "run_state (Create KSvc ?api ?d) u = (Inr ?d, t)"
      "map_of (sim_svcs (ext t)) = (map_of (sim_svcs (ext u)))(key_of (Svc_Meta ?d) \<mapsto> ?d)" "ext t = snd (k_create ?api ?d (ext u))"
      by (rule sim_svcs.run_Create_new)
    with u key show thesis by (intro that [of t ?d]) (simp_all add: eq deps proxy_service_ok_def)
  next
    case (Some x)
    then obtain u where u: "run_state (Get KSvc ?api ?k) (start w) = (Inr x, u)" "ext u = ext (start w)"
      by (rule sim_svcs.run_Get_found)
    let ?x = "x\<lparr> Svc_Ports := Svc_Ports ?b, Svc_Selector := Svc_Selector ?b \<rparr>"
    have kx: "key_of (Svc_Meta ?x) = ?k" using well_keyedD [OF assms] Some by simp
    have stored: "map_of (sim_svcs (ext u)) (key_of (Svc_Meta ?x)) \<noteq> None" using Some u(2) kx by simp
    show thesis
    proof (cases "Svc_Type x = Svc_Type ?b")
      case True
      obtain t where "run_state (Update KSvc ?api ?x) u = (Inr ?x, t)"
        "map_of (sim_svcs (ext t)) = (map_of (sim_svcs (ext u)))(key_of (Svc_Meta ?x) \<mapsto> ?x)" "ext t = snd (k_update ?api ?x (ext u))"
        by (rule sim_svcs.run_Update [OF stored])
      with u kx True show thesis by (intro that [of t ?x]) (simp_all add: eq deps proxy_service_ok_def)
    next
      case False
      obtain v where v: "run_state (Delete KSvc ?api ?x False) u = (Inr (), v)"
        "map_of (sim_svcs (ext v)) = (map_of (sim_svcs (ext u)))(key_of (Svc_Meta ?x) := None)" "ext v = snd (k_delete ?api ?x False (ext u))"
        by (rule sim_svcs.run_Delete_stored [OF stored])
      have "map_of (sim_svcs (ext v)) (key_of (Svc_Meta ?d)) = None" using v(2) kx key by simp
      then obtain t where "run_state (Create KSvc ?api ?d) v = (Inr ?d, t)"
        "map_of (sim_svcs (ext t)) = (map_of (sim_svcs (ext v)))(key_of (Svc_Meta ?d) \<mapsto> ?d)" "ext t = snd (k_create ?api ?d (ext v))"
        by (rule sim_svcs.run_Create_new)
      with u v kx key False show thesis by (intro that [of t ?d]) (simp_all add: eq deps proxy_service_ok_def)
    qed
  qed
qed

text \<open>The Deployment after a pass, by the one there was before.\<close>

definition proxy_deployment_ok :: "semver \<Rightarrow> HyperbytedbCluster \<Rightarrow> deployment option \<Rightarrow> deployment \<Rightarrow> bool" where
  "proxy_deployment_ok sv c old d \<longleftrightarrow>
     (let b = BuildProxyDeployment sv c; t = Dep_Template d; before = (case old of None \<Rightarrow> Map.empty | Some x \<Rightarrow> T_Annotations (Dep_Template x))
      in Dep_Replicas d = Dep_Replicas b \<and> Dep_Selector d = Dep_Selector b \<and>
         Dep_MaxUnavailable d = Some (IntVal 0) \<and> T_Labels t = T_Labels (Dep_Template b) \<and>
         T_Spec t = T_Spec (Dep_Template b) \<and> T_Annotations t = before ++ T_Annotations (Dep_Template b))"

lemma sim_sys_semver: "sys_semver (sim_sys sv) = sv"
  by (simp add: sim_sys_def)

lemma proxy_converges:
  assumes svcs: "well_keyed Svc_Meta (sim_svcs w)" and deps: "well_keyed Dep_Meta (sim_deps w)"
  obtains t x d where "run_state (reconcileProxy (sim_sys sv) c) (start w) = (Inr (), t)"
    "map_of (sim_svcs (ext t)) = (map_of (sim_svcs w))(nn_of c (ProxyServiceName c) \<mapsto> x)" "proxy_service_ok c x"
    "map_of (sim_deps (ext t)) = (map_of (sim_deps w))(nn_of c (ProxyDeploymentName c) \<mapsto> d)"
    "proxy_deployment_ok sv c (map_of (sim_deps w) (nn_of c (ProxyDeploymentName c))) d"
proof -
  let ?k = "nn_of c (ProxyDeploymentName c)" and ?b = "BuildProxyDeployment sv c" and ?api = "api_dep (sim_sys sv)"
  let ?d = "?b\<lparr> Dep_Meta := (Dep_Meta ?b)\<lparr> Meta_Owners := [Name c] \<rparr> \<rparr>"
  have key: "key_of (Dep_Meta ?b) = ?k" "key_of (Dep_Meta ?d) = ?k"
    by (simp_all add: BuildProxyDeployment_def Let_def key_of_def nn_of_def new_meta_def)
  have keeps: "sim_svcs (snd (k_create ?api y v)) = sim_svcs v" "sim_svcs (snd (k_update ?api y v)) = sim_svcs v" for y v
    by (simp_all add: sim_sys_def mem_api_def Let_def)
  have new: "proxy_deployment_ok sv c None ?d"
    by (simp add: proxy_deployment_ok_def BuildProxyDeployment_def Let_def)
  have merged: "proxy_deployment_ok sv c (Some x) (merge_dep x ?b)" for x
    by (simp add: proxy_deployment_ok_def merge_dep_def BuildProxyDeployment_def Let_def)
  note eq = reconcileProxy_def Let_def sim_own key_of_owned key attempt_def void_def sim_sys_semver
  obtain s x where s: "run_state (reconcile_proxy_service (sim_sys sv) c) (start w) = (Inr (), s)"
    "map_of (sim_svcs (ext s)) = (map_of (sim_svcs w))(nn_of c (ProxyServiceName c) \<mapsto> x)"
    "proxy_service_ok c x" "sim_deps (ext s) = sim_deps w"
    by (rule proxy_service_converges [OF svcs])
  show thesis
  proof (cases "map_of (sim_deps (ext s)) ?k")
    case None
    then obtain e u where u: "run_state (Get KDep ?api ?k) s = (Inl e, u)" "IsNotFound e" "ext u = ext s"
      by (rule sim_deps.run_Get_missing)
    obtain v where v: "run_state (RecordEvent ''Normal'' ''CreatingProxy'' ''Creating hyperbytedb-proxy Deployment'') u = ((), v)" "ext v = ext u"
      by (simp add: RecordEvent_def emit_def)
    have "map_of (sim_deps (ext v)) (key_of (Dep_Meta ?d)) = None" using None u(3) v(2) key by simp
    then obtain t where "run_state (Create KDep ?api ?d) v = (Inr ?d, t)"
      "map_of (sim_deps (ext t)) = (map_of (sim_deps (ext v)))(key_of (Dep_Meta ?d) \<mapsto> ?d)" "ext t = snd (k_create ?api ?d (ext v))"
      by (rule sim_deps.run_Create_new)
    with s u v key None new show thesis by (intro that [of t x ?d]) (simp_all add: eq keeps)
  next
    case (Some y)
    then obtain u where u: "run_state (Get KDep ?api ?k) s = (Inr y, u)" "ext u = ext s" by (rule sim_deps.run_Get_found)
    let ?y = "merge_dep y ?b"
    have ky: "key_of (Dep_Meta ?y) = ?k" using well_keyedD [OF deps] Some s(4) by (simp add: merge_dep_def Let_def)
    then have "map_of (sim_deps (ext u)) (key_of (Dep_Meta ?y)) \<noteq> None" using Some u(2) by simp
    then obtain t where "run_state (Update KDep ?api ?y) u = (Inr ?y, t)"
      "map_of (sim_deps (ext t)) = (map_of (sim_deps (ext u)))(key_of (Dep_Meta ?y) \<mapsto> ?y)" "ext t = snd (k_update ?api ?y (ext u))"
      by (rule sim_deps.run_Update)
    with s u ky Some merged show thesis by (intro that [of t x ?y]) (simp_all add: eq keeps)
  qed
qed

lemma pdb_budget:
  assumes "well_keyed PDB_Meta (sim_pdbs w)" "in_i32 (replicas_of c)"
  shows "\<exists>t. run_state (reconcilePDB (sim_sys sv) c) (start w) = (Inr (), t) \<and>
     (if replicas_of c < 2 then map_of (sim_pdbs (ext t)) = (map_of (sim_pdbs w))(nn_of c (Name c @ ''-pdb'') := None)
      else \<exists>x. map_of (sim_pdbs (ext t)) = (map_of (sim_pdbs w))(nn_of c (Name c @ ''-pdb'') \<mapsto> x) \<and>
             PDB_MinAvailable x = IntVal (replicas_of c - 1) \<and> PDB_Selector x = CommonLabels c)"
proof (cases "replicas_of c < 2")
  case True
  show ?thesis
    by (rule pdb_removed [OF assms(1) True, of sv]) (use True in auto)
next
  case False
  then have "i32 (replicas_of c - 1) = replicas_of c - 1" using assms(2) by (simp add: i32_id in_i32_def)
  then show ?thesis
    using pdb_converges [OF assms(1), of c sv] False
    by (cases "run_state (reconcilePDB (sim_sys sv) c) (start w)") auto
qed

section \<open>The StatefulSet\<close>

text \<open>The simulated API after a reconciliation of the StatefulSet, and what it makes of the one stored.\<close>

definition after_statefulset :: "semver \<Rightarrow> HyperbytedbCluster \<Rightarrow> string \<Rightarrow> sim \<Rightarrow> sim" where
  "after_statefulset sv c h w = ext (snd (run_state (reconcileStatefulSet (sim_sys sv) c h) (start w)))"

definition settle :: "sts \<Rightarrow> sts option \<Rightarrow> sts option" where
  "settle d x =
     (case x of
        None \<Rightarrow> Some d
      | Some t \<Rightarrow> if Sts_PodManagementPolicy t \<noteq> Sts_PodManagementPolicy d then None else Some (merge_sts t d))"

definition owned_sts :: "semver \<Rightarrow> HyperbytedbCluster \<Rightarrow> string \<Rightarrow> sts" where
  "owned_sts sv c h = (let d = desired_sts (sim_sys sv) c h in d\<lparr> Sts_Meta := (Sts_Meta d)\<lparr> Meta_Owners := [Name c] \<rparr> \<rparr>)"

abbreviation the_sts :: "HyperbytedbCluster \<Rightarrow> nn" where
  "the_sts c \<equiv> nn_of c (StatefulSetName c)"

lemma merge_owned: "merge_sts t (owned_sts sv c h) = merge_sts t (desired_sts (sim_sys sv) c h)"
  by (simp add: merge_sts_def owned_sts_def Let_def)

lemma after_statefulset_settle:
  assumes "\<And>t. map_of (sim_sts w) (the_sts c) = Some t \<Longrightarrow> key_of (Sts_Meta t) = the_sts c"
  shows "map_of (sim_sts (after_statefulset sv c h w))
    = (map_of (sim_sts w))(the_sts c := settle (owned_sts sv c h) (map_of (sim_sts w) (the_sts c)))"
proof -
  let ?S = "sim_sys sv" and ?k = "the_sts c"
  let ?d = "desired_sts ?S c h"
  let ?m = "(Sts_Meta ?d)\<lparr> Meta_Owners := [Name c] \<rparr>"
  let ?o = "?d\<lparr> Sts_Meta := ?m \<rparr>"
  have key: "key_of (Sts_Meta ?d) = ?k" "key_of (Sts_Meta ?o) = ?k"
    by (simp_all add: desired_sts_def BuildStatefulSet_def key_of_def nn_of_def Let_def)
  note eq = after_statefulset_def reconcileStatefulSet_def Let_def sim_own attempt_def key_of_owned key settle_def owned_sts_def
  show ?thesis
  proof (cases "map_of (sim_sts (ext (start w))) ?k")
    case None
    then obtain e u where u: "run_state (Get KSts (api_sts ?S) ?k) (start w) = (Inl e, u)" "IsNotFound e" "ext u = ext (start w)"
      by (rule sim_sts.run_Get_missing)
    obtain v where v: "run_state (RecordEvent ''Normal'' ''CreatingStatefulSet'' ''Creating StatefulSet for cluster'') u = ((), v)" "ext v = ext u"
      by (simp add: RecordEvent_def emit_def)
    have "map_of (sim_sts (ext v)) (key_of (Sts_Meta ?o)) = None" using None u(3) v(2) key by simp
    then obtain t where "run_state (Create KSts (api_sts ?S) ?o) v = (Inr ?o, t)"
      "map_of (sim_sts (ext t)) = (map_of (sim_sts (ext v)))(key_of (Sts_Meta ?o) \<mapsto> ?o)" by (rule sim_sts.run_Create_new)
    with u v key None show ?thesis by (simp add: eq split: option.splits)
  next
    case (Some x)
    then obtain u where u: "run_state (Get KSts (api_sts ?S) ?k) (start w) = (Inr x, u)" "ext u = ext (start w)"
      by (rule sim_sts.run_Get_found)
    have kx: "key_of (Sts_Meta x) = ?k" "key_of (Sts_Meta (merge_sts x ?d)) = ?k" using assms Some by (simp_all add: merge_sts_def)
    have stored: "map_of (sim_sts (ext u)) (key_of (Sts_Meta x)) \<noteq> None"
      "map_of (sim_sts (ext u)) (key_of (Sts_Meta (merge_sts x ?d))) \<noteq> None" using Some u(2) kx by simp_all
    show ?thesis
    proof (cases "Sts_PodManagementPolicy x = Sts_PodManagementPolicy ?d")
      case True
      obtain t where "run_state (Update KSts (api_sts ?S) (merge_sts x ?d)) u = (Inr (merge_sts x ?d), t)"
        "map_of (sim_sts (ext t)) = (map_of (sim_sts (ext u)))(key_of (Sts_Meta (merge_sts x ?d)) \<mapsto> merge_sts x ?d)"
        by (rule sim_sts.run_Update [OF stored(2)])
      with u kx True Some show ?thesis
        by (simp add: eq merge_sts_def split: option.splits)
    next
      case False
      obtain v where v: "run_state (RecordEvent ''Normal'' ''RecreatingStatefulSet''
                (''Recreating StatefulSet to change pod management from '' @ Sts_PodManagementPolicy x
                  @ '' to '' @ Sts_PodManagementPolicy ?d @ ''; pods keep running'')) u = ((), v)" "ext v = ext u"
        by (simp add: RecordEvent_def emit_def)
      have "map_of (sim_sts (ext v)) (key_of (Sts_Meta x)) \<noteq> None" using stored(1) v(2) by simp
      then obtain t where "run_state (Delete KSts (api_sts ?S) x True) v = (Inr (), t)"
        "map_of (sim_sts (ext t)) = (map_of (sim_sts (ext v)))(key_of (Sts_Meta x) := None)"
        by (rule sim_sts.run_Delete_stored)
      with u v kx False Some show ?thesis by (simp add: eq)
    qed
  qed
qed

text \<open>Merging once is merging for good, and a new StatefulSet needs no merging.\<close>

lemma merge_sts_idem: "merge_sts (merge_sts t d) d = merge_sts t d"
  by (simp add: merge_sts_def Let_def)

lemma merge_sts_self: "merge_sts d d = d"
  by (simp add: merge_sts_def Let_def)

lemma merge_sts_policy: "Sts_PodManagementPolicy (merge_sts t d) = Sts_PodManagementPolicy t"
  by (simp add: merge_sts_def)

lemma settle_settled:
  assumes "settle d x = Some t"
  shows "settle d (Some t) = Some t"
proof (cases x)
  case None
  with assms show ?thesis by (auto simp: settle_def merge_sts_self)
next
  case (Some y)
  then have t: "t = merge_sts y d" "Sts_PodManagementPolicy y = Sts_PodManagementPolicy d"
    using assms by (auto simp: settle_def split: if_splits)
  then have "Sts_PodManagementPolicy t = Sts_PodManagementPolicy d" by (simp add: merge_sts_def)
  then show ?thesis by (simp add: settle_def t(1) merge_sts_idem)
qed

lemma settle_twice: "\<exists>t. settle d (settle d x) = Some t"
  by (cases "settle d x") (auto simp: settle_def [of d None] settle_settled)

lemma settle_carries:
  assumes "settle (owned_sts sv c h) x = Some t"
  shows "carries sv c h t" "Sts_PodManagementPolicy t = podManagementPolicy c (clusterMetadataEnabled c)"
    "\<And>t0. x = Some t0 \<Longrightarrow> same_identity t0 t"
proof -
  have sv: "sys_semver (sim_sys sv) = sv" by (rule sim_sys_semver)
  have policy: "Sts_PodManagementPolicy (owned_sts sv c h) = podManagementPolicy c (clusterMetadataEnabled c)"
    by (simp add: owned_sts_def Let_def desired_policy)
  from assms consider "x = None" "t = owned_sts sv c h"
    | y where "x = Some y" "t = merge_sts y (owned_sts sv c h)" "Sts_PodManagementPolicy y = Sts_PodManagementPolicy (owned_sts sv c h)"
    by (auto simp: settle_def split: option.splits if_splits)
  then have "carries sv c h t \<and> Sts_PodManagementPolicy t = podManagementPolicy c (clusterMetadataEnabled c) \<and>
      (\<forall>t0. x = Some t0 \<longrightarrow> same_identity t0 t)"
  proof cases
    case 1
    then show ?thesis using desired_carries(1) [of "sim_sys sv" c h] policy unfolding sv by (simp add: owned_sts_def Let_def)
  next
    case 2
    then show ?thesis
      using desired_carries(2) [of "sim_sys sv" c h y] policy merge_sts_identity
      unfolding sv merge_owned by (simp add: merge_sts_policy)
  qed
  then show "carries sv c h t" "Sts_PodManagementPolicy t = podManagementPolicy c (clusterMetadataEnabled c)"
    "\<And>t0. x = Some t0 \<Longrightarrow> same_identity t0 t" by blast+
qed

definition sts_keyed :: "HyperbytedbCluster \<Rightarrow> sim \<Rightarrow> bool" where
  "sts_keyed c w \<longleftrightarrow> pred_option (\<lambda>t. key_of (Sts_Meta t) = the_sts c) (map_of (sim_sts w) (the_sts c))"

lemma after_statefulset_keyed:
  assumes "sts_keyed c w"
  shows "sts_keyed c (after_statefulset sv c h w)"
    "map_of (sim_sts (after_statefulset sv c h w))
       = (map_of (sim_sts w))(the_sts c := settle (owned_sts sv c h) (map_of (sim_sts w) (the_sts c)))"
proof -
  show eq: "map_of (sim_sts (after_statefulset sv c h w))
       = (map_of (sim_sts w))(the_sts c := settle (owned_sts sv c h) (map_of (sim_sts w) (the_sts c)))"
    by (rule after_statefulset_settle) (use assms in \<open>simp add: sts_keyed_def\<close>)
  have "key_of (Sts_Meta (owned_sts sv c h)) = the_sts c"
    by (simp add: owned_sts_def Let_def desired_sts_def BuildStatefulSet_def key_of_def nn_of_def)
  then show "sts_keyed c (after_statefulset sv c h w)"
    using assms unfolding sts_keyed_def eq
    by (auto simp: settle_def merge_sts_def split: option.splits)
qed

section \<open>Properties\<close>

text \<open>
  C18. The object reconcilers converge: on an API that stores what is written, one pass succeeds,
  whatever was stored before, and touches no other object of the kind. It leaves under the object's
  name a ConfigMap with the rendered configuration, a Service with the desired ports and selector, the
  proxy's Service with the desired type too (recreated when the type changed) and its Deployment with
  the generated pods, keeping annotations others set on the template, and an autoscaler exactly when
  autoscaling is enabled, with the bounds of the spec. With two or more replicas it leaves a disruption
  budget that keeps all but one of the pods, with fewer none, so that a node drain is never blocked by a
  single-replica cluster.
\<close>

theorem objects_converge:
  assumes "well_keyed CM_Meta (sim_cms w)" "well_keyed Svc_Meta (sim_svcs w)" "well_keyed Dep_Meta (sim_deps w)"
    "well_keyed HPA_Meta (sim_hpas w)" "well_keyed PDB_Meta (sim_pdbs w)" "in_i32 (replicas_of c)"
  shows "(\<exists>m t. run_state (reconcileConfigMap (sim_sys sv) c) (start w) = (Inr (), t) \<and>
       map_of (sim_cms (ext t)) = (map_of (sim_cms w))(nn_of c (ConfigMapName c) \<mapsto> m) \<and>
       CM_Data m ''config.toml'' = Some (renderConfigTOML sv c)) \<and>
     (\<exists>x t. run_state (reconcileService (sim_sys sv) c v) (start w) = (Inr (), t) \<and>
       map_of (sim_svcs (ext t)) = (map_of (sim_svcs w))(key_of (Svc_Meta v) \<mapsto> x) \<and>
       Svc_Ports x = Svc_Ports v \<and> Svc_Selector x = Svc_Selector v) \<and>
     (\<exists>x d t. run_state (reconcileProxy (sim_sys sv) c) (start w) = (Inr (), t) \<and>
       map_of (sim_svcs (ext t)) = (map_of (sim_svcs w))(nn_of c (ProxyServiceName c) \<mapsto> x) \<and> proxy_service_ok c x \<and>
       map_of (sim_deps (ext t)) = (map_of (sim_deps w))(nn_of c (ProxyDeploymentName c) \<mapsto> d) \<and>
       proxy_deployment_ok sv c (map_of (sim_deps w) (nn_of c (ProxyDeploymentName c))) d) \<and>
     (\<exists>t. run_state (reconcileHPA (sim_sys sv) c) (start w) = (Inr (), t) \<and>
       (case Spec_Autoscaling (Spec c) of
          Some a \<Rightarrow>
            if AS_Enabled a
            then \<exists>m. map_of (sim_hpas (ext t)) = (map_of (sim_hpas w))(nn_of c (Name c) \<mapsto> (desired_hpa c a)\<lparr> HPA_Meta := m \<rparr>)
            else map_of (sim_hpas (ext t)) = (map_of (sim_hpas w))(nn_of c (Name c) := None)
        | None \<Rightarrow> map_of (sim_hpas (ext t)) = (map_of (sim_hpas w))(nn_of c (Name c) := None))) \<and>
     (\<exists>t. run_state (reconcilePDB (sim_sys sv) c) (start w) = (Inr (), t) \<and>
       (if replicas_of c < 2 then map_of (sim_pdbs (ext t)) = (map_of (sim_pdbs w))(nn_of c (Name c @ ''-pdb'') := None)
        else \<exists>x. map_of (sim_pdbs (ext t)) = (map_of (sim_pdbs w))(nn_of c (Name c @ ''-pdb'') \<mapsto> x) \<and>
               PDB_MinAvailable x = IntVal (replicas_of c - 1) \<and> PDB_Selector x = CommonLabels c))"
proof (intro conjI)
  show "\<exists>m t. run_state (reconcileConfigMap (sim_sys sv) c) (start w) = (Inr (), t) \<and>
       map_of (sim_cms (ext t)) = (map_of (sim_cms w))(nn_of c (ConfigMapName c) \<mapsto> m) \<and>
       CM_Data m ''config.toml'' = Some (renderConfigTOML sv c)"
    using configmap_converges [OF assms(1), of sv c] by (metis prod.collapse)
  show "\<exists>x t. run_state (reconcileService (sim_sys sv) c v) (start w) = (Inr (), t) \<and>
       map_of (sim_svcs (ext t)) = (map_of (sim_svcs w))(key_of (Svc_Meta v) \<mapsto> x) \<and>
       Svc_Ports x = Svc_Ports v \<and> Svc_Selector x = Svc_Selector v"
    using service_converges [OF assms(2), of sv c v] by (metis prod.collapse)
qed (rule proxy_converges [OF assms(2,3)], blast,
     rule hpa_converges [OF assms(4)], (auto split: option.splits)[], rule pdb_budget [OF assms(5,6)])

text \<open>
  Put to work on a ConfigMap with old contents and a proxy Deployment that was restarted by hand: the
  contents are replaced, the restart annotation stays.
\<close>

definition stale_map :: config_map where
  "stale_map = \<lparr> CM_Meta = new_meta ''t-config'' ''p'' Map.empty, CM_Data = [''config.toml'' \<mapsto> ''old''] \<rparr>"

definition restarted_proxy :: "HyperbytedbCluster \<Rightarrow> deployment" where
  "restarted_proxy c = (let d = BuildProxyDeployment no_semver c in
     d\<lparr> Dep_Replicas := Some 7, Dep_Template := (Dep_Template d)\<lparr> T_Annotations := [''restartedAt'' \<mapsto> ''now''] \<rparr> \<rparr>)"

theorem objects_converge_witness:
  "(\<exists>m t. run_state (reconcileConfigMap (sim_sys no_semver) (new_cluster ''t'' ''p''))
       (start (sim_empty\<lparr> sim_cms := [(key_of (CM_Meta stale_map), stale_map)] \<rparr>)) = (Inr (), t) \<and>
     map_of (sim_cms (ext t)) (nn_of (new_cluster ''t'' ''p'') ''t-config'') = Some m \<and>
     CM_Data m ''config.toml'' = Some (renderConfigTOML no_semver (new_cluster ''t'' ''p''))) \<and>
   (\<exists>d t. run_state (reconcileProxy (sim_sys no_semver) (new_cluster ''t'' ''p''))
       (start (sim_empty\<lparr> sim_deps := [(nn_of (new_cluster ''t'' ''p'') ''t-proxy'', restarted_proxy (new_cluster ''t'' ''p''))] \<rparr>)) = (Inr (), t) \<and>
     map_of (sim_deps (ext t)) (nn_of (new_cluster ''t'' ''p'') ''t-proxy'') = Some d \<and>
     Dep_Replicas d = Some 2 \<and> T_Annotations (Dep_Template d) ''restartedAt'' = Some ''now'')"
proof -
  let ?c = "new_cluster ''t'' ''p''"
  let ?w = "sim_empty\<lparr> sim_cms := [(key_of (CM_Meta stale_map), stale_map)] \<rparr>"
  let ?v = "sim_empty\<lparr> sim_deps := [(nn_of ?c ''t-proxy'', restarted_proxy ?c)] \<rparr>"
  have one: "replicas_of ?c = 1" by code_simp
  have name: "ConfigMapName ?c = ''t-config''" "ProxyDeploymentName ?c = ''t-proxy''" by code_simp+
  have key: "key_of (Dep_Meta (restarted_proxy ?c)) = nn_of ?c ''t-proxy''"
    by (simp add: restarted_proxy_def BuildProxyDeployment_def Let_def key_of_def nn_of_def new_meta_def name)
  have w: "well_keyed CM_Meta (sim_cms ?w)" "well_keyed Svc_Meta (sim_svcs ?w)" "well_keyed Dep_Meta (sim_deps ?w)"
    "well_keyed HPA_Meta (sim_hpas ?w)" "well_keyed PDB_Meta (sim_pdbs ?w)" "in_i32 (replicas_of ?c)"
    by (simp_all add: well_keyed_def sim_empty_def in_i32_def one)
  have v: "well_keyed CM_Meta (sim_cms ?v)" "well_keyed Svc_Meta (sim_svcs ?v)" "well_keyed Dep_Meta (sim_deps ?v)"
    "well_keyed HPA_Meta (sim_hpas ?v)" "well_keyed PDB_Meta (sim_pdbs ?v)" "in_i32 (replicas_of ?c)"
    using key by (simp_all add: well_keyed_def sim_empty_def in_i32_def one)
  have spec: "Dep_Replicas (BuildProxyDeployment no_semver ?c) = Some 2"
    "T_Annotations (Dep_Template (BuildProxyDeployment no_semver ?c)) = Map.empty"
    by (simp_all add: BuildProxyDeployment_def Let_def new_cluster_def zero_ClusterSpec_def zero_ProxySpec_def deref_def)
  show ?thesis
    using objects_converge [OF w, where sv = no_semver and v = "BuildHeadlessService ?c"]
      objects_converge [OF v, where sv = no_semver and v = "BuildHeadlessService ?c"] spec
    unfolding name by (auto simp: proxy_deployment_ok_def Let_def restarted_proxy_def)
qed

text \<open>
  C29. The StatefulSet settles. On an API that stores what is written, at most two reconciliations,
  whatever was stored before, leave under the cluster's name a StatefulSet with the spec's count, the generated
  pods and the pod management policy of the cluster, further ones do not change it, and no other StatefulSet is
  touched. The first is enough unless the policy differs: then the old one is deleted first, leaving its pods. One
  that has the policy keeps its identity, claims and status.
\<close>

theorem statefulset_settles:
  assumes "sts_keyed c w"
  shows "\<exists>t. carries sv c h t \<and> Sts_PodManagementPolicy t = podManagementPolicy c (clusterMetadataEnabled c) \<and>
     (\<forall>n\<ge>2. map_of (sim_sts ((after_statefulset sv c h ^^ n) w)) = (map_of (sim_sts w))(the_sts c \<mapsto> t)) \<and>
     (case map_of (sim_sts w) (the_sts c) of
        None \<Rightarrow> map_of (sim_sts (after_statefulset sv c h w)) (the_sts c) = Some t
      | Some old \<Rightarrow>
          if Sts_PodManagementPolicy old = podManagementPolicy c (clusterMetadataEnabled c)
          then map_of (sim_sts (after_statefulset sv c h w)) (the_sts c) = Some t \<and> same_identity old t
          else map_of (sim_sts (after_statefulset sv c h w)) (the_sts c) = None)"
proof -
  let ?f = "after_statefulset sv c h" and ?d = "owned_sts sv c h" and ?k = "the_sts c"
  let ?x = "map_of (sim_sts w) ?k"
  obtain t where t: "settle ?d (settle ?d ?x) = Some t" using settle_twice by blast
  have fixed: "settle ?d (Some t) = Some t" using settle_settled [OF t] .
  have one: "sts_keyed c (?f w)" "map_of (sim_sts (?f w)) = (map_of (sim_sts w))(?k := settle ?d ?x)"
    using after_statefulset_keyed [OF assms] by blast+
  have late: "sts_keyed c ((?f ^^ (m + 2)) w) \<and> map_of (sim_sts ((?f ^^ (m + 2)) w)) = (map_of (sim_sts w))(?k \<mapsto> t)" for m
  proof (induction m)
    case 0
    then show ?case using after_statefulset_keyed [OF one(1)] one(2) t by (simp add: numeral_2_eq_2)
  next
    case (Suc m)
    let ?v = "(?f ^^ (m + 2)) w"
    have v: "sts_keyed c ?v" "map_of (sim_sts ?v) = (map_of (sim_sts w))(?k \<mapsto> t)" using Suc by blast+
    have "map_of (sim_sts (?f ?v)) = (map_of (sim_sts w))(?k \<mapsto> t)"
      unfolding after_statefulset_keyed(2) [OF v(1)] v(2) by (simp add: fixed)
    moreover have "(?f ^^ (Suc m + 2)) w = ?f ?v" by simp
    ultimately show ?case using after_statefulset_keyed(1) [OF v(1)] by metis
  qed
  have policy: "Sts_PodManagementPolicy ?d = podManagementPolicy c (clusterMetadataEnabled c)"
    by (simp add: owned_sts_def Let_def desired_policy)
  have first: "settle ?d ?x = Some t" if "settle ?d ?x \<noteq> None"
    using that t settle_settled by fastforce
  have "map_of (sim_sts ((?f ^^ n) w)) = (map_of (sim_sts w))(?k \<mapsto> t)" if "2 \<le> n" for n
    using late [of "n - 2"] that by (metis le_add_diff_inverse2)
  moreover have "case ?x of
        None \<Rightarrow> map_of (sim_sts (?f w)) ?k = Some t
      | Some old \<Rightarrow>
          if Sts_PodManagementPolicy old = podManagementPolicy c (clusterMetadataEnabled c)
          then map_of (sim_sts (?f w)) ?k = Some t \<and> same_identity old t
          else map_of (sim_sts (?f w)) ?k = None"
    using one(2) first policy settle_carries(3) [of sv c h ?x t]
    by (auto simp: settle_def split: option.splits)
  ultimately show ?thesis using settle_carries(1,2) [OF t] by blast
qed

text \<open>A StatefulSet from before the cluster asked for parallel pods: it is replaced, then stays.\<close>

definition old_policy :: sim where
  "old_policy = sim_empty\<lparr> sim_sts := [(the_sts (new_cluster ''t'' ''p''),
     (owned_sts no_semver (new_cluster ''t'' ''p'') ''h'')\<lparr> Sts_PodManagementPolicy := ''None'' \<rparr>)] \<rparr>"

theorem statefulset_settles_witness:
  "\<exists>t. map_of (sim_sts ((after_statefulset no_semver (new_cluster ''t'' ''p'') ''h'' ^^ 7) old_policy)) (the_sts (new_cluster ''t'' ''p''))
     = Some t \<and> Sts_Replicas t = Some 1 \<and>
     map_of (sim_sts (after_statefulset no_semver (new_cluster ''t'' ''p'') ''h'' old_policy)) (the_sts (new_cluster ''t'' ''p'')) = None"
proof -
  let ?c = "new_cluster ''t'' ''p''"
  have stored: "map_of (sim_sts old_policy) (the_sts ?c) = Some ((owned_sts no_semver ?c ''h'')\<lparr> Sts_PodManagementPolicy := ''None'' \<rparr>)"
    by (simp add: old_policy_def)
  have "key_of (Sts_Meta (owned_sts no_semver ?c ''h'')) = the_sts ?c"
    by (simp add: owned_sts_def Let_def desired_sts_def BuildStatefulSet_def key_of_def nn_of_def)
  then have keyed: "sts_keyed ?c old_policy" by (simp add: sts_keyed_def stored)
  have policy: "''None'' \<noteq> podManagementPolicy ?c (clusterMetadataEnabled ?c)" by code_simp
  have one: "replicas_of ?c = 1" by code_simp
  from statefulset_settles [OF keyed, of no_semver "''h''"] obtain t where
    "carries no_semver ?c ''h'' t" "map_of (sim_sts ((after_statefulset no_semver ?c ''h'' ^^ 7) old_policy)) (the_sts ?c) = Some t"
    "map_of (sim_sts (after_statefulset no_semver ?c ''h'' old_policy)) (the_sts ?c) = None"
    using policy by (auto simp: stored)
  with one show ?thesis by (auto simp: carries_def)
qed

end
