(* ===== verification/Cluster_Controller.thy ===== *)
theory Cluster_Controller
  imports Resources Trace
begin

text \<open>
  \<^verbatim>\<open>HyperbytedbClusterReconciler.Reconcile\<close>: one pass over a cluster, with its early returns, in
  the order of the source. The long function is cut at its numbered steps; each piece takes the
  local variables it uses. A result is the requeue delay (0 for none) and the returned error; a
  panic, which controller-runtime turns into an error, is \<^const>\<open>NilDeref\<close>.
\<close>

type_synonym reconcile_result = "int \<times> err option"

definition clusterFinalizer :: string where
  "clusterFinalizer = ''hyperbytedb.hyperbyte.cloud/finalizer''"

section \<open>Status\<close>

definition put_phase :: "ClusterPhase \<Rightarrow> HyperbytedbCluster \<Rightarrow> HyperbytedbCluster" where
  "put_phase p c = c\<lparr> Status := (Status c)\<lparr> Status_Phase := p \<rparr> \<rparr>"

definition setFailedStatus ::
  "'w sys \<Rightarrow> HyperbytedbCluster \<Rightarrow> string \<Rightarrow> err \<Rightarrow> ('w, reconcile_result) prog" where
  "setFailedStatus S c reason e = do {
     c1 \<leftarrow> set_cond_now S (put_phase ClusterPhaseFailed c) ''Degraded'' ConditionTrue reason (err_text e);
     _ \<leftarrow> StatusUpdate KCluster (api_cluster S) c1;
     RecordEvent ''Warning'' reason (''Reconciliation failed: '' @ err_text e);
     ret (30 * second, Some e) }"

definition updatePhase :: "'w sys \<Rightarrow> HyperbytedbCluster \<Rightarrow> ClusterPhase \<Rightarrow> ('w, unit) prog" where
  "updatePhase S c phase = do {
     _ \<leftarrow> StatusUpdate KCluster (api_cluster S) (put_phase phase c);
     ret () }"

definition put_counts :: "stsReconcileResult \<Rightarrow> string \<Rightarrow> HyperbytedbCluster \<Rightarrow> HyperbytedbCluster" where
  "put_counts sr configHash c =
     c\<lparr> Status := (Status c)\<lparr> Status_Replicas := SR_SpecReplicas sr, Status_ReadyReplicas := SR_ReadyReplicas sr,
          Status_ConfigHash := configHash \<rparr> \<rparr>"

definition next_phase :: "stsReconcileResult \<Rightarrow> bool \<Rightarrow> ClusterPhase \<Rightarrow> ClusterPhase" where
  "next_phase sr rollingUpgrade phase =
     (if SR_ReadyReplicas sr = SR_SpecReplicas sr \<and> SR_SpecReplicas sr > 0 then ClusterPhaseRunning
      else if phase = ClusterPhaseFailed then phase
      else if phase = ClusterPhaseScaling then phase
      else if rollingUpgrade then ClusterPhaseUpgrading
      else ClusterPhaseInitializing)"

definition updateStatus ::
  "'w sys \<Rightarrow> HyperbytedbCluster \<Rightarrow> stsReconcileResult \<Rightarrow> string \<Rightarrow> ('w, unit) prog" where
  "updateStatus S c sr configHash =
     (let c1 = put_counts sr configHash c;
          ready = dec (SR_ReadyReplicas sr) @ ''/'' @ dec (SR_SpecReplicas sr) @ '' replicas ready''
      in do {
        g \<leftarrow> Get KSts (api_sts S) (nn_of c (StatefulSetName c));
        let rollingUpgrade = (case g of Inl _ \<Rightarrow> False
              | Inr s \<Rightarrow> StsS_UpdateRevision s \<noteq> [] \<and> StsS_UpdateRevision s \<noteq> StsS_CurrentRevision s);
        let c2 = put_phase (next_phase sr rollingUpgrade (Status_Phase (Status c1))) c1;
        c3 \<leftarrow> (if SR_ReadyReplicas sr = SR_SpecReplicas sr \<and> SR_SpecReplicas sr > 0
               then set_cond_now S c2 ''Available'' ConditionTrue ''AllReplicasReady'' ready
               else set_cond_now S c2 ''Available'' ConditionFalse ''ReplicasNotReady'' ready);
        _ \<leftarrow> StatusUpdate KCluster (api_cluster S) c3;
        ret () })"

section \<open>The pass\<close>

definition orFail ::
  "'w sys \<Rightarrow> HyperbytedbCluster \<Rightarrow> string \<Rightarrow> ('w, 'a result) prog \<Rightarrow> ('a \<Rightarrow> ('w, reconcile_result) prog) \<Rightarrow>
   ('w, reconcile_result) prog" where
  "orFail S c reason m f = do { r \<leftarrow> m; case r of Inl e \<Rightarrow> setFailedStatus S c reason e | Inr a \<Rightarrow> f a }"

text \<open>A step whose error is only logged.\<close>

definition logged :: "('w, 'a result) prog \<Rightarrow> ('w, unit) prog" where
  "logged m = do { _ \<leftarrow> m; ret () }"

text \<open>Steps 12 to 15: members, conditions, membership, replication, failover.\<close>

definition put_member_status :: "MemberStatus list \<Rightarrow> HyperbytedbCluster \<Rightarrow> HyperbytedbCluster" where
  "put_member_status ms c =
     c\<lparr> Status := (Status c)\<lparr> Status_Members := ms, Status_ClusterState := DeriveClusterState ms \<rparr> \<rparr>"

definition reconcile_members ::
  "'w sys \<Rightarrow> string \<Rightarrow> HyperbytedbCluster \<Rightarrow> int \<Rightarrow> ('w, HyperbytedbCluster) prog" where
  "reconcile_members S tok c replicas = do {
     members \<leftarrow> CollectMemberStatuses S tok c (Namespace c) replicas;
     let c1 = put_member_status members c;
     let (reason, message) = CompatibilitySummary (sys_semver S) c1;
     c2 \<leftarrow> set_cond_gen S c1 ''DatabaseVersion''
            (if reason = ''OlderThanSupported'' then ConditionFalse else ConditionTrue) reason message;
     c3 \<leftarrow> (if replicas > 1 then reconcileClusterMembership S tok c2 replicas else ret c2);
     c4 \<leftarrow> (if replicas > 1 then monitorReplicationHealth S tok c3 replicas else ret c3);
     (c5, _) \<leftarrow> handleAutoFailover S c4 members;
     ret c5 }"

text \<open>Steps 7 to 16, after the StatefulSet and the rolling restart.\<close>

definition reconcile_rest ::
  "'w sys \<Rightarrow> string \<Rightarrow> HyperbytedbCluster \<Rightarrow> int \<Rightarrow> int \<Rightarrow> string \<Rightarrow> stsReconcileResult \<Rightarrow> ('w, reconcile_result) prog" where
  "reconcile_rest S tok c prev replicas configHash sr =
     (if SR_SpecReplicas sr \<noteq> replicas then do {
        RecordEvent ''Normal'' (if replicas > SR_SpecReplicas sr then ''ScalingUp'' else ''ScalingDown'')
          (''Scaling from '' @ dec (SR_SpecReplicas sr) @ '' to '' @ dec replicas @ '' replicas'');
        updatePhase S c ClusterPhaseScaling;
        ret (5 * second, None) }
      else do {
        (if prev > replicas then logged (CleanupOrphanPVCs S c prev replicas) else ret ());
        (if Mon_ServiceMonitor (Spec_Monitoring (Spec c)) then logged (reconcileServiceMonitor S c) else ret ());
        logged (reconcilePDB S c);
        logged (reconcileHPA S c);
        c1 \<leftarrow> reconcile_members S tok c replicas;
        c2 \<leftarrow> set_cond_gen S c1 ''Degraded'' ConditionFalse ''Reconciled'' ''the last reconcile completed'';
        updateStatus S c2 sr configHash;
        ret (30 * second, None) })"

text \<open>Steps 6 to 6b: the StatefulSet, its stuck pods, the proxy and the rolling restart.\<close>

definition reconcile_workload ::
  "'w sys \<Rightarrow> string \<Rightarrow> HyperbytedbCluster \<Rightarrow> int \<Rightarrow> int \<Rightarrow> string \<Rightarrow> ('w, reconcile_result) prog" where
  "reconcile_workload S tok c prev replicas configHash = do {
     r \<leftarrow> reconcileStatefulSet S c configHash;
     case r of
       Inl e \<Rightarrow> if IsConflict e then ret (second, None) else setFailedStatus S c ''StatefulSetFailed'' e
     | Inr sr \<Rightarrow>
         if SR_Recreating sr then ret (2 * second, None)
         else orFail S c ''ScaleDownFailed'' (deleteStuckDepartedPods S c sr) (\<lambda>_. do {
           (if ProxyEnabled c then logged (reconcileProxy S c) else ret ());
           if ProxyEnabled c
           then do {
             (c1, rr) \<leftarrow> reconcileRollingRestart S tok c sr replicas;
             case rr of
               Inl e \<Rightarrow> setFailedStatus S c1 ''RollingRestartFailed'' e
             | Inr (Some d) \<Rightarrow> ret (d, None)
             | Inr None \<Rightarrow> reconcile_rest S tok c1 prev replicas configHash sr }
           else reconcile_rest S tok c prev replicas configHash sr }) }"

text \<open>Steps 1 to 5: the objects the StatefulSet needs; the rest of the pass gets the cluster token.\<close>

definition reconcile_inputs ::
  "'w sys \<Rightarrow> HyperbytedbCluster \<Rightarrow> int \<Rightarrow> (string \<Rightarrow> ('w, reconcile_result) prog) \<Rightarrow> ('w, reconcile_result) prog" where
  "reconcile_inputs S c replicas next_step =
     orFail S c ''TLSFailed'' (reconcileTLS S c replicas) (\<lambda>_.
     orFail S c ''AuthSecretFailed''
       (if ClusterAuthEnabled (sys_semver S) c then reconcileAuthSecret S c else ret (Inr [])) (\<lambda>tok.
     orFail S c ''ConfigMapFailed'' (reconcileConfigMap S c) (\<lambda>_. do {
       logged (cleanupLegacyPeersConfigMap S c);
       orFail S c ''HeadlessServiceFailed'' (reconcileService S c (BuildHeadlessService c)) (\<lambda>_.
       orFail S c ''ClientServiceFailed'' (reconcileService S c (BuildClientService c)) (\<lambda>_.
       next_step tok)) })))"

definition reconcile_from ::
  "'w sys \<Rightarrow> HyperbytedbCluster \<Rightarrow> string \<Rightarrow> int \<Rightarrow> ('w, reconcile_result) prog" where
  "reconcile_from S c configHash prev =
     reconcile_inputs S c (replicas_of c) (\<lambda>tok. do {
       ready \<leftarrow> runScaleDownClusterHooks S tok c prev (replicas_of c);
       if \<not> ready then ret (10 * second, None)
       else reconcile_workload S tok c prev (replicas_of c) configHash })"

definition reconcile_cluster :: "'w sys \<Rightarrow> HyperbytedbCluster \<Rightarrow> ('w, reconcile_result) prog" where
  "reconcile_cluster S c =
     (let configHash = ConfigHash (sys_semver S) c in do {
       g \<leftarrow> Get KSts (api_sts S) (nn_of c (StatefulSetName c));
       case g of
         Inr cur \<Rightarrow>
           (case Sts_Replicas cur of
              Some p \<Rightarrow> reconcile_from S c configHash p
            | None \<Rightarrow> ret (0, Some NilDeref))
       | Inl e \<Rightarrow>
           if IsNotFound e then reconcile_from S c configHash 0
           else setFailedStatus S c ''StatefulSetLookupFailed'' e })"

definition reconcile_found :: "'w sys \<Rightarrow> HyperbytedbCluster \<Rightarrow> ('w, reconcile_result) prog" where
  "reconcile_found S c0 =
     (if Spec_Paused (Spec c0) then do {
        c1 \<leftarrow> set_cond_now S c0 ''Paused'' ConditionTrue ''UserRequested'' ''Reconciliation is paused'';
        _ \<leftarrow> StatusUpdate KCluster (api_cluster S) c1;
        ret (0, None) }
      else (let c1 = put_conditions (remove_condition S (Status_Conditions (Status c0)) ''Paused'') c0 in
        if Meta_DeletionTimestamp (Meta c1) \<noteq> None then
          (if contains_finalizer S (Meta c1) clusterFinalizer then do {
             RecordEvent ''Normal'' ''Deleting'' ''Cleaning up cluster resources'';
             u \<leftarrow> Update KCluster (api_cluster S) (c1\<lparr> Meta := remove_finalizer S clusterFinalizer (Meta c1) \<rparr>);
             ret (0, err_of u) }
           else ret (0, None))
        else if \<not> contains_finalizer S (Meta c1) clusterFinalizer then do {
          u \<leftarrow> Update KCluster (api_cluster S) (c1\<lparr> Meta := add_finalizer S clusterFinalizer (Meta c1) \<rparr>);
          case u of
            Inl e \<Rightarrow> ret (0, Some e)
          | Inr c2 \<Rightarrow> reconcile_cluster S c2 }
        else reconcile_cluster S c1))"

definition Reconcile :: "'w sys \<Rightarrow> nn \<Rightarrow> ('w, reconcile_result) prog" where
  "Reconcile S req = do {
     g \<leftarrow> Get KCluster (api_cluster S) req;
     case g of
       Inl e \<Rightarrow> if IsNotFound e then ret (0, None) else ret (0, Some e)
     | Inr c0 \<Rightarrow> reconcile_found S c0 }"

section \<open>Events that can lose data\<close>

text \<open>
  The writes that shrink a cluster or delete its data: updates of a StatefulSet, its deletion
  together with its pods, and deletions of volume claims. All other events of a pass are quiet.
\<close>

definition quiet :: "event \<Rightarrow> bool" where
  "quiet e = (case e of EvUpdate (KSts _) _ \<Rightarrow> False | EvDelete (KPvc _) _ _ \<Rightarrow> False
     | EvDelete (KSts _) orphan _ \<Rightarrow> orphan | _ \<Rightarrow> True)"

lemma emits_own [emits_intro]: "(\<And>m'. emits P (f m')) \<Longrightarrow> emits P (own S c m f)"
  unfolding own_def by (intro emits_intro) simp_all

lemma emits_create_or_update [emits_intro]:
  assumes "\<And>r. P (EvGet k r)" "\<And>r. P (EvCreate (K desired) r)"
    and "\<And>x y r. change x = Some y \<Longrightarrow> P (EvUpdate (K y) r)"
  shows "emits P (create_or_update K api k desired change)"
  unfolding create_or_update_def by (intro emits_intro) (use assms in auto)

lemma emits_wrapped [emits_intro]: "emits P m \<Longrightarrow> emits P (wrapped msg m)"
  unfolding wrapped_def by (intro emits_intro)

lemma emits_logged [emits_intro]: "emits P m \<Longrightarrow> emits P (logged m)"
  unfolding logged_def by (intro emits_intro)

lemma emits_set_cond_gen [emits_intro]: "emits P (set_cond_gen S c ty st reason msg)"
  unfolding set_cond_gen_def by (intro emits_intro)

declare emits_set_cond_now [emits_intro]

lemma emits_fill_keys: "(\<And>k val. (k, val) \<in> set ks \<Longrightarrow> emits P val) \<Longrightarrow> emits P (fill_keys ks data ch)"
  by (induction ks data ch rule: fill_keys.induct) (auto intro!: emits_intro)

text \<open>
  Which events the steps of a pass add, whatever a property \<open>P\<close> of events is used for: the calls
  below are all an ordinary step makes, so \<open>P\<close> has to hold of these.
\<close>

named_theorems calls_intro \<open>programs that make ordinary calls only\<close>

locale ordinary_calls =
  fixes P :: "event \<Rightarrow> bool"
  assumes reads: "P (EvGet k g)" "P (EvList sel l)"
    and http: "P (EvNoRequest meth u e)" "P (EvHttp q a)"
    and recorded: "P (EvRecord ty reason msg)"
    and cluster: "P (EvStatus (KCluster c) r)" "P (EvUpdate (KCluster c) r)"
    and creates: "P (EvCreate (KSecret sec) r)" "P (EvCreate (KCm cm) r)" "P (EvCreate (KSvc v) r)" "P (EvCreate (KSm sm) r)"
      "P (EvCreate (KPdb pdb) r)" "P (EvCreate (KHpa hpa) r)" "P (EvCreate (KDep dep) r)" "P (EvCreate (KSts st) r)"
    and updates: "P (EvUpdate (KSecret sec) r)" "P (EvUpdate (KCm cm) r)" "P (EvUpdate (KSvc v) r)"
      "P (EvUpdate (KPdb pdb) r)" "P (EvUpdate (KHpa hpa) r)" "P (EvUpdate (KDep dep) r)"
    and patched: "P (EvPatch (KSts st) (KSts st') r)"
    and deletes: "P (EvDelete (KPod p) b r)" "P (EvDelete (KCm cm) b r)" "P (EvDelete (KSvc v) b r)"
      "P (EvDelete (KPdb pdb) b r)" "P (EvDelete (KHpa hpa) b r)" "P (EvDelete (KSts st) True r)"
begin

lemmas laws [simp] = reads http recorded cluster creates updates patched deletes

lemma calls_http [simp]: "http_to m u b e \<Longrightarrow> P e"
  by (cases e) simp_all

lemma calls_secrets [calls_intro]:
  "emits P (reconcileTLS S c n)" "emits P (reconcileAuthSecret S c)"
proof -
  have fill: "emits P (FillAuthSecret S sec)" for sec
    unfolding FillAuthSecret_def
    by (intro emits_intro emits_fill_keys) (auto simp: auth_values_def randomSecret_def intro!: emits_intro)
  show "emits P (reconcileTLS S c n)"
    unfolding reconcileTLS_def BuildSelfSignedTLSSecret_def Let_def by (intro emits_intro) simp_all
  show "emits P (reconcileAuthSecret S c)"
    unfolding reconcileAuthSecret_def create_auth_secret_def BuildAuthSecret_def
    by (intro emits_intro fill) simp_all
qed

lemma calls_objects [calls_intro]:
  "emits P (reconcileConfigMap S c)" "emits P (cleanupLegacyPeersConfigMap S c)"
  "emits P (reconcileService S c v)" "emits P (reconcileServiceMonitor S c)"
  "emits P (reconcilePDB S c)" "emits P (reconcileHPA S c)" "emits P (reconcileProxy S c)"
  unfolding reconcileConfigMap_def cleanupLegacyPeersConfigMap_def reconcileService_def reconcileServiceMonitor_def
    reconcilePDB_def reconcileHPA_def reconcileProxy_def reconcile_proxy_service_def delete_if_there_def Let_def
  by (intro emits_intro; simp)+

lemma calls_status [calls_intro]:
  "emits P (setFailedStatus S c reason e)" "emits P (updatePhase S c ph)" "emits P (updateStatus S c sr h)"
  unfolding setFailedStatus_def updatePhase_def updateStatus_def Let_def by (intro emits_intro; simp)+

lemma calls_proxies [calls_intro]:
  "emits P (excludeFromAllProxies S tok c ip p)" "emits P (includeFromAllProxies S tok c ip p)"
  unfolding excludeFromAllProxies_def includeFromAllProxies_def forEachRunningProxy_def
  by (intro emits_intro emits_proxy_client; simp)+

lemma calls_release [calls_intro]:
  "emits P (releaseOrdinal S c i)" "emits P (commit S c a)" "emits P (rollingRestartRelease S c st rq)"
proof -
  show rel: "emits P (releaseOrdinal S c i)" for i
    unfolding releaseOrdinal_def by (intro emits_intro) simp_all
  show commit: "emits P (commit S c a)" for c a
    unfolding commit_def by (intro emits_intro) simp_all
  show "emits P (rollingRestartRelease S c st rq)"
    unfolding rollingRestartRelease_def by (intro emits_intro rel commit)
qed

lemma calls_phases:
  "emits P (rollingRestartExcluding S tok c st pod upd port rq)"
  "emits P (rollingRestartDraining S c st pod rq)"
  "emits P (rollingRestartWaitingReady S tok c st pod upd port rq)"
  unfolding rollingRestartExcluding_def excluding_outcome_def rollingRestartDraining_def rollingRestartWaitingReady_def Let_def
  by (intro emits_intro calls_intro; simp)+

lemma calls_rolling [calls_intro]: "emits P (reconcileRollingRestart S tok c sr n)"
proof -
  have phase: "emits P (rolling_phase S tok c st pod upd port)" for c st pod upd port
    unfolding rolling_phase_def Let_def by (cases "RR_Phase st") (simp_all add: calls_phases emits_return)
  have clear: "emits P (tryClearCompletedRollingRestart S c sr cur)" for c cur
    unfolding tryClearCompletedRollingRestart_def by (intro emits_intro) simp_all
  have ensure: "emits P (ensureRollingRestartState S c n)" for c
    unfolding ensureRollingRestartState_def Let_def by (intro emits_intro) simp_all
  have cleared: "emits P (case b of True \<Rightarrow> p | False \<Rightarrow> q)" if "emits P p" "emits P q"
    for b and p q :: "('w, HyperbytedbCluster \<times> int option result) prog"
    using that by (cases b) simp_all
  show ?thesis
    unfolding reconcileRollingRestart_def
    by (intro emits_intro cleared phase clear ensure calls_release) simp_all
qed

lemma calls_members [calls_intro]: "emits P (reconcile_members S tok c n)"
proof -
  have collected: "emits P (CollectMemberStatuses S tok c ns n)" for ns
    unfolding CollectMemberStatuses_def collect_member_def Let_def by (intro emits_intro emits_client) simp
  have leader: "emits P (findLeader S tok vs p)" for vs p
    unfolding findLeader_def by (rule emits_find_leader) simp
  have adds: "emits P (add_missing S tok h p known vs)" for h p known vs
    by (rule emits_add_missing) simp_all
  have membership: "emits P (reconcileClusterMembership S tok c n)" for c
    unfolding reconcileClusterMembership_def view_pod_def Let_def
    by (intro emits_intro leader adds emits_client) simp
  have manifests: "emits P (query_manifests S tok c is)" for c "is"
    by (induction S tok c "is" rule: query_manifests.induct) (auto intro!: emits_intro emits_client)
  have two: "emits P (case ms of m # n # r \<Rightarrow> f m n r | _ \<Rightarrow> g)"
    if "\<And>m n r. emits P (f m n r)" "emits P g"
    for ms :: "nodeManifest list" and f and g :: "('w, HyperbytedbCluster) prog"
    using that by (auto split: list.split)
  have monitor: "emits P (monitorReplicationHealth S tok c n)" for c
    unfolding monitorReplicationHealth_def Let_def by (intro emits_intro two manifests)
  have loop: "emits P (failover_loop S c to ms)" for c to ms
    by (induction ms) (auto intro!: emits_intro)
  have failover: "emits P (handleAutoFailover S c ms)" for c ms
    unfolding handleAutoFailover_def by (intro emits_intro loop)
  show ?thesis
    unfolding reconcile_members_def Let_def by (intro emits_intro collected membership monitor failover)
qed

lemma calls_stuck [calls_intro]: "emits P (deleteStuckDepartedPods S c sr)"
proof -
  have "emits P (departed_pods S c is)" for "is"
    by (induction "is") (auto intro!: emits_intro)
  then show ?thesis
    unfolding deleteStuckDepartedPods_def delete_departed_def by (intro emits_intro) simp_all
qed

end

text \<open>With updates of the StatefulSet and deletions of claims, that is all a pass does.\<close>

locale pass_calls = ordinary_calls +
  assumes losing: "P (EvUpdate (KSts st) r)" "P (EvDelete (KPvc pvc) b r)"
begin

lemma calls_hooks: "emits P (runScaleDownClusterHooks S tok c prev n)"
proof -
  have surveyed: "emits P (survey S tok c together is)" for together "is"
    by (induction "is") (auto intro!: emits_intro emits_client simp: Let_def)
  have voters: "emits P (removeDepartedVoters S tok hosts port ids)" for hosts port ids
    by (rule emits_removeDepartedVoters) simp_all
  show ?thesis
    unfolding runScaleDownClusterHooks_def Let_def
    by (intro emits_intro surveyed voters emits_client) simp_all
qed

lemma calls_workload: "emits P (reconcile_workload S tok c prev n h)"
proof -
  have sts: "emits P (reconcileStatefulSet S c h)"
    unfolding reconcileStatefulSet_def Let_def by (intro emits_intro) (simp_all add: losing)
  have pvcs: "emits P (CleanupOrphanPVCs S c prev n)" for c
    unfolding CleanupOrphanPVCs_def cleanup_pvc_def by (intro emits_intro) (simp_all add: losing)
  have rest: "emits P (reconcile_rest S tok c prev n h sr)" for c sr
    unfolding reconcile_rest_def by (intro emits_intro pvcs calls_intro) simp_all
  show ?thesis
    unfolding reconcile_workload_def orFail_def by (intro emits_intro sts rest calls_intro)
qed

lemma calls_cluster: "emits P (reconcile_cluster S c)"
  unfolding reconcile_cluster_def reconcile_from_def reconcile_inputs_def orFail_def Let_def
  by (intro emits_intro calls_intro calls_hooks calls_workload) simp_all

lemma calls_Reconcile: "emits P (Reconcile S req)"
  unfolding Reconcile_def reconcile_found_def Let_def by (intro emits_intro calls_cluster) simp_all

end

interpretation quiet: ordinary_calls quiet
  by unfold_locales (simp_all add: quiet_def)

text \<open>After the hooks: StatefulSet updates have the spec's count, claims go only on a shrink.\<close>

definition scaled_to :: "int \<Rightarrow> int \<Rightarrow> event \<Rightarrow> bool" where
  "scaled_to n prev e =
     (case e of EvUpdate (KSts s) _ \<Rightarrow> Sts_Replicas s = Some n
      | EvDelete (KPvc _) _ _ \<Rightarrow> n < prev
      | EvDelete (KSts _) orphan _ \<Rightarrow> orphan
      | _ \<Rightarrow> True)"

lemma quiet_scaled: "quiet e \<Longrightarrow> scaled_to n prev e"
  by (auto simp: quiet_def scaled_to_def split: event.splits kobj.splits)

lemma scaled_to_quiet: "emits quiet m \<Longrightarrow> emits (scaled_to n prev) m"
  by (rule emits_weaken [OF _ quiet_scaled])

lemma merged_replicas: "Sts_Replicas (merge_sts existing (desired_sts S c h)) = Some (replicas_of c)"
  by (simp add: merge_sts_def desired_sts_def BuildStatefulSet_def replicas_of_def Let_def)

lemma scaled_statefulset: "emits (scaled_to (replicas_of c) prev) (reconcileStatefulSet S c h)"
  unfolding reconcileStatefulSet_def Let_def
  by (intro emits_intro) (simp_all add: scaled_to_def merged_replicas)

lemma scaled_rest: "emits (scaled_to n prev) (reconcile_rest S tok c prev n h sr)"
proof -
  have pvcs: "emits (scaled_to n prev) (logged (CleanupOrphanPVCs S c prev n))" if "prev > n"
    unfolding CleanupOrphanPVCs_def cleanup_pvc_def
    by (intro emits_intro) (use that in \<open>simp_all add: scaled_to_def\<close>)
  note q = calls_intro [THEN scaled_to_quiet]
  show ?thesis
    unfolding reconcile_rest_def by (intro emits_intro pvcs q) (simp_all add: scaled_to_def)
qed

lemma scaled_workload: "emits (scaled_to (replicas_of c) prev) (reconcile_workload S tok c prev (replicas_of c) h)"
proof -
  note q = calls_intro [THEN scaled_to_quiet]
  show ?thesis
    unfolding reconcile_workload_def orFail_def
    by (intro emits_intro scaled_statefulset scaled_rest q)
qed

text \<open>
  \<open>passes s t K\<close>: the run from \<open>s\<close> to \<open>t\<close> adds only quiet events, or it adds quiet events up to
  a state from which \<open>K\<close> holds.
\<close>

definition passes :: "'w world \<Rightarrow> 'w world \<Rightarrow> ('w world \<Rightarrow> bool) \<Rightarrow> bool" where
  "passes s t K \<longleftrightarrow>
     (\<exists>es. log t = log s @ es \<and> list_all quiet es) \<or> (\<exists>u es. log u = log s @ es \<and> list_all quiet es \<and> K u)"

lemma passes_here: "K s \<Longrightarrow> passes s t K"
  unfolding passes_def by (metis append_Nil2 list.pred_inject(1))

lemma passes_quiet: "emits quiet m \<Longrightarrow> run_state m s = (a, t) \<Longrightarrow> passes s t K"
  unfolding passes_def by (elim emitsD) blast+

lemma passes_trans: "log u = log s @ es \<Longrightarrow> list_all quiet es \<Longrightarrow> passes u t K \<Longrightarrow> passes s t K"
  unfolding passes_def by (metis append_assoc list_all_append)

lemma passes_bind:
  assumes "run_state (State_Monad.bind m f) s = (r, t)" "emits quiet m"
    and "\<And>a u. run_state (f a) u = (r, t) \<Longrightarrow> passes u t K"
  shows "passes s t K"
proof -
  obtain a u where a: "run_state m s = (a, u)" by (rule runE)
  obtain es where "log u = log s @ es" "list_all quiet es" using emitsD [OF assms(2) a] .
  moreover have "run_state (f a) u = (r, t)" using assms(1) a by simp
  ultimately show ?thesis using assms(3) passes_trans by blast
qed

lemma passes_orFail:
  assumes "run_state (orFail S c reason m f) s = (r, t)" "emits quiet m"
    and "\<And>a u. run_state (f a) u = (r, t) \<Longrightarrow> passes u t K"
  shows "passes s t K"
proof -
  have "run_state (State_Monad.bind m (\<lambda>x. case x of Inl e \<Rightarrow> setFailedStatus S c reason e | Inr a \<Rightarrow> f a)) s = (r, t)"
    using assms(1) by (simp add: orFail_def)
  then show ?thesis
    by (rule passes_bind [OF _ assms(2)])
       (auto split: sum.splits intro: assms(3) passes_quiet [OF quiet.calls_status(1)])
qed

lemma inputs_passes:
  assumes "run_state (reconcile_inputs S c n k) s = (r, t)"
  shows "passes s t (\<lambda>u. \<exists>tok. run_state (k tok) u = (r, t))"
  using assms unfolding reconcile_inputs_def
  by (elim passes_orFail passes_bind) (blast intro: passes_here | intro emits_intro calls_intro)+

lemma hook_request_quiet: "hook_request c p n e \<Longrightarrow> quiet e"
  unfolding hook_request_def health_check_def decommission_of_def remove_request_def leave_of_def by auto

lemma split_after:
  assumes "xs @ ys = pre @ e # post" "e \<notin> set xs"
  shows "\<exists>x. pre = xs @ x \<and> ys = x @ e # post"
  using assms by (auto simp: append_eq_append_conv2 append_eq_Cons_conv)

text \<open>
  What justifies an event that can lose data: the count it scales to, and evidence, earlier in
  the pass, that the ordinals it gives up have left.
\<close>

definition shrink_justified :: "HyperbytedbCluster \<Rightarrow> int \<Rightarrow> event list \<Rightarrow> event \<Rightarrow> bool" where
  "shrink_justified c p pre e \<longleftrightarrow>
     scaled_to (replicas_of c) p e \<and> (replicas_of c < p \<and> 1 \<le> p \<longrightarrow> departure_evidence c p (replicas_of c) pre)"

definition shrinks_justified :: "HyperbytedbCluster \<Rightarrow> int \<Rightarrow> event list \<Rightarrow> bool" where
  "shrinks_justified c p es \<longleftrightarrow>
     (\<forall>pre e post. es = pre @ e # post \<and> \<not> quiet e \<longrightarrow> shrink_justified c p pre e)"

lemma shrinks_justified_quiet: "list_all quiet es \<Longrightarrow> shrinks_justified c p es"
  unfolding shrinks_justified_def by auto

lemma shrinks_justified_append:
  assumes "list_all quiet es" "shrinks_justified c p fs"
  shows "shrinks_justified c p (es @ fs)"
  unfolding shrinks_justified_def
proof (intro allI impI)
  fix pre e post
  assume e: "es @ fs = pre @ e # post \<and> \<not> quiet e"
  with assms(1) have "e \<notin> set es" by (auto simp: list_all_iff)
  then obtain x where x: "pre = es @ x" "fs = x @ e # post"
    using split_after [of es fs pre e post] e by metis
  with assms(2) e have "shrink_justified c p x e" unfolding shrinks_justified_def by blast
  moreover have "departure_evidence c p (replicas_of c) x \<Longrightarrow> departure_evidence c p (replicas_of c) pre"
    using departure_evidence_mono [of c p "replicas_of c" x es "[]"] unfolding x(1) append_Nil2 .
  ultimately show "shrink_justified c p pre e" unfolding shrink_justified_def by blast
qed

lemma from_shrinks:
  assumes "run_state (reconcile_from S c h p) s = (r, t)"
  shows "\<exists>es. log t = log s @ es \<and> shrinks_justified c p es"
proof -
  let ?n = "replicas_of c"
  let ?rest = "\<lambda>tok. do {
        ready \<leftarrow> runScaleDownClusterHooks S tok c p ?n;
        if \<not> ready then ret (10 * second, None) else reconcile_workload S tok c p ?n h }"
  have "passes s t (\<lambda>u. \<exists>tok. run_state (?rest tok) u = (r, t))"
    by (rule inputs_passes [OF assms [unfolded reconcile_from_def]])
  then consider (quiet) es where "log t = log s @ es" "list_all quiet es"
    | (hooks) u es tok where "log u = log s @ es" "list_all quiet es" "run_state (?rest tok) u = (r, t)"
    unfolding passes_def by blast
  then show ?thesis
  proof cases
    case quiet
    then show ?thesis using shrinks_justified_quiet by blast
  next
    case hooks
    obtain b v where b: "run_state (runScaleDownClusterHooks S tok c p ?n) u = (b, v)" by (rule runE)
    obtain hs where hs: "log v = log u @ hs" "list_all (hook_request c p ?n) hs" using hooks_requests [OF b] by blast
    have q: "list_all quiet hs" using hs(2) hook_request_quiet by (auto simp: list_all_iff)
    have "\<exists>fs. log t = log v @ fs \<and> shrinks_justified c p (hs @ fs)"
    proof (cases b)
      case False
      then show ?thesis using hooks(3) b shrinks_justified_quiet [OF q] by auto
    next
      case True
      then have w: "run_state (reconcile_workload S tok c p ?n h) v = (r, t)" using hooks(3) b by simp
      obtain fs where fs: "log t = log v @ fs" "list_all (scaled_to ?n p) fs" using emitsD [OF scaled_workload w] .
      have ev: "departure_evidence c p ?n hs" if "?n < p" "1 \<le> p"
        using hooks_evidence [of S tok c p ?n u v] b True hs(1) that by auto
      have "shrinks_justified c p (hs @ fs)"
        unfolding shrinks_justified_def
      proof (intro allI impI)
        fix pre e post
        assume e: "hs @ fs = pre @ e # post \<and> \<not> quiet e"
        with q have "e \<notin> set hs" by (auto simp: list_all_iff)
        then obtain x where x: "pre = hs @ x" "fs = x @ e # post"
          using split_after [of hs fs pre e post] e by metis
        have "departure_evidence c p ?n pre" if "?n < p" "1 \<le> p"
          using departure_evidence_mono [OF ev [OF that], of "[]" x] unfolding x(1) append_Nil .
        moreover have "scaled_to ?n p e" using fs(2) x(2) by simp
        ultimately show "shrink_justified c p pre e" unfolding shrink_justified_def by blast
      qed
      with fs(1) show ?thesis by blast
    qed
    then obtain fs where "log t = log s @ es @ hs @ fs" "shrinks_justified c p (hs @ fs)"
      using hooks(1) hs(1) by auto
    with shrinks_justified_append [OF hooks(2)] show ?thesis by blast
  qed
qed

section \<open>The whole pass\<close>

definition same_cluster :: "HyperbytedbCluster \<Rightarrow> HyperbytedbCluster \<Rightarrow> bool" where
  "same_cluster c d \<longleftrightarrow> Spec d = Spec c \<and> Name d = Name c \<and> Namespace d = Namespace c"

text \<open>
  What the pass relies on when it stores its finalizer: the helper keeps name and namespace, and
  the server answers the update with the cluster it was sent.
\<close>

definition cluster_echo :: "'w sys \<Rightarrow> bool" where
  "cluster_echo S \<longleftrightarrow>
     (\<forall>f m. Meta_Name (add_finalizer S f m) = Meta_Name m \<and> Meta_Namespace (add_finalizer S f m) = Meta_Namespace m) \<and>
     (\<forall>c w d w'. k_update (api_cluster S) c w = (Inr d, w') \<longrightarrow> same_cluster c d)"

text \<open>The replica count the pass starts from: the StatefulSet's, or 0 when there is none.\<close>

definition sts_count :: "kobj result \<Rightarrow> int \<Rightarrow> bool" where
  "sts_count g p =
     (case g of Inl e \<Rightarrow> IsNotFound e \<and> p = 0 | Inr (KSts t) \<Rightarrow> Sts_Replicas t = Some p | Inr _ \<Rightarrow> False)"

definition loss_justified :: "nn \<Rightarrow> event list \<Rightarrow> event \<Rightarrow> bool" where
  "loss_justified req pre e \<longleftrightarrow>
     quiet e \<or>
     (\<exists>c0 c g p. EvGet req (Inr (KCluster c0)) \<in> set pre \<and> \<not> Spec_Paused (Spec c0) \<and>
        Meta_DeletionTimestamp (Meta c0) = None \<and> same_cluster c0 c \<and>
        EvGet (nn_of c (StatefulSetName c)) g \<in> set pre \<and> sts_count g p \<and> shrink_justified c p pre e)"

lemma run_split:
  assumes "run_state (State_Monad.bind m f) s = (b, t)"
  obtains a u where "run_state m s = (a, u)" "run_state (f a) u = (b, t)"
  using assms by (cases "run_state m s") auto

lemma quiet_run:
  assumes "emits quiet m" "run_state m s = (a, t)"
  shows "\<exists>es. log t = log s @ es \<and> shrinks_justified c p es"
  using emitsD [OF assms] shrinks_justified_quiet by metis

lemma cluster_shrinks:
  assumes "run_state (reconcile_cluster S c) s = (r, t)"
  shows "\<exists>g es. log t = log s @ EvGet (nn_of c (StatefulSetName c)) g # es \<and>
     (list_all quiet es \<or> (\<exists>p. sts_count g p \<and> shrinks_justified c p es))"
proof -
  obtain g u where g: "run_state (Get KSts (api_sts S) (nn_of c (StatefulSetName c))) s = (g, u)"
    and rest: "run_state (case g of
         Inr cur \<Rightarrow>
           (case Sts_Replicas cur of
              Some p \<Rightarrow> reconcile_from S c (ConfigHash (sys_semver S) c) p
            | None \<Rightarrow> ret (0, Some NilDeref))
       | Inl e \<Rightarrow>
           if IsNotFound e then reconcile_from S c (ConfigHash (sys_semver S) c) 0
           else setFailedStatus S c ''StatefulSetLookupFailed'' e) u = (r, t)"
    using assms unfolding reconcile_cluster_def Let_def by (rule run_split)
  have lu: "log u = log s @ [EvGet (nn_of c (StatefulSetName c)) (map_sum id KSts g)]" by (rule run_Get [OF g])
  have "\<exists>es. log t = log u @ es \<and>
      (list_all quiet es \<or> (\<exists>p. sts_count (map_sum id KSts g) p \<and> shrinks_justified c p es))"
  proof (cases g)
    case (Inl e)
    show ?thesis
    proof (cases "IsNotFound e")
      case True
      then show ?thesis using from_shrinks [of S c _ 0 u r t] rest Inl by (auto simp: sts_count_def)
    next
      case False
      then have "run_state (setFailedStatus S c ''StatefulSetLookupFailed'' e) u = (r, t)" using rest Inl by simp
      then show ?thesis using emitsD [OF quiet.calls_status(1)] by metis
    qed
  next
    case (Inr cur)
    then show ?thesis
      using rest from_shrinks [of S c "ConfigHash (sys_semver S) c" _ u r t]
      by (cases "Sts_Replicas cur") (auto simp: sts_count_def)
  qed
  then show ?thesis using lu by auto
qed

lemma justified_each:
  assumes "EvGet req (Inr (KCluster c0)) \<in> set pre" "\<not> Spec_Paused (Spec c0)" "Meta_DeletionTimestamp (Meta c0) = None"
    and "same_cluster c0 c" "EvGet (nn_of c (StatefulSetName c)) g \<in> set pre" "list_all quiet pre"
    and "list_all quiet es \<or> (\<exists>p. sts_count g p \<and> shrinks_justified c p es)"
  shows "each (loss_justified req) [] (pre @ es)"
proof -
  have "each (loss_justified req) [] pre"
    using assms(6) by (rule each_list_all) (simp add: loss_justified_def)
  moreover have "each (loss_justified req) pre es"
    unfolding each_nth
  proof (intro allI impI)
    fix k assume k: "k < length es"
    show "loss_justified req (pre @ take k es) (es ! k)"
    proof (cases "quiet (es ! k)")
      case False
      with k have "\<not> list_all quiet es" by (auto simp: list_all_length)
      with assms(7) obtain p where p: "sts_count g p" "shrinks_justified c p es" by blast
      from shrinks_justified_append [OF assms(6) p(2)] have "shrink_justified c p (pre @ take k es) (es ! k)"
        unfolding shrinks_justified_def using False id_take_nth_drop [OF k] by (metis append_assoc)
      then show ?thesis unfolding loss_justified_def using assms(1-5) p(1)
        by (intro disjI2 exI [of _ c0] exI [of _ c] exI [of _ g] exI [of _ p]) simp
    qed (simp add: loss_justified_def)
  qed
  ultimately show ?thesis by simp
qed

text \<open>The cluster a pass works on once it is past pausing, deletion and finalizer.\<close>

abbreviation unpaused :: "'w sys \<Rightarrow> HyperbytedbCluster \<Rightarrow> HyperbytedbCluster" where
  "unpaused S c \<equiv> put_conditions (remove_condition S (Status_Conditions (Status c)) ''Paused'') c"

lemma unpaused_simps [simp]:
  "Spec (put_conditions cs c) = Spec c" "Meta (put_conditions cs c) = Meta c"
  by (simp_all add: put_conditions_def)

lemma run_Update_log:
  assumes "run_state (Update K api obj) s = (r, t)"
  shows "log t = log s @ [EvUpdate (K obj) (err_of r)] \<and> r = fst (k_update api obj (ext s))"
  using assms by (auto simp: Update_def call_def emit_def split: prod.splits)

lemma Reconcile_cases:
  assumes echo: "cluster_echo S" and run: "run_state (Reconcile S req) s = (r, t)"
  shows "(\<exists>es. log t = log s @ es \<and> list_all quiet es) \<or>
    (\<exists>c0 c pre u. log u = log s @ EvGet req (Inr (KCluster c0)) # pre \<and> list_all quiet pre \<and>
       \<not> Spec_Paused (Spec c0) \<and> Meta_DeletionTimestamp (Meta c0) = None \<and> same_cluster c0 c \<and>
       run_state (reconcile_cluster S c) u = (r, t))"
proof -
  obtain g u where g: "run_state (Get KCluster (api_cluster S) req) s = (g, u)"
    and rest: "run_state (case g of Inl e \<Rightarrow> if IsNotFound e then ret (0, None) else ret (0, Some e)
       | Inr c0 \<Rightarrow> reconcile_found S c0) u = (r, t)"
    using run unfolding Reconcile_def by (rule run_split)
  have lu: "log u = log s @ [EvGet req (map_sum id KCluster g)]" by (rule run_Get [OF g])
  have quiet: ?thesis if m: "emits quiet m" "run_state m u = (r, t)" for m :: "('a, reconcile_result) prog"
  proof -
    obtain es where "log t = log u @ es" "list_all quiet es" using emitsD [OF m] .
    with lu show ?thesis by auto
  qed
  show ?thesis
  proof (cases g)
    case (Inl e)
    then show ?thesis using rest by (intro quiet [OF _ rest]) (simp add: emits_return)
  next
    case (Inr c0)
    let ?c1 = "unpaused S c0"
    consider (stop) "Spec_Paused (Spec c0) \<or> Meta_DeletionTimestamp (Meta c0) \<noteq> None"
      | (add) "\<not> Spec_Paused (Spec c0)" "Meta_DeletionTimestamp (Meta c0) = None"
          "\<not> contains_finalizer S (Meta c0) clusterFinalizer"
      | (go) "\<not> Spec_Paused (Spec c0)" "Meta_DeletionTimestamp (Meta c0) = None"
          "contains_finalizer S (Meta c0) clusterFinalizer" by blast
    then show ?thesis
    proof cases
      case stop
      show ?thesis
        by (rule quiet [OF _ rest]) (use stop Inr in \<open>auto simp: reconcile_found_def intro!: emits_intro\<close>)
    next
      case add
      let ?obj = "?c1\<lparr> Meta := add_finalizer S clusterFinalizer (Meta ?c1) \<rparr>"
      obtain a v where a: "run_state (Update KCluster (api_cluster S) ?obj) u = (a, v)"
        and v: "run_state (case a of Inl e \<Rightarrow> ret (0, Some e) | Inr c2 \<Rightarrow> reconcile_cluster S c2) v = (r, t)"
        using rest Inr add by (auto simp: reconcile_found_def Let_def split: prod.splits)
      note lv = run_Update_log [OF a, THEN conjunct1] and av = run_Update_log [OF a, THEN conjunct2]
      show ?thesis
      proof (cases a)
        case (Inl e)
        with v lv lu Inr show ?thesis by auto
      next
        case (Inr c)
        have "same_cluster ?obj c" using echo av Inr unfolding cluster_echo_def by (metis prod.collapse)
        then have "same_cluster c0 c" using echo unfolding cluster_echo_def same_cluster_def by simp
        then show ?thesis
          using lv lu add v Inr \<open>g = Inr c0\<close>
          by (intro disjI2 exI [of _ c0] exI [of _ c] exI [of _ "[EvUpdate (KCluster ?obj) None]"] exI [of _ v])
            (simp add: err_of_def)
      qed
    next
      case go
      then show ?thesis
        using rest Inr lu
        by (intro disjI2 exI [of _ c0] exI [of _ ?c1] exI [of _ "[]"] exI [of _ u])
          (simp add: reconcile_found_def Let_def same_cluster_def)
    qed
  qed
qed

section \<open>Properties\<close>

text \<open>
  C1. A pass of the cluster controller loses no data on its own. Every update of the StatefulSet
  and every deletion of a volume claim comes after the cluster was read, neither paused nor being
  deleted, and after the StatefulSet's replica count was read; it scales to exactly the spec's
  count, claims are deleted only on a shrink, and on a shrink every departing node was seen
  drained or unreachable and was then removed from the Raft group earlier in the same pass. A
  StatefulSet is deleted only with its pods left running.
\<close>

theorem Reconcile_shrink_safe:
  assumes "cluster_echo S" "run_state (Reconcile S req) s = (r, t)"
  shows "\<exists>es. log t = log s @ es \<and> each (loss_justified req) [] es"
  using Reconcile_cases [OF assms]
proof (elim disjE exE conjE)
  fix es assume "log t = log s @ es" "list_all quiet es"
  then show ?thesis by (auto simp: loss_justified_def intro: each_list_all)
next
  fix c0 c pre u
  assume u: "log u = log s @ EvGet req (Inr (KCluster c0)) # pre" "list_all quiet pre"
    "\<not> Spec_Paused (Spec c0)" "Meta_DeletionTimestamp (Meta c0) = None" "same_cluster c0 c"
    and run: "run_state (reconcile_cluster S c) u = (r, t)"
  obtain g es where g: "log t = log u @ EvGet (nn_of c (StatefulSetName c)) g # es"
    "list_all quiet es \<or> (\<exists>p. sts_count g p \<and> shrinks_justified c p es)"
    using cluster_shrinks [OF run] by blast
  let ?pre = "EvGet req (Inr (KCluster c0)) # pre @ [EvGet (nn_of c (StatefulSetName c)) g]"
  have "each (loss_justified req) [] (?pre @ es)"
    by (rule justified_each [of _ c0 _ c g]) (use u g(2) in simp_all)
  then show ?thesis using u(1) g(1) by (intro exI [of _ "?pre @ es"]) simp
qed

lemma sim_cluster_echo: "cluster_echo (sim_sys sv)"
  by (auto simp: cluster_echo_def same_cluster_def sim_sys_def mem_api_def Let_def split: if_splits)

text \<open>A cluster to be scaled from two replicas to one, whose second node is leaving.\<close>

definition shrinking :: HyperbytedbCluster where
  "shrinking = shrink_example\<lparr> Meta := (Meta shrink_example)\<lparr> Meta_Finalizers := [clusterFinalizer] \<rparr> \<rparr>"

definition shrinking_sim :: sim where
  "shrinking_sim = sim_empty\<lparr> sim_http := leaving_http, sim_clusters := [(nn_of shrinking ''t'', shrinking)],
     sim_sts := [(nn_of shrinking ''t'', pending_sts\<lparr> Sts_Replicas := Some 2,
       Sts_PodManagementPolicy := podManagementPolicy shrinking False \<rparr>)] \<rparr>"

theorem Reconcile_shrink_safe_witness:
  "cluster_echo (sim_sys plain_semver) \<and>
   each (loss_justified (nn_of shrinking ''t'')) []
     (log (snd (run_state (Reconcile (sim_sys plain_semver) (nn_of shrinking ''t'')) (start shrinking_sim))))"
  using Reconcile_shrink_safe [OF sim_cluster_echo surjective_pairing, of plain_semver "nn_of shrinking ''t''" "start shrinking_sim"]
  by (auto simp: start_def sim_cluster_echo)

lemma traces_reconcile_cluster: "traces (reconcile_cluster S c) (\<lambda>_ _. True)"
  by (rule tracesI) (use cluster_shrinks in blast)

lemma traces_set_cond_now [trace_intro]:
  "(\<And>cs. traces (f (put_conditions cs c)) R) \<Longrightarrow> traces (State_Monad.bind (set_cond_now S c ty st reason msg) f) R"
  unfolding set_cond_now_def State_Monad.bind_assoc State_Monad.bind_left_identity by (intro trace_intro)

text \<open>What a pass over a paused or deleted cluster does after reading it.\<close>

definition stopped_pass :: "'w sys \<Rightarrow> HyperbytedbCluster \<Rightarrow> event list \<Rightarrow> bool" where
  "stopped_pass S c es \<longleftrightarrow>
     (if Spec_Paused (Spec c) then \<exists>d e. es = [EvStatus (KCluster d) e] \<and> Spec d = Spec c \<and> Meta d = Meta c
      else es = [] \<or>
        (\<exists>d e. es = [EvRecord ''Normal'' ''Deleting'' ''Cleaning up cluster resources'', EvUpdate (KCluster d) e] \<and>
               Spec d = Spec c \<and> Meta d = remove_finalizer S clusterFinalizer (Meta c)))"

lemma reconcile_found_stopped:
  assumes "Spec_Paused (Spec c) \<or> Meta_DeletionTimestamp (Meta c) \<noteq> None"
  shows "traces (reconcile_found S c) (\<lambda>a es. fst a = 0 \<and> stopped_pass S c es)"
  unfolding reconcile_found_def
  by (intro trace_intro traces_weaken [OF traces_reconcile_cluster]) (use assms in \<open>auto simp: stopped_pass_def\<close>)

text \<open>
  C17. Pausing and deletion. A pass over a paused cluster reads it and writes its status, the spec
  unchanged, and does nothing else, also when the cluster is being deleted; a pass over an
  unpaused cluster under deletion at most removes the finalizer. In both cases no object of the
  cluster is touched and nothing is requeued.
\<close>

theorem Reconcile_paused_or_deleted:
  assumes "k_get (api_cluster S) req (ext s) = (Inr c, w)"
    and "Spec_Paused (Spec c) \<or> Meta_DeletionTimestamp (Meta c) \<noteq> None"
  shows "\<exists>es. log (snd (run_state (Reconcile S req) s)) = log s @ EvGet req (Inr (KCluster c)) # es \<and>
     fst (fst (run_state (Reconcile S req) s)) = 0 \<and> stopped_pass S c es"
proof -
  obtain u where g: "run_state (Get KCluster (api_cluster S) req) s = (Inr c, u)"
    using assms(1) by (simp add: Get_def call_def emit_def)
  then have "run_state (Reconcile S req) s = run_state (reconcile_found S c) u" by (simp add: Reconcile_def)
  moreover obtain es where "log (snd (run_state (reconcile_found S c) u)) = log u @ es"
    "fst (fst (run_state (reconcile_found S c) u)) = 0" "stopped_pass S c es"
    using reconcile_found_stopped [OF assms(2), of S] unfolding traces_def by blast
  ultimately show ?thesis using run_Get [OF g] by simp
qed

definition paused_cluster :: HyperbytedbCluster where
  "paused_cluster = (let c = new_cluster ''t'' ''p''
     in c\<lparr> Spec := (Spec c)\<lparr> Spec_Paused := True \<rparr>, Meta := (Meta c)\<lparr> Meta_DeletionTimestamp := Some 5 \<rparr> \<rparr>)"

theorem Reconcile_paused_or_deleted_witness:
  "\<exists>d e. log (snd (run_state (Reconcile (sim_sys plain_semver) (nn_of paused_cluster ''t''))
       (start (sim_empty\<lparr> sim_clusters := [(nn_of paused_cluster ''t'', paused_cluster)] \<rparr>))))
     = [EvGet (nn_of paused_cluster ''t'') (Inr (KCluster paused_cluster)), EvStatus (KCluster d) e]"
proof -
  let ?w = "sim_empty\<lparr> sim_clusters := [(nn_of paused_cluster ''t'', paused_cluster)] \<rparr>"
  have get: "k_get (api_cluster (sim_sys plain_semver)) (nn_of paused_cluster ''t'') (ext (start ?w)) = (Inr paused_cluster, ?w)"
    by (simp add: sim_sys_def mem_api_def start_def Let_def)
  have paused: "Spec_Paused (Spec paused_cluster)" by (simp add: paused_cluster_def Let_def)
  from Reconcile_paused_or_deleted [OF get] paused show ?thesis by (auto simp: stopped_pass_def start_def)
qed

definition rolling_seen :: "kobj result \<Rightarrow> bool" where
  "rolling_seen g = (case g of Inr (KSts t) \<Rightarrow> StsS_UpdateRevision t \<noteq> [] \<and> StsS_UpdateRevision t \<noteq> StsS_CurrentRevision t
     | _ \<Rightarrow> False)"

definition status_reported :: "HyperbytedbCluster \<Rightarrow> stsReconcileResult \<Rightarrow> string \<Rightarrow> bool \<Rightarrow> HyperbytedbCluster \<Rightarrow> bool" where
  "status_reported c sr h rolling d \<longleftrightarrow>
     Meta d = Meta c \<and> Spec d = Spec c \<and> Status_Replicas (Status d) = SR_SpecReplicas sr \<and>
     Status_ReadyReplicas (Status d) = SR_ReadyReplicas sr \<and> Status_ConfigHash (Status d) = h \<and>
     (Status_Phase (Status d) = ClusterPhaseRunning \<longleftrightarrow> SR_ReadyReplicas sr = SR_SpecReplicas sr \<and> 0 < SR_SpecReplicas sr) \<and>
     (Status_Phase (Status d) = ClusterPhaseRunning \<longleftrightarrow> cond_true ''Available'' d) \<and>
     (Status_Phase (Status d) \<noteq> ClusterPhaseRunning \<longrightarrow> Status_Phase (Status d) =
        (if Status_Phase (Status c) \<in> {ClusterPhaseFailed, ClusterPhaseScaling} then Status_Phase (Status c)
         else if rolling then ClusterPhaseUpgrading else ClusterPhaseInitializing))"

context condition_laws
begin

lemma traces_condition:
  assumes "\<And>cs. map_option Cond_Status (cond_of ty cs) = Some st \<Longrightarrow> traces (f (put_conditions cs c)) R"
  shows "traces (State_Monad.bind (set_cond_now S c ty st reason msg) f) R"
proof (rule traces_bind)
  show "traces (set_cond_now S c ty st reason msg)
      (\<lambda>d es. es = [] \<and> (\<exists>cs. d = put_conditions cs c \<and> map_option Cond_Status (cond_of ty cs) = Some st))"
  proof (rule tracesI)
    fix s d t assume run: "run_state (set_cond_now S c ty st reason msg) s = (d, t)"
    then have "log t = log s" "\<exists>cs. d = put_conditions cs c"
      by (auto simp: set_cond_now_def Now_def SetStatusCondition_def call_def split: prod.splits)
    with set_cond_now_status(1) [OF run]
    show "\<exists>es. log t = log s @ es \<and> es = [] \<and>
        (\<exists>cs. d = put_conditions cs c \<and> map_option Cond_Status (cond_of ty cs) = Some st)"
      by (auto simp: put_conditions_def)
  qed
qed (use assms in auto)

lemma traces_updateStatus:
  "traces (updateStatus S c sr h) (\<lambda>_ es. \<exists>g d e. es = [EvGet (nn_of c (StatefulSetName c)) g, EvStatus (KCluster d) e] \<and>
     status_reported c sr h (rolling_seen g) d)"
proof -
  have shown: "\<exists>g' d' e'. [EvGet k (map_sum id KSts g), EvStatus (KCluster d) e] = [EvGet k g', EvStatus (KCluster d') e'] \<and>
      status_reported c sr h (rolling_seen g') d'"
    if "status_reported c sr h (rolling_seen (map_sum id KSts g)) d" for k g d e
    using that by auto
  show ?thesis
    unfolding updateStatus_def Let_def
    by (intro traces_calls traces_bind_if traces_condition traces_return shown)
      (auto simp: status_reported_def put_conditions_def put_phase_def put_counts_def next_phase_def cond_true_def
         rolling_seen_def split: sum.splits)
qed

end

text \<open>
  C19. The phase and the condition \<^verbatim>\<open>Available\<close> a completed pass reports: running exactly when the
  StatefulSet wants at least one replica and all are ready, in which case the condition is
  \<^verbatim>\<open>True\<close>, and \<^verbatim>\<open>False\<close> otherwise; failed and scaling stay until then; else upgrading exactly when
  the StatefulSet read in that call has a new revision to roll out. The counts and the digest are
  those of the pass and it is the only write.
\<close>

theorem updateStatus_reports:
  assumes "condition_laws S"
  shows "\<exists>g d e. log (snd (run_state (updateStatus S c sr h) s))
       = log s @ [EvGet (nn_of c (StatefulSetName c)) g, EvStatus (KCluster d) e] \<and>
     status_reported c sr h (rolling_seen g) d"
  using condition_laws.traces_updateStatus [OF assms, of c sr h] unfolding traces_def by fast

theorem updateStatus_reports_witness:
  "\<exists>g d e. log (snd (run_state (updateStatus (sim_sys plain_semver) shrinking one_replica ''h'') (start shrinking_sim)))
       = [EvGet (nn_of shrinking ''t'') g, EvStatus (KCluster d) e] \<and>
     Status_Phase (Status d) = ClusterPhaseRunning \<and> cond_true ''Available'' d"
proof -
  have name: "StatefulSetName shrinking = ''t''" by code_simp
  obtain g d e where run: "log (snd (run_state (updateStatus (sim_sys plain_semver) shrinking one_replica ''h'') (start shrinking_sim)))
      = log (start shrinking_sim) @ [EvGet (nn_of shrinking (StatefulSetName shrinking)) g, EvStatus (KCluster d) e]"
    "status_reported shrinking one_replica ''h'' (rolling_seen g) d"
    using updateStatus_reports [OF sim_conditions.condition_laws_axioms] by blast
  then have "Status_Phase (Status d) = ClusterPhaseRunning" "cond_true ''Available'' d"
    by (auto simp: status_reported_def one_replica_def)
  with run(1) show ?thesis unfolding name by (auto simp: start_def)
qed

end
