(* ===== verification/Backup.thy ===== *)
theory Backup
  imports Resources Trace
begin

text \<open>
  Backups: the S3 transfer containers of \<^verbatim>\<open>internal/controller/s3_transfer.go\<close> and the reconciler of
  \<^verbatim>\<open>internal/controller/hyperbytedbbackup_controller.go\<close>. The shell scripts are transcribed as texts;
  running them is the container's business.
\<close>

section \<open>S3 settings\<close>

definition shellCommand :: "string \<Rightarrow> string list" where
  "shellCommand script = [''/bin/sh'', ''-ec'', script]"

definition s3ClientImage :: string where "s3ClientImage = ''amazon/aws-cli:2.38.5''"

definition s3Endpoint :: "S3BackupSpec \<Rightarrow> string" where
  "s3Endpoint s3 =
     (if S3_Endpoint s3 \<noteq> [] then S3_Endpoint s3
      else if S3_Region s3 \<noteq> [] \<and> S3_Region s3 \<noteq> ''us-east-1'' then ''https://s3.'' @ S3_Region s3 @ ''.amazonaws.com''
      else ''https://s3.amazonaws.com'')"

definition s3Prefix :: "S3BackupSpec \<Rightarrow> string" where
  "s3Prefix s3 = (let p = TrimCut (S3_Prefix s3) ''/'' in if p = [] then [] else p @ ''/'')"

definition s3Region :: "S3BackupSpec \<Rightarrow> string" where
  "s3Region s3 = (if S3_Region s3 \<noteq> [] then S3_Region s3 else ''us-east-1'')"

definition s3Env :: "S3BackupSpec \<Rightarrow> env_var list" where
  "s3Env s3 =
     [env_value ''S3_ENDPOINT'' (s3Endpoint s3), env_value ''S3_BUCKET'' (S3_Bucket s3),
      env_value ''S3_PREFIX'' (s3Prefix s3), env_value ''AWS_DEFAULT_REGION'' (s3Region s3),
      env_value ''AWS_CONFIG_FILE'' ''/tmp/aws-config'']
     @ (if S3_Endpoint s3 \<noteq> [] then [env_value ''S3_PATH_STYLE'' ''1''] else [])
     @ (if S3_CredentialsSecretName s3 \<noteq> [] then
          [\<lparr> Env_Name = ''AWS_ACCESS_KEY_ID'',
             Env_Source = EnvSecretKey (S3_CredentialsSecretName s3) ''access_key_id'' \<rparr>,
           \<lparr> Env_Name = ''AWS_SECRET_ACCESS_KEY'',
             Env_Source = EnvSecretKey (S3_CredentialsSecretName s3) ''secret_access_key'' \<rparr>]
        else [])"

section \<open>Volumes and containers\<close>

definition snapshotVolume :: volume where
  "snapshotVolume = \<lparr> Vol_Name = ''snapshot'', Vol_Source = VolEmptyDir \<rparr>"

definition dataVolume :: "string \<Rightarrow> int \<Rightarrow> bool \<Rightarrow> volume" where
  "dataVolume clusterName ordinal ro =
     \<lparr> Vol_Name = ''data'', Vol_Source = VolClaim (''data-'' @ clusterName @ ''-'' @ dec ordinal) ro \<rparr>"

definition snapshotBackupInitContainer :: "string \<Rightarrow> container" where
  "snapshotBackupInitContainer img =
     (plain_container ''snapshot'' img)
       \<lparr> C_Command := shellCommand (lines_of
           [dq ''echo `Starting hyperbytedb backup...`'',
            ''hyperbytedb backup --output /snapshot'',
            dq ''echo `Backup size: $(du -sh /snapshot | cut -f1)`'']),
         C_VolumeMounts := [mount ''data'' ''/var/lib/hyperbytedb'' True, mount ''snapshot'' ''/snapshot'' False] \<rparr>"

definition awsSetup :: string where
  "awsSetup = lines_of
     [dq ''if [ -n `${S3_PATH_STYLE:-}` ]; then'',
      ''  aws configure set default.s3.addressing_style path'',
      dq ''  EP=`--endpoint-url ${S3_ENDPOINT}`'',
      ''else'',
      dq ''  EP=``'',
      ''fi'']"

definition upload_script :: "int \<Rightarrow> string" where
  "upload_script days = awsSetup @ lines_of
     [''TIMESTAMP=$(date -u +%Y%m%d-%H%M%S)'',
      dq ''DEST=`s3://${S3_BUCKET}/${S3_PREFIX}${TIMESTAMP}/`'',
      dq ''echo `Uploading to ${DEST}...`'',
      dq ''aws $EP s3 sync /snapshot `${DEST}` --only-show-errors'',
      dq ''echo `Cleaning up backups older than '' @ dec days @ dq '' days...`'',
      dq ''CUTOFF=$(date -u -d `-'' @ dec days @ dq '' days` +%Y%m%d-%H%M%S)'',
      dq ''aws $EP s3 ls `s3://${S3_BUCKET}/${S3_PREFIX}` | awk '$1 == `PRE` { print $2 }' | while read -r dir; do'',
      dq ''  ts=`${dir%/}`'',
      dq ''  case `$ts` in'',
      ''    [0-9][0-9][0-9][0-9][0-9][0-9][0-9][0-9]-[0-9][0-9][0-9][0-9][0-9][0-9]) ;;'',
      ''    *) continue ;;'',
      ''  esac'',
      dq ''  if [ `$ts` '' @ [CHR 0x5C] @ dq ''< `$CUTOFF` ]; then'',
      dq ''    echo `Removing ${dir}`'',
      dq ''    aws $EP s3 rm --recursive `s3://${S3_BUCKET}/${S3_PREFIX}${dir}` --only-show-errors'',
      ''  fi'',
      ''done || true'',
      dq ''echo `Backup complete`'']"

definition s3UploadContainer :: "S3BackupSpec \<Rightarrow> int \<Rightarrow> container" where
  "s3UploadContainer s3 retentionDays =
     (plain_container ''upload'' s3ClientImage)
       \<lparr> C_Command := shellCommand (upload_script (if retentionDays < 1 then 7 else retentionDays)),
         C_Env := s3Env s3,
         C_VolumeMounts := [mount ''snapshot'' ''/snapshot'' True] \<rparr>"

definition s3DownloadInitContainer :: "S3BackupSpec \<Rightarrow> container" where
  "s3DownloadInitContainer s3 =
     (plain_container ''download'' s3ClientImage)
       \<lparr> C_Command := shellCommand (awsSetup @ lines_of
           [dq ''SRC=`s3://${S3_BUCKET}/${S3_PREFIX}`'',
            dq ''LATEST=$(aws $EP s3 ls `${SRC}` | awk '$1 == `PRE` { print $2 }' '' @ [CHR 0x5C],
            ''  | grep -E '^[0-9]{8}-[0-9]{6}/$' | sort | tail -1 || true)'',
            dq ''if [ -n `${LATEST}` ]; then'',
            dq ''  echo `Downloading backup ${SRC}${LATEST}...`'',
            dq ''  aws $EP s3 sync `${SRC}${LATEST}` `/snapshot/${LATEST}` --only-show-errors'',
            ''else'',
            dq ''  echo `Downloading backup from ${SRC}...`'',
            dq ''  aws $EP s3 sync `${SRC}` /snapshot/ --only-show-errors'',
            ''fi'']),
         C_Env := s3Env s3,
         C_VolumeMounts := [mount ''snapshot'' ''/snapshot'' False] \<rparr>"

definition restoreDataContainer :: "string \<Rightarrow> int \<Rightarrow> container" where
  "restoreDataContainer img ordinal =
     (plain_container ''restore'' img)
       \<lparr> C_Command := shellCommand (lines_of
           [dq ''RESTORE_DIR=`/snapshot`'',
            dq ''if [ ! -f `${RESTORE_DIR}/manifest.json` ]; then'',
            dq ''  SUBDIR=$(find `${RESTORE_DIR}` -maxdepth 1 -mindepth 1 -type d | sort -r | head -1)'',
            dq ''  if [ -n `${SUBDIR}` ] && [ -f `${SUBDIR}/manifest.json` ]; then'',
            dq ''    RESTORE_DIR=`${SUBDIR}`'',
            dq ''    echo `Found backup in subdirectory: ${RESTORE_DIR}`'',
            ''  fi'',
            ''fi'',
            dq ''echo `Restoring data to PVC...`'',
            dq ''hyperbytedb restore --input `${RESTORE_DIR}`'',
            dq ''echo `Restore complete for ordinal '' @ dec ordinal @ [CHR 0x22]]),
         C_VolumeMounts := [mount ''data'' ''/var/lib/hyperbytedb'' False, mount ''snapshot'' ''/snapshot'' True] \<rparr>"

section \<open>The backup reconciler\<close>

type_synonym reconcile_reply = "int \<times> err option"   \<comment> \<open>requeue delay, returned error\<close>

definition job_pod :: "container \<Rightarrow> container \<Rightarrow> volume list \<Rightarrow> pod_spec" where
  "job_pod init main vols =
     \<lparr> PS_GracePeriodSeconds = None, PS_ImagePullSecrets = [], PS_InitContainers = [init], PS_Containers = [main],
       PS_Volumes = vols, PS_Tolerations = [], PS_Affinity = None, PS_TopologySpread = [],
       PS_RestartPolicy = ''OnFailure'' \<rparr>"

abbreviation BName :: "HyperbytedbBackup \<Rightarrow> string" where "BName b \<equiv> Meta_Name (BMeta b)"
abbreviation BNamespace :: "HyperbytedbBackup \<Rightarrow> string" where "BNamespace b \<equiv> Meta_Namespace (BMeta b)"

definition buildBackupJob :: "HyperbytedbBackup \<Rightarrow> HyperbytedbCluster \<Rightarrow> string \<Rightarrow> job" where
  "buildBackupJob b c name =
     \<lparr> Job_Meta = new_meta name (BNamespace b) (CommonLabels c), Job_BackoffLimit = 3,
       Job_Pod = job_pod (snapshotBackupInitContainer (ResolveHyperbytedbImage c))
         (s3UploadContainer (BSpec_Destination (BSpec b)) (BSpec_RetentionDays (BSpec b)))
         [dataVolume (Name c) 0 True, snapshotVolume],
       Job_Succeeded = 0, Job_Failed = 0 \<rparr>"

definition buildBackupS3Path :: "HyperbytedbBackup \<Rightarrow> string" where
  "buildBackupS3Path b =
     (let s3 = BSpec_Destination (BSpec b)
      in S3_Bucket s3 @ (if S3_Prefix s3 \<noteq> [] then ''/'' @ TrimSuffix (S3_Prefix s3) ''/'' else []))"

definition put_bstatus :: "(HyperbytedbBackupStatus \<Rightarrow> HyperbytedbBackupStatus) \<Rightarrow> HyperbytedbBackup \<Rightarrow> HyperbytedbBackup" where
  "put_bstatus f b = b\<lparr> BStatus := f (BStatus b) \<rparr>"

definition set_bcond ::
  "'w sys \<Rightarrow> HyperbytedbBackup \<Rightarrow> string \<Rightarrow> cond_status \<Rightarrow> string \<Rightarrow> string \<Rightarrow> ('w, HyperbytedbBackup) prog" where
  "set_bcond S b ty st reason msg = do {
     now \<leftarrow> Now S;
     cs \<leftarrow> SetStatusCondition S (BStat_Conditions (BStatus b)) (mk_cond ty st reason msg (Some now) 0);
     ret (put_bstatus (BStat_Conditions_update (\<lambda>_. cs)) b) }"

definition save_backup :: "'w sys \<Rightarrow> HyperbytedbBackup \<Rightarrow> ('w, unit) prog" where
  "save_backup S b = do { _ \<leftarrow> StatusUpdate KBackup (api_backup S) b; ret () }"

text \<open>The status after the Job was read: finished, failed or still running.\<close>

definition backup_finished :: "'w sys \<Rightarrow> HyperbytedbBackup \<Rightarrow> ('w, reconcile_reply) prog" where
  "backup_finished S b = do {
     now \<leftarrow> Now S;
     b1 \<leftarrow> set_bcond S (put_bstatus (\<lambda>st. st\<lparr> BStat_Phase := BackupPhaseCompleted,
               BStat_CompletionTime := Some now, BStat_BackupPath := buildBackupS3Path b \<rparr>) b)
             ''Complete'' ConditionTrue ''BackupSucceeded'' ''Backup completed successfully'';
     RecordEvent ''Normal'' ''BackupCompleted'' ''Backup completed successfully'';
     save_backup S b1;
     ret (0, None) }"

definition backup_failed :: "'w sys \<Rightarrow> HyperbytedbBackup \<Rightarrow> ('w, reconcile_reply) prog" where
  "backup_failed S b = do {
     b1 \<leftarrow> set_bcond S (put_bstatus (\<lambda>st. st\<lparr> BStat_Phase := BackupPhaseFailed \<rparr>) b)
             ''Complete'' ConditionFalse ''BackupFailed'' ''Backup job failed'';
     RecordEvent ''Warning'' ''BackupFailed'' ''Backup job failed'';
     save_backup S b1;
     ret (0, None) }"

definition start_backup :: "'w sys \<Rightarrow> HyperbytedbBackup \<Rightarrow> HyperbytedbCluster \<Rightarrow> ('w, reconcile_reply) prog" where
  "start_backup S b c =
     (let job = buildBackupJob b c (BName b) in
      case set_owner S (BMeta b) (Job_Meta job) of
        Inl e \<Rightarrow> ret (0, Some e)
      | Inr m \<Rightarrow> do {
          r \<leftarrow> Create KJob (api_job S) (job\<lparr> Job_Meta := m \<rparr>);
          case r of
            Inl e \<Rightarrow> ret (0, Some e)
          | Inr _ \<Rightarrow> do {
              now \<leftarrow> Now S;
              RecordEvent ''Normal'' ''BackupStarted'' ''Backup job created'';
              save_backup S (put_bstatus (\<lambda>st. st\<lparr> BStat_Phase := BackupPhaseRunning, BStat_StartTime := Some now \<rparr>) b);
              ret (10 * second, None) } })"

definition reconcileJob :: "'w sys \<Rightarrow> HyperbytedbBackup \<Rightarrow> HyperbytedbCluster \<Rightarrow> ('w, reconcile_reply) prog" where
  "reconcileJob S b c = do {
     g \<leftarrow> Get KJob (api_job S) \<lparr> NN_Namespace = BNamespace b, NN_Name = BName b \<rparr>;
     case g of
       Inl e \<Rightarrow>
         if IsNotFound e
         then (if BStat_Phase (BStatus b) = BackupPhaseCompleted \<or> BStat_Phase (BStatus b) = BackupPhaseFailed
               then ret (0, None) else start_backup S b c)
         else ret (0, Some e)
     | Inr existing \<Rightarrow>
         if Job_Succeeded existing > 0 then backup_finished S b
         else if Job_Failed existing > 0 then backup_failed S b
         else ret (10 * second, None) }"

definition desired_cron :: "HyperbytedbBackup \<Rightarrow> HyperbytedbCluster \<Rightarrow> cron_job" where
  "desired_cron b c =
     (let job = buildBackupJob b c (BName b)
      in \<lparr> CJ_Meta = new_meta (BName b) (BNamespace b) (CommonLabels c), CJ_Schedule = BSpec_Schedule (BSpec b),
           CJ_JobBackoffLimit = Job_BackoffLimit job, CJ_JobPod = Job_Pod job,
           CJ_SuccessfulJobsHistoryLimit = 3, CJ_FailedJobsHistoryLimit = 3 \<rparr>)"

definition reconcileCronJob :: "'w sys \<Rightarrow> HyperbytedbBackup \<Rightarrow> HyperbytedbCluster \<Rightarrow> ('w, reconcile_reply) prog" where
  "reconcileCronJob S b c =
     (let desired = desired_cron b c in
      case set_owner S (BMeta b) (CJ_Meta desired) of
        Inl e \<Rightarrow> ret (0, Some e)
      | Inr m \<Rightarrow> do {
          g \<leftarrow> Get KCron (api_cron S) \<lparr> NN_Namespace = BNamespace b, NN_Name = BName b \<rparr>;
          case g of
            Inl e \<Rightarrow>
              if IsNotFound e
              then do {
                r \<leftarrow> Create KCron (api_cron S) (desired\<lparr> CJ_Meta := m \<rparr>);
                case r of
                  Inl e \<Rightarrow> ret (0, Some e)
                | Inr _ \<Rightarrow> do {
                    b1 \<leftarrow> set_bcond S (put_bstatus (\<lambda>st. st\<lparr> BStat_Phase := BackupPhaseRunning \<rparr>) b)
                            ''Scheduled'' ConditionTrue ''CronJobCreated''
                            (''Scheduled backup with cron: '' @ BSpec_Schedule (BSpec b));
                    RecordEvent ''Normal'' ''Scheduled'' (''Created CronJob with schedule '' @ BSpec_Schedule (BSpec b));
                    save_backup S b1;
                    ret (0, None) } }
              else ret (0, Some e)
          | Inr existing \<Rightarrow> do {
              r \<leftarrow> Update KCron (api_cron S) (existing\<lparr> CJ_Schedule := CJ_Schedule desired,
                     CJ_JobBackoffLimit := CJ_JobBackoffLimit desired, CJ_JobPod := CJ_JobPod desired \<rparr>);
              ret (0, err_of r) } })"

definition BackupReconcile :: "'w sys \<Rightarrow> nn \<Rightarrow> ('w, reconcile_reply) prog" where
  "BackupReconcile S req = do {
     g \<leftarrow> Get KBackup (api_backup S) req;
     case g of
       Inl e \<Rightarrow> if IsNotFound e then ret (0, None) else ret (0, Some e)
     | Inr b \<Rightarrow> do {
         h \<leftarrow> Get KCluster (api_cluster S) \<lparr> NN_Namespace = BNamespace b, NN_Name = BSpec_ClusterName (BSpec b) \<rparr>;
         case h of
           Inl e \<Rightarrow>
             if IsNotFound e
             then do {
               b1 \<leftarrow> set_bcond S (put_bstatus (\<lambda>st. st\<lparr> BStat_Phase := BackupPhaseFailed \<rparr>) b)
                       ''Ready'' ConditionFalse ''ClusterNotFound''
                       (''Cluster '' @ BSpec_ClusterName (BSpec b) @ '' not found'');
               save_backup S b1;
               ret (0, None) }
             else ret (0, Some e)
         | Inr c \<Rightarrow> if BSpec_Schedule (BSpec b) \<noteq> [] then reconcileCronJob S b c else reconcileJob S b c } }"

section \<open>What justifies a write of a backup pass\<close>

definition backup_cluster_key :: "HyperbytedbBackup \<Rightarrow> nn" where
  "backup_cluster_key b = \<lparr> NN_Namespace = BNamespace b, NN_Name = BSpec_ClusterName (BSpec b) \<rparr>"

definition backup_object_key :: "HyperbytedbBackup \<Rightarrow> nn" where
  "backup_object_key b = \<lparr> NN_Namespace = BNamespace b, NN_Name = BName b \<rparr>"

abbreviation BPhase :: "HyperbytedbBackup \<Rightarrow> BackupPhase" where "BPhase b \<equiv> BStat_Phase (BStatus b)"

definition backup_evidence :: "HyperbytedbBackup \<Rightarrow> event list \<Rightarrow> HyperbytedbBackup \<Rightarrow> bool" where
  "backup_evidence b pre b' =
     (case BPhase b' of
        BackupPhaseCompleted \<Rightarrow>
          BSpec_Schedule (BSpec b) = [] \<and> BStat_BackupPath (BStatus b') = buildBackupS3Path b \<and>
          (\<exists>j. EvGet (backup_object_key b) (Inr (KJob j)) \<in> set pre \<and> 0 < Job_Succeeded j)
      | BackupPhaseFailed \<Rightarrow>
          (\<exists>e. EvGet (backup_cluster_key b) (Inl e) \<in> set pre \<and> IsNotFound e) \<or>
          BSpec_Schedule (BSpec b) = [] \<and>
          (\<exists>j. EvGet (backup_object_key b) (Inr (KJob j)) \<in> set pre \<and> \<not> 0 < Job_Succeeded j \<and> 0 < Job_Failed j)
      | BackupPhaseRunning \<Rightarrow>
          (\<exists>j. BSpec_Schedule (BSpec b) = [] \<and> EvCreate (KJob j) None \<in> set pre) \<or>
          (\<exists>j. BSpec_Schedule (BSpec b) \<noteq> [] \<and> EvCreate (KCron j) None \<in> set pre)
      | _ \<Rightarrow> False)"

definition backup_write :: "nn \<Rightarrow> event list \<Rightarrow> event \<Rightarrow> bool" where
  "backup_write req pre e \<longleftrightarrow>
     (case e of
        EvGet _ _ \<Rightarrow> True
      | EvRecord _ _ _ \<Rightarrow> True
      | EvStatus obj _ \<Rightarrow>
          (\<exists>b b'. obj = KBackup b' \<and> EvGet req (Inr (KBackup b)) \<in> set pre \<and> BMeta b' = BMeta b \<and> BSpec b' = BSpec b \<and>
                  backup_evidence b pre b')
      | EvCreate obj _ \<Rightarrow>
          (\<exists>b c e m. EvGet req (Inr (KBackup b)) \<in> set pre \<and> EvGet (backup_cluster_key b) (Inr (KCluster c)) \<in> set pre \<and>
             EvGet (backup_object_key b) (Inl e) \<in> set pre \<and> IsNotFound e \<and>
             (BSpec_Schedule (BSpec b) = [] \<and> BPhase b \<notin> {BackupPhaseCompleted, BackupPhaseFailed} \<and>
                obj = KJob ((buildBackupJob b c (BName b))\<lparr> Job_Meta := m \<rparr>) \<or>
              BSpec_Schedule (BSpec b) \<noteq> [] \<and> obj = KCron ((desired_cron b c)\<lparr> CJ_Meta := m \<rparr>)))
      | EvUpdate obj _ \<Rightarrow>
          (\<exists>b c old. EvGet req (Inr (KBackup b)) \<in> set pre \<and> EvGet (backup_cluster_key b) (Inr (KCluster c)) \<in> set pre \<and>
             EvGet (backup_object_key b) (Inr (KCron old)) \<in> set pre \<and> BSpec_Schedule (BSpec b) \<noteq> [] \<and>
             obj = KCron ((desired_cron b c)\<lparr> CJ_Meta := CJ_Meta old,
               CJ_SuccessfulJobsHistoryLimit := CJ_SuccessfulJobsHistoryLimit old,
               CJ_FailedJobsHistoryLimit := CJ_FailedJobsHistoryLimit old \<rparr>))
      | _ \<Rightarrow> False)"

lemma put_bstatus_simps [simp]:
  "BMeta (put_bstatus f b) = BMeta b" "BSpec (put_bstatus f b) = BSpec b" "BStatus (put_bstatus f b) = f (BStatus b)"
  by (simp_all add: put_bstatus_def)

lemma traces_save_backup [trace_intro]:
  "(\<And>x. traces (f ()) (\<lambda>a es. R a (EvStatus (KBackup b) x # es))) \<Longrightarrow>
   traces (State_Monad.bind (save_backup S b) f) R"
  unfolding save_backup_def State_Monad.bind_assoc State_Monad.bind_left_identity by (intro trace_intro)

lemma traces_set_bcond [trace_intro]:
  "(\<And>cs. traces (f (put_bstatus (BStat_Conditions_update (\<lambda>_. cs)) b)) R) \<Longrightarrow>
   traces (State_Monad.bind (set_bcond S b ty st reason msg) f) R"
  unfolding set_bcond_def State_Monad.bind_assoc State_Monad.bind_left_identity by (intro trace_intro)

definition backup_reads :: "nn \<Rightarrow> HyperbytedbBackup \<Rightarrow> HyperbytedbCluster \<Rightarrow> event list \<Rightarrow> bool" where
  "backup_reads req b c pre \<longleftrightarrow>
     EvGet req (Inr (KBackup b)) \<in> set pre \<and> EvGet (backup_cluster_key b) (Inr (KCluster c)) \<in> set pre"

lemma backup_write_simps [simp]:
  "backup_write req pre (EvGet k x)" "backup_write req pre (EvRecord ty rs m)"
  by (simp_all add: backup_write_def)

lemma backup_write_status:
  assumes "backup_reads req b c pre" "BMeta b' = BMeta b" "BSpec b' = BSpec b" "backup_evidence b (pre @ es) b'"
  shows "backup_write req (pre @ es) (EvStatus (KBackup b') x)"
  unfolding backup_write_def using assms by (auto intro!: exI [of _ b] simp: backup_reads_def)

lemma reconcileJob_each:
  assumes "backup_reads req b c pre" "BSpec_Schedule (BSpec b) = []"
  shows "traces (reconcileJob S b c) (\<lambda>_. each (backup_write req) pre)"
proof -
  have create: "backup_write req (pre @ es) (EvCreate (KJob ((buildBackupJob b c (BName b))\<lparr> Job_Meta := m \<rparr>)) x)"
    if "EvGet (backup_object_key b) (Inl e) \<in> set es" "IsNotFound e"
      "BPhase b \<noteq> BackupPhaseCompleted" "BPhase b \<noteq> BackupPhaseFailed" for es m x e
    unfolding backup_write_def using assms that
    by (auto intro!: exI [of _ b] exI [of _ c] exI [of _ e] simp: backup_reads_def)
  show ?thesis
    unfolding reconcileJob_def start_backup_def backup_finished_def backup_failed_def Let_def
      backup_object_key_def [symmetric] State_Monad.bind_assoc State_Monad.bind_left_identity
    using assms
    by (intro trace_intro)
      (auto simp: err_of_def backup_evidence_def intro!: create backup_write_status split: sum.splits)
qed

lemma reconcileCronJob_each:
  assumes "backup_reads req b c pre" "BSpec_Schedule (BSpec b) \<noteq> []"
  shows "traces (reconcileCronJob S b c) (\<lambda>_. each (backup_write req) pre)"
proof -
  have create: "backup_write req (pre @ es) (EvCreate (KCron ((desired_cron b c)\<lparr> CJ_Meta := m \<rparr>)) x)"
    if "EvGet (backup_object_key b) (Inl e) \<in> set es" "IsNotFound e" for es m x e
    unfolding backup_write_def using assms that
    by (auto intro!: exI [of _ b] exI [of _ c] exI [of _ e] simp: backup_reads_def)
  have upd: "backup_write req (pre @ es) (EvUpdate (KCron (old\<lparr> CJ_Schedule := CJ_Schedule (desired_cron b c),
       CJ_JobBackoffLimit := CJ_JobBackoffLimit (desired_cron b c), CJ_JobPod := CJ_JobPod (desired_cron b c) \<rparr>)) x)"
    if "EvGet (backup_object_key b) (Inr (KCron old)) \<in> set es" for es old x
    unfolding backup_write_def using assms that
    by (cases old) (auto intro!: exI [of _ b] exI [of _ c] exI [of _ old] simp: backup_reads_def desired_cron_def Let_def)
  show ?thesis
    unfolding reconcileCronJob_def Let_def backup_object_key_def [symmetric]
    using assms
    by (intro trace_intro)
      (auto simp: err_of_def backup_evidence_def intro!: create upd backup_write_status split: sum.splits)
qed

lemma BackupReconcile_each: "traces (BackupReconcile S req) (\<lambda>_. each (backup_write req) [])"
  unfolding BackupReconcile_def backup_cluster_key_def [symmetric]
proof (intro trace_intro, goal_cases)
  case (3 g b h e cs x)
  then show ?case by (auto simp: backup_write_def backup_evidence_def intro!: exI [of _ b])
next
  case (5 g b h c)
  let ?pre = "[EvGet req (Inr (KBackup b)), EvGet (backup_cluster_key b) (Inr (KCluster c))]"
  have "backup_reads req b c ?pre" by (simp add: backup_reads_def)
  then show ?case using 5 reconcileCronJob_each [of req b c ?pre] by simp
next
  case (6 g b h c)
  let ?pre = "[EvGet req (Inr (KBackup b)), EvGet (backup_cluster_key b) (Inr (KCluster c))]"
  have "backup_reads req b c ?pre" by (simp add: backup_reads_def)
  then show ?case using 6 reconcileJob_each [of req b c ?pre] by simp
qed (auto simp: backup_write_def)

section \<open>Where a backup is stored\<close>

lemma trim_ends:
  assumes "TrimCut x cs \<noteq> []"
  shows "hd (TrimCut x cs) \<notin> set cs \<and> last (TrimCut x cs) \<notin> set cs"
proof -
  let ?p = "\<lambda>c. c \<in> set cs"
  let ?t = "TrimCut x cs"
  have "trim_with ?p ?t = ?t" by (simp add: TrimCut_def)
  then have eq: "rev (dropWhile ?p (rev (dropWhile ?p ?t))) = ?t" by (simp add: trim_with_def)
  have "length (dropWhile ?p ?t) \<ge> length ?t"
    by (metis eq length_dropWhile_le length_rev)
  then have d: "dropWhile ?p ?t = ?t"
    by (metis append_Nil append_eq_append_conv dropWhile_eq_drop length_drop length_dropWhile_le le_antisym takeWhile_dropWhile_id)
  with eq have "dropWhile ?p (rev ?t) = rev ?t" by (metis rev_rev_ident)
  with d assms show ?thesis by (metis dropWhile_eq_self_iff hd_rev rev_is_Nil_conv)
qed

lemma trim_self:
  assumes "x \<noteq> []" "hd x \<notin> set cs" "last x \<notin> set cs"
  shows "TrimCut x cs = x"
proof -
  have "dropWhile (\<lambda>c. c \<in> set cs) x = x" using assms by (cases x) auto
  moreover have "dropWhile (\<lambda>c. c \<in> set cs) (rev x) = rev x" using assms by (cases x rule: rev_cases) auto
  ultimately show ?thesis by (simp add: TrimCut_def trim_with_def)
qed

lemma trim_snoc:
  assumes "x \<noteq> []" "hd x \<notin> set cs" "last x \<notin> set cs" "a \<in> set cs"
  shows "TrimCut (x @ [a]) cs = x"
proof -
  have "dropWhile (\<lambda>c. c \<in> set cs) (x @ [a]) = x @ [a]" using assms by (cases x) auto
  moreover have "dropWhile (\<lambda>c. c \<in> set cs) (rev x) = rev x" using assms by (cases x rule: rev_cases) auto
  ultimately show ?thesis using assms(4) by (simp add: TrimCut_def trim_with_def)
qed

lemma trim_slash:
  assumes "x \<noteq> []"
  shows "TrimSuffix x ''/'' = TrimCut x ''/'' \<and> TrimCut x ''/'' \<noteq> [] \<longleftrightarrow> hd x \<noteq> CHR ''/'' \<and> \<not> has_suffix x ''//''"
proof -
  obtain y a where x: "x = y @ [a]" using assms by (metis rev_exhaust)
  have suffix: "has_suffix x ''//'' \<longleftrightarrow> a = CHR ''/'' \<and> y \<noteq> [] \<and> last y = CHR ''/''"
    by (cases y rule: rev_cases) (auto simp: x has_suffix_def)
  have cut: "TrimSuffix x ''/'' = (if a = CHR ''/'' then y else x)"
    by (simp add: x TrimSuffix_def has_suffix_def)
  show ?thesis
  proof (cases "a = CHR ''/''")
    case True
    then show ?thesis
      using trim_ends [of x "''/''"] trim_snoc [of y "''/''" a] cut suffix x
      by (cases "y = []") auto
  next
    case False
    then show ?thesis
      using trim_ends [of x "''/''"] trim_self [of x "''/''"] cut suffix x assms by auto
  qed
qed

section \<open>Properties\<close>

text \<open>
  C14. Every write of a backup pass is justified by what the pass read before it, whatever the API
  answers. A Job is created only for an unscheduled backup that has none and is neither
  completed nor failed, a CronJob only for a scheduled one that has none; the status becomes
  \<^verbatim>\<open>Completed\<close>, with the path of the upload, only after the Job was read succeeded, \<^verbatim>\<open>Failed\<close> only
  after it was read failed or the cluster was missing, \<^verbatim>\<open>Running\<close> only after a creation that went
  through. An update replaces schedule and template of the CronJob; nothing is deleted.
\<close>

theorem BackupReconcile_justified:
  "\<exists>es. log (snd (run_state (BackupReconcile S req) s)) = log s @ es \<and> each (backup_write req) [] es"
  using BackupReconcile_each [of S req] unfolding traces_def by blast

text \<open>
  C28. The path a completed backup reports is the folder its upload writes into exactly when the
  prefix is empty or neither starts with a slash nor ends with two: the upload trims all slashes
  on both sides, the report one at the end. The prefix handed to the upload never starts with a
  slash and ends with one unless empty, so that bucket, prefix and timestamp make one path.
\<close>

theorem backup_path_spec:
  "(buildBackupS3Path b @ ''/'' = S3_Bucket (BSpec_Destination (BSpec b)) @ ''/'' @ s3Prefix (BSpec_Destination (BSpec b))
     \<longleftrightarrow> (case S3_Prefix (BSpec_Destination (BSpec b)) of [] \<Rightarrow> True
           | a # x \<Rightarrow> a \<noteq> CHR ''/'' \<and> \<not> has_suffix (a # x) ''//'')) \<and>
   (s3Prefix s3 = [] \<or> hd (s3Prefix s3) \<noteq> CHR ''/'' \<and> last (s3Prefix s3) = CHR ''/'')"
proof -
  let ?x = "S3_Prefix (BSpec_Destination (BSpec b))"
  have "buildBackupS3Path b @ ''/'' = S3_Bucket (BSpec_Destination (BSpec b)) @ ''/'' @ s3Prefix (BSpec_Destination (BSpec b))
      \<longleftrightarrow> ?x = [] \<or> TrimSuffix ?x ''/'' = TrimCut ?x ''/'' \<and> TrimCut ?x ''/'' \<noteq> []"
  proof (cases "?x = []")
    case True
    then show ?thesis by (simp add: buildBackupS3Path_def s3Prefix_def TrimCut_def trim_with_def)
  next
    case False
    then show ?thesis by (cases "TrimCut ?x ''/'' = []") (simp_all add: buildBackupS3Path_def s3Prefix_def Let_def)
  qed
  moreover have "?x = [] \<or> TrimSuffix ?x ''/'' = TrimCut ?x ''/'' \<and> TrimCut ?x ''/'' \<noteq> [] \<longleftrightarrow>
      (case ?x of [] \<Rightarrow> True | a # x \<Rightarrow> a \<noteq> CHR ''/'' \<and> \<not> has_suffix (a # x) ''//'')"
    using trim_slash [of ?x] by (cases ?x) auto
  moreover have "s3Prefix s3 = [] \<or> hd (s3Prefix s3) \<noteq> CHR ''/'' \<and> last (s3Prefix s3) = CHR ''/''"
    using trim_ends [of "S3_Prefix s3" "''/''"] by (auto simp: s3Prefix_def Let_def)
  ultimately show ?thesis by simp
qed

end
