(* ===== verification/Restore.thy ===== *)
theory Restore
  imports Backup Store
begin

text \<open>
  Restores: the reconciler of \<^verbatim>\<open>internal/controller/hyperbytedbrestore_controller.go\<close>. A restore
  scales the StatefulSet to zero, runs one Job per data volume and scales back up; its progress is
  the phase in the status, read and written once per pass. The theorems are about single passes
  under an arbitrary API server, and about the machine of phases the passes follow.
\<close>

section \<open>The reconciler\<close>

abbreviation RName :: "HyperbytedbRestore \<Rightarrow> string" where "RName r \<equiv> Meta_Name (RMeta r)"
abbreviation RNamespace :: "HyperbytedbRestore \<Rightarrow> string" where "RNamespace r \<equiv> Meta_Namespace (RMeta r)"
abbreviation RPhase :: "HyperbytedbRestore \<Rightarrow> RestorePhase" where "RPhase r \<equiv> RStat_Phase (RStatus r)"

definition put_rstatus ::
  "(HyperbytedbRestoreStatus \<Rightarrow> HyperbytedbRestoreStatus) \<Rightarrow> HyperbytedbRestore \<Rightarrow> HyperbytedbRestore" where
  "put_rstatus f r = r\<lparr> RStatus := f (RStatus r) \<rparr>"

definition setRestorePhase ::
  "'w sys \<Rightarrow> HyperbytedbRestore \<Rightarrow> RestorePhase \<Rightarrow> string \<Rightarrow> string \<Rightarrow> ('w, unit) prog" where
  "setRestorePhase S r phase reason message = do {
     now \<leftarrow> Now S;
     cs \<leftarrow> SetStatusCondition S (RStat_Conditions (RStatus r))
             (mk_cond (restore_phase_text phase) ConditionTrue reason message (Some now) 0);
     _ \<leftarrow> StatusUpdate KRestore (api_restore S)
            (put_rstatus (\<lambda>st. st\<lparr> RStat_Phase := phase, RStat_Conditions := cs \<rparr>) r);
     ret () }"

definition resolveS3Source :: "'w sys \<Rightarrow> HyperbytedbRestore \<Rightarrow> ('w, S3BackupSpec result) prog" where
  "resolveS3Source S r =
     (case RSpec_Source (RSpec r) of
        Some src \<Rightarrow> ret (Inr src)
      | None \<Rightarrow> do {
          g \<leftarrow> Get KBackup (api_backup S) \<lparr> NN_Namespace = RNamespace r, NN_Name = RSpec_BackupName (RSpec r) \<rparr>;
          case g of
            Inl e \<Rightarrow> ret (Inl (WrapErr (''looking up backup '' @ RSpec_BackupName (RSpec r)) e))
          | Inr b \<Rightarrow>
              let d = BSpec_Destination (BSpec b)
              in ret (Inr \<lparr> S3_Bucket = S3_Bucket d, S3_Prefix = S3_Prefix d, S3_Region = S3_Region d,
                            S3_Endpoint = S3_Endpoint d, S3_CredentialsSecretName = S3_CredentialsSecretName d \<rparr>) })"

definition buildRestoreJob :: "HyperbytedbRestore \<Rightarrow> HyperbytedbCluster \<Rightarrow> S3BackupSpec \<Rightarrow> int \<Rightarrow> job" where
  "buildRestoreJob r c src ordinal =
     \<lparr> Job_Meta = new_meta (RName r @ ''-'' @ dec ordinal) (RNamespace r) (CommonLabels c), Job_BackoffLimit = 2,
       Job_Pod = job_pod (s3DownloadInitContainer src) (restoreDataContainer (ResolveHyperbytedbImage c) ordinal)
         [dataVolume (Name c) ordinal False, snapshotVolume],
       Job_Succeeded = 0, Job_Failed = 0 \<rparr>"

definition handleScaleDown ::
  "'w sys \<Rightarrow> HyperbytedbRestore \<Rightarrow> HyperbytedbCluster \<Rightarrow> ('w, reconcile_reply) prog" where
  "handleScaleDown S r c = do {
     g \<leftarrow> Get KSts (api_sts S) (nn_of c (StatefulSetName c));
     case g of
       Inl e \<Rightarrow> ret (0, Some e)
     | Inr st \<Rightarrow> do {
         u \<leftarrow> Update KSts (api_sts S) (st\<lparr> Sts_Replicas := Some 0 \<rparr>);
         case u of
           Inl e \<Rightarrow> ret (0, Some e)
         | Inr _ \<Rightarrow> do {
             now \<leftarrow> Now S;
             RecordEvent ''Normal'' ''ScalingDown'' ''Scaling cluster to 0 for restore'';
             setRestorePhase S (put_rstatus (\<lambda>st. st\<lparr> RStat_StartTime := Some now \<rparr>) r)
               RestorePhaseScaleDown ''ScalingDown'' ''Scaling StatefulSet to 0'';
             ret (5 * second, None) } } }"

text \<open>One Job of the loop; a Job that exists already is left alone.\<close>

definition create_restore_job ::
  "'w sys \<Rightarrow> HyperbytedbRestore \<Rightarrow> HyperbytedbCluster \<Rightarrow> S3BackupSpec \<Rightarrow> int \<Rightarrow> ('w, unit result) prog" where
  "create_restore_job S r c src i =
     (let job = buildRestoreJob r c src i in
      case set_owner S (RMeta r) (Job_Meta job) of
        Inl e \<Rightarrow> ret (Inl e)
      | Inr m \<Rightarrow> do {
          q \<leftarrow> Create KJob (api_job S) (job\<lparr> Job_Meta := m \<rparr>);
          case q of
            Inl e \<Rightarrow> ret (if IsAlreadyExists e then Inr () else Inl e)
          | Inr _ \<Rightarrow> ret (Inr ()) })"

definition checkScaleDown ::
  "'w sys \<Rightarrow> HyperbytedbRestore \<Rightarrow> HyperbytedbCluster \<Rightarrow> S3BackupSpec \<Rightarrow> ('w, reconcile_reply) prog" where
  "checkScaleDown S r c src = do {
     g \<leftarrow> Get KSts (api_sts S) (nn_of c (StatefulSetName c));
     case g of
       Inl e \<Rightarrow> ret (0, Some e)
     | Inr st \<Rightarrow>
         if StsS_ReadyReplicas st > 0 then ret (5 * second, None)
         else (let replicas = replicas_of c in do {
           q \<leftarrow> forErr (ords_up 0 replicas) (create_restore_job S r c src);
           case q of
             Inl e \<Rightarrow> ret (0, Some e)
           | Inr _ \<Rightarrow> do {
               RecordEvent ''Normal'' ''RestoreStarted'' (''Launched '' @ dec replicas @ '' restore jobs'');
               setRestorePhase S (put_rstatus (\<lambda>st. st\<lparr> RStat_RestoredPVCs := replicas \<rparr>) r)
                 RestorePhaseRestoring ''RestoreJobsCreated'' (''Created '' @ dec replicas @ '' restore jobs'');
               ret (10 * second, None) } }) }"

definition handleScaleUp ::
  "'w sys \<Rightarrow> HyperbytedbRestore \<Rightarrow> HyperbytedbCluster \<Rightarrow> ('w, reconcile_reply) prog" where
  "handleScaleUp S r c = do {
     g \<leftarrow> Get KSts (api_sts S) (nn_of c (StatefulSetName c));
     case g of
       Inl e \<Rightarrow> ret (0, Some e)
     | Inr st \<Rightarrow> do {
         u \<leftarrow> Update KSts (api_sts S) (st\<lparr> Sts_Replicas := Some (replicas_of c) \<rparr>);
         case u of
           Inl e \<Rightarrow> ret (0, Some e)
         | Inr _ \<Rightarrow> do {
             now \<leftarrow> Now S;
             RecordEvent ''Normal'' ''RestoreCompleted'' ''Restore completed, cluster scaling back up'';
             setRestorePhase S (put_rstatus (\<lambda>st. st\<lparr> RStat_CompletionTime := Some now \<rparr>) r)
               RestorePhaseCompleted ''RestoreComplete'' ''Restore completed, cluster scaling back up'';
             ret (0, None) } } }"

text \<open>The loop over the Jobs: whether all are done and whether one failed.\<close>

fun poll_jobs ::
  "'w sys \<Rightarrow> HyperbytedbRestore \<Rightarrow> int list \<Rightarrow> bool \<Rightarrow> bool \<Rightarrow> ('w, (bool \<times> bool) result) prog" where
  "poll_jobs S r [] allDone anyFailed = ret (Inr (allDone, anyFailed))"
| "poll_jobs S r (i # is) allDone anyFailed = do {
     g \<leftarrow> Get KJob (api_job S) \<lparr> NN_Namespace = RNamespace r, NN_Name = RName r @ ''-'' @ dec i \<rparr>;
     case g of
       Inl e \<Rightarrow> if IsNotFound e then poll_jobs S r is False anyFailed else ret (Inl e)
     | Inr j \<Rightarrow> poll_jobs S r is (if Job_Succeeded j = 0 \<and> Job_Failed j = 0 then False else allDone)
                  (if Job_Failed j > 0 then True else anyFailed) }"

definition checkRestoreJob ::
  "'w sys \<Rightarrow> HyperbytedbRestore \<Rightarrow> HyperbytedbCluster \<Rightarrow> ('w, reconcile_reply) prog" where
  "checkRestoreJob S r c = do {
     q \<leftarrow> poll_jobs S r (ords_up 0 (replicas_of c)) True False;
     case q of
       Inl e \<Rightarrow> ret (0, Some e)
     | Inr (allDone, anyFailed) \<Rightarrow>
         if anyFailed then do {
           RecordEvent ''Warning'' ''RestoreFailed'' ''One or more restore jobs failed'';
           setRestorePhase S r RestorePhaseFailed ''RestoreFailed'' ''Restore job failed'';
           ret (0, None) }
         else if allDone then handleScaleUp S r c
         else ret (10 * second, None) }"

definition restore_dispatch ::
  "'w sys \<Rightarrow> HyperbytedbRestore \<Rightarrow> HyperbytedbCluster \<Rightarrow> S3BackupSpec \<Rightarrow> ('w, reconcile_reply) prog" where
  "restore_dispatch S r c src =
     (case RPhase r of
        RestorePhaseUnset \<Rightarrow> handleScaleDown S r c
      | RestorePhasePending \<Rightarrow> handleScaleDown S r c
      | RestorePhaseScaleDown \<Rightarrow> checkScaleDown S r c src
      | RestorePhaseRestoring \<Rightarrow> checkRestoreJob S r c
      | _ \<Rightarrow> ret (0, None))"

definition RestoreReconcile :: "'w sys \<Rightarrow> nn \<Rightarrow> ('w, reconcile_reply) prog" where
  "RestoreReconcile S req = do {
     g \<leftarrow> Get KRestore (api_restore S) req;
     case g of
       Inl e \<Rightarrow> if IsNotFound e then ret (0, None) else ret (0, Some e)
     | Inr r \<Rightarrow>
         if RPhase r = RestorePhaseCompleted \<or> RPhase r = RestorePhaseFailed then ret (0, None)
         else do {
           h \<leftarrow> Get KCluster (api_cluster S) \<lparr> NN_Namespace = RNamespace r, NN_Name = RSpec_ClusterName (RSpec r) \<rparr>;
           case h of
             Inl e \<Rightarrow> do {
               setRestorePhase S r RestorePhaseFailed ''ClusterNotFound'' (err_text e);
               ret (0, None) }
           | Inr c \<Rightarrow> do {
               q \<leftarrow> resolveS3Source S r;
               case q of
                 Inl e \<Rightarrow> do {
                   setRestorePhase S r RestorePhaseFailed ''SourceResolutionFailed'' (err_text e);
                   ret (0, None) }
               | Inr src \<Rightarrow> restore_dispatch S r c src } } }"

section \<open>The machine of phases\<close>

inductive restore_step :: "RestorePhase \<Rightarrow> RestorePhase \<Rightarrow> bool" where
  scale_down: "p = RestorePhaseUnset \<or> p = RestorePhasePending \<Longrightarrow> restore_step p RestorePhaseScaleDown"
| launch: "restore_step RestorePhaseScaleDown RestorePhaseRestoring"
| complete: "restore_step RestorePhaseRestoring RestorePhaseCompleted"
| fail: "p \<noteq> RestorePhaseCompleted \<Longrightarrow> p \<noteq> RestorePhaseFailed \<Longrightarrow> restore_step p RestorePhaseFailed"

code_pred (modes: i \<Rightarrow> i \<Rightarrow> bool) restore_step .

inductive_simps restore_step_simps:
  "restore_step RestorePhaseCompleted p" "restore_step RestorePhaseFailed p"
  "restore_step p RestorePhaseScaleDown" "restore_step p RestorePhaseRestoring"
  "restore_step p RestorePhaseCompleted" "restore_step p RestorePhaseFailed"
  "restore_step p RestorePhaseUnset" "restore_step p RestorePhasePending"

section \<open>What justifies a write\<close>

text \<open>The name of the Job of an ordinal, and the source the pass resolved.\<close>

definition restore_job_key :: "HyperbytedbRestore \<Rightarrow> int \<Rightarrow> nn" where
  "restore_job_key r i = \<lparr> NN_Namespace = RNamespace r, NN_Name = RName r @ ''-'' @ dec i \<rparr>"

definition sts_key :: "HyperbytedbCluster \<Rightarrow> nn" where
  "sts_key c = nn_of c (StatefulSetName c)"

definition cluster_key :: "HyperbytedbRestore \<Rightarrow> nn" where
  "cluster_key r = \<lparr> NN_Namespace = RNamespace r, NN_Name = RSpec_ClusterName (RSpec r) \<rparr>"

definition backup_key :: "HyperbytedbRestore \<Rightarrow> nn" where
  "backup_key r = \<lparr> NN_Namespace = RNamespace r, NN_Name = RSpec_BackupName (RSpec r) \<rparr>"

definition source_read :: "HyperbytedbRestore \<Rightarrow> event list \<Rightarrow> S3BackupSpec \<Rightarrow> bool" where
  "source_read r pre src \<longleftrightarrow>
     RSpec_Source (RSpec r) = Some src \<or>
     RSpec_Source (RSpec r) = None \<and>
     (\<exists>b. EvGet (backup_key r) (Inr (KBackup b)) \<in> set pre \<and> src = BSpec_Destination (BSpec b))"

definition job_for ::
  "HyperbytedbRestore \<Rightarrow> HyperbytedbCluster \<Rightarrow> S3BackupSpec \<Rightarrow> int \<Rightarrow> job \<Rightarrow> bool" where
  "job_for r c src i j \<longleftrightarrow> (\<exists>m. j = (buildRestoreJob r c src i)\<lparr> Job_Meta := m \<rparr>)"

definition launched :: "HyperbytedbRestore \<Rightarrow> HyperbytedbCluster \<Rightarrow> S3BackupSpec \<Rightarrow> int \<Rightarrow> event list \<Rightarrow> bool" where
  "launched r c src i es \<longleftrightarrow>
     (\<exists>j x. EvCreate (KJob j) x \<in> set es \<and> job_for r c src i j \<and> (\<forall>e. x = Some e \<longrightarrow> IsAlreadyExists e))"

definition job_succeeded :: "job \<Rightarrow> bool" where
  "job_succeeded j \<longleftrightarrow> Job_Failed j \<le> 0 \<and> (Job_Failed j = 0 \<longrightarrow> Job_Succeeded j \<noteq> 0)"

definition succeeded :: "HyperbytedbRestore \<Rightarrow> int \<Rightarrow> event list \<Rightarrow> bool" where
  "succeeded r i es \<longleftrightarrow>
     (\<exists>j. EvGet (restore_job_key r i) (Inr (KJob j)) \<in> set es \<and> job_succeeded j)"

definition phase_evidence :: "HyperbytedbRestore \<Rightarrow> event list \<Rightarrow> RestorePhase \<Rightarrow> bool" where
  "phase_evidence r pre p =
     (case p of
        RestorePhaseScaleDown \<Rightarrow>
          (\<exists>c st. EvGet (cluster_key r) (Inr (KCluster c)) \<in> set pre \<and> EvGet (sts_key c) (Inr (KSts st)) \<in> set pre \<and>
                  EvUpdate (KSts (st\<lparr> Sts_Replicas := Some 0 \<rparr>)) None \<in> set pre)
      | RestorePhaseRestoring \<Rightarrow>
          (\<exists>c src. EvGet (cluster_key r) (Inr (KCluster c)) \<in> set pre \<and> source_read r pre src \<and>
                   (\<forall>i\<in>{0..<replicas_of c}. launched r c src i pre))
      | RestorePhaseCompleted \<Rightarrow>
          (\<exists>c st. EvGet (cluster_key r) (Inr (KCluster c)) \<in> set pre \<and> EvGet (sts_key c) (Inr (KSts st)) \<in> set pre \<and>
                  (\<forall>i\<in>{0..<replicas_of c}. succeeded r i pre) \<and>
                  EvUpdate (KSts (st\<lparr> Sts_Replicas := Some (replicas_of c) \<rparr>)) None \<in> set pre)
      | RestorePhaseFailed \<Rightarrow>
          (\<exists>e. EvGet (cluster_key r) (Inl e) \<in> set pre \<or> EvGet (backup_key r) (Inl e) \<in> set pre) \<or>
          (\<exists>c i j. EvGet (cluster_key r) (Inr (KCluster c)) \<in> set pre \<and> i \<in> {0..<replicas_of c} \<and>
                   EvGet (restore_job_key r i) (Inr (KJob j)) \<in> set pre \<and> 0 < Job_Failed j)
      | _ \<Rightarrow> False)"

definition restore_write :: "nn \<Rightarrow> event list \<Rightarrow> event \<Rightarrow> bool" where
  "restore_write req pre e \<longleftrightarrow>
     (case e of
        EvGet _ _ \<Rightarrow> True
      | EvRecord _ _ _ \<Rightarrow> True
      | EvStatus obj _ \<Rightarrow>
          (\<exists>r r'. obj = KRestore r' \<and> EvGet req (Inr (KRestore r)) \<in> set pre \<and>
                  RMeta r' = RMeta r \<and> RSpec r' = RSpec r \<and>
                  restore_step (RPhase r) (RPhase r') \<and> phase_evidence r pre (RPhase r'))
      | EvCreate obj _ \<Rightarrow>
          (\<exists>r c src st i j. obj = KJob j \<and> EvGet req (Inr (KRestore r)) \<in> set pre \<and>
             EvGet (cluster_key r) (Inr (KCluster c)) \<in> set pre \<and> source_read r pre src \<and>
             RPhase r = RestorePhaseScaleDown \<and> EvGet (sts_key c) (Inr (KSts st)) \<in> set pre \<and>
             StsS_ReadyReplicas st \<le> 0 \<and> i \<in> {0..<replicas_of c} \<and> job_for r c src i j)
      | EvUpdate obj _ \<Rightarrow>
          (\<exists>r c st. EvGet req (Inr (KRestore r)) \<in> set pre \<and> EvGet (cluster_key r) (Inr (KCluster c)) \<in> set pre \<and>
             EvGet (sts_key c) (Inr (KSts st)) \<in> set pre \<and>
             (RPhase r \<in> {RestorePhaseUnset, RestorePhasePending} \<and> obj = KSts (st\<lparr> Sts_Replicas := Some 0 \<rparr>) \<or>
              RPhase r = RestorePhaseRestoring \<and> obj = KSts (st\<lparr> Sts_Replicas := Some (replicas_of c) \<rparr>) \<and>
                (\<forall>i\<in>{0..<replicas_of c}. succeeded r i pre)))
      | _ \<Rightarrow> False)"

lemmas restore_keys = restore_job_key_def sts_key_def cluster_key_def backup_key_def

section \<open>Executing the pass\<close>

lemma traces_setRestorePhase [trace_intro]:
  "(\<And>cs x. traces (f ()) (\<lambda>b es. R b
      (EvStatus (KRestore (put_rstatus (\<lambda>st. st\<lparr> RStat_Phase := p, RStat_Conditions := cs \<rparr>) r)) x # es))) \<Longrightarrow>
   traces (State_Monad.bind (setRestorePhase S r p reason msg) f) R"
  unfolding setRestorePhase_def State_Monad.bind_assoc State_Monad.bind_left_identity by (intro trace_intro)

lemma put_rstatus_simps [simp]:
  "RMeta (put_rstatus f r) = RMeta r" "RSpec (put_rstatus f r) = RSpec r" "RStatus (put_rstatus f r) = f (RStatus r)"
  by (simp_all add: put_rstatus_def)

lemma traces_create_restore_job:
  "traces (create_restore_job S r c src i) (\<lambda>a es.
     list_all (\<lambda>e. \<exists>j x. e = EvCreate (KJob j) x \<and> job_for r c src i j) es \<and> (isOk a \<longrightarrow> launched r c src i es))"
  unfolding create_restore_job_def
  by (intro trace_intro) (auto simp: job_for_def launched_def err_of_def split: sum.splits)

lemma launched_append [simp]: "launched r c src i (xs @ ys) \<longleftrightarrow> launched r c src i xs \<or> launched r c src i ys"
  by (auto simp: launched_def)

lemma traces_create_jobs:
  "traces (forErr is (create_restore_job S r c src)) (\<lambda>a es.
     list_all (\<lambda>e. \<exists>i\<in>set is. \<exists>j x. e = EvCreate (KJob j) x \<and> job_for r c src i j) es \<and>
     (isOk a \<longrightarrow> (\<forall>i\<in>set is. launched r c src i es)))"
proof (induction "is")
  case (Cons i "is")
  show ?case
    unfolding forErr.simps
    by (rule traces_bind [OF traces_create_restore_job])
      (auto intro!: trace_intro traces_weaken [OF Cons] simp: list_all_iff split: sum.splits)
qed (auto intro!: trace_intro)

lemma succeeded_append [simp]: "succeeded r i (xs @ ys) \<longleftrightarrow> succeeded r i xs \<or> succeeded r i ys"
  by (auto simp: succeeded_def)

lemma succeeded_Cons [simp]:
  "succeeded r i (e # es) \<longleftrightarrow> (\<exists>j. e = EvGet (restore_job_key r i) (Inr (KJob j)) \<and> job_succeeded j) \<or> succeeded r i es"
  by (auto simp: succeeded_def)

definition polled :: "HyperbytedbRestore \<Rightarrow> int list \<Rightarrow> bool \<Rightarrow> bool \<Rightarrow> (bool \<times> bool) result \<Rightarrow> event list \<Rightarrow> bool" where
  "polled r is d f a es \<longleftrightarrow>
     list_all (\<lambda>e. \<exists>k x. e = EvGet k x) es \<and>
     (\<forall>d' f'. a = Inr (d', f') \<longrightarrow>
        (d' \<and> \<not> f' \<longrightarrow> d \<and> \<not> f \<and> (\<forall>i\<in>set is. succeeded r i es)) \<and>
        (f' \<longrightarrow> f \<or> (\<exists>i\<in>set is. \<exists>j. EvGet (restore_job_key r i) (Inr (KJob j)) \<in> set es \<and> 0 < Job_Failed j)))"

lemma polled_missing:
  assumes "polled r is False f a es"
  shows "polled r (i # is) d f a (EvGet k x # es)"
  using assms unfolding polled_def by simp (metis list.set_intros(2))

lemma polled_job:
  assumes "polled r is (if Job_Succeeded j = 0 \<and> Job_Failed j = 0 then False else d)
             (if 0 < Job_Failed j then True else f) a es"
  shows "polled r (i # is) d f a (EvGet (restore_job_key r i) (Inr (KJob j)) # es)"
  unfolding polled_def
proof (intro conjI allI impI)
  show "list_all (\<lambda>e. \<exists>k x. e = EvGet k x) (EvGet (restore_job_key r i) (Inr (KJob j)) # es)"
    using assms by (simp add: polled_def)
next
  fix d' f'
  assume a: "a = Inr (d', f')"
  {
    assume *: "d' \<and> \<not> f'"
    with assms a have "(if Job_Succeeded j = 0 \<and> Job_Failed j = 0 then False else d) \<and>
        \<not> (if 0 < Job_Failed j then True else f) \<and> (\<forall>i\<in>set is. succeeded r i es)"
      unfolding polled_def by blast
    then show d "\<not> f" "\<forall>i'\<in>set (i # is). succeeded r i' (EvGet (restore_job_key r i) (Inr (KJob j)) # es)"
      by (auto simp: job_succeeded_def split: if_splits)
  }
  assume f'
  with assms a show "f \<or> (\<exists>i'\<in>set (i # is). \<exists>j'. EvGet (restore_job_key r i') (Inr (KJob j'))
      \<in> set (EvGet (restore_job_key r i) (Inr (KJob j)) # es) \<and> 0 < Job_Failed j')"
    unfolding polled_def by (cases "0 < Job_Failed j") fastforce+
qed

lemma traces_poll_jobs: "traces (poll_jobs S r is d f) (polled r is d f)"
proof (induction "is" arbitrary: d f)
  case Nil
  show ?case by (auto intro!: trace_intro simp: polled_def)
next
  case (Cons i "is")
  show ?case
    unfolding poll_jobs.simps restore_job_key_def [symmetric]
    by (intro trace_intro)
      (simp_all add: polled_job polled_missing traces_weaken [OF Cons], simp add: polled_def)
qed

text \<open>What a pass has read when it dispatches on the phase.\<close>

definition restore_reads ::
  "nn \<Rightarrow> HyperbytedbRestore \<Rightarrow> HyperbytedbCluster \<Rightarrow> S3BackupSpec \<Rightarrow> event list \<Rightarrow> bool" where
  "restore_reads req r c src pre \<longleftrightarrow>
     EvGet req (Inr (KRestore r)) \<in> set pre \<and> EvGet (cluster_key r) (Inr (KCluster c)) \<in> set pre \<and>
     source_read r pre src"

lemma source_read_append [simp]: "source_read r pre src \<Longrightarrow> source_read r (pre @ es) src"
  by (auto simp: source_read_def)

lemma restore_reads_append: "restore_reads req r c src pre \<Longrightarrow> restore_reads req r c src (pre @ es)"
  by (auto simp: restore_reads_def)

lemma restore_write_simps [simp]:
  "restore_write req pre (EvGet k x)" "restore_write req pre (EvRecord ty rs m)"
  by (simp_all add: restore_write_def)

text \<open>The writes, justified by what was read.\<close>

lemma restore_write_status:
  assumes "restore_reads req r c src pre" "restore_step (RPhase r) (RPhase r')"
    and "phase_evidence r (pre @ es) (RPhase r')" "RMeta r' = RMeta r" "RSpec r' = RSpec r"
  shows "restore_write req (pre @ es) (EvStatus (KRestore r') x)"
  unfolding restore_write_def using assms
  by (auto intro!: exI [of _ r] simp: restore_reads_def)

lemma restore_write_scale_down:
  assumes "restore_reads req r c src pre" "RPhase r \<in> {RestorePhaseUnset, RestorePhasePending}"
    and "EvGet (sts_key c) (Inr (KSts st)) \<in> set es"
  shows "restore_write req (pre @ es) (EvUpdate (KSts (st\<lparr> Sts_Replicas := Some 0 \<rparr>)) x)"
  unfolding restore_write_def using assms
  by (auto intro!: exI [of _ r] exI [of _ c] exI [of _ st] simp: restore_reads_def)

lemma restore_write_scale_up:
  assumes "restore_reads req r c src pre" "RPhase r = RestorePhaseRestoring"
    and "EvGet (sts_key c) (Inr (KSts st)) \<in> set es" "\<forall>i\<in>{0..<replicas_of c}. succeeded r i es"
  shows "restore_write req (pre @ es) (EvUpdate (KSts (st\<lparr> Sts_Replicas := Some (replicas_of c) \<rparr>)) x)"
  unfolding restore_write_def using assms
  by (auto intro!: exI [of _ r] exI [of _ c] exI [of _ st] simp: restore_reads_def)

lemma restore_write_job:
  assumes "restore_reads req r c src pre" "RPhase r = RestorePhaseScaleDown"
    and "EvGet (sts_key c) (Inr (KSts st)) \<in> set es" "\<not> 0 < StsS_ReadyReplicas st"
    and "i \<in> {0..<replicas_of c}" "job_for r c src i j"
  shows "restore_write req (pre @ es) (EvCreate (KJob j) x)"
  using assms unfolding restore_write_def restore_reads_def
  by (auto intro!: exI [of _ r] exI [of _ c] exI [of _ src] exI [of _ st] exI [of _ i])

lemma handleScaleDown_each:
  assumes "restore_reads req r c src pre" "RPhase r \<in> {RestorePhaseUnset, RestorePhasePending}"
  shows "traces (handleScaleDown S r c) (\<lambda>_. each (restore_write req) pre)"
proof -
  have ev: "phase_evidence r (pre @ es) RestorePhaseScaleDown"
    if "EvGet (sts_key c) (Inr (KSts st)) \<in> set es" "EvUpdate (KSts (st\<lparr> Sts_Replicas := Some 0 \<rparr>)) None \<in> set es"
    for st es
    using assms(1) that by (auto simp: phase_evidence_def restore_reads_def)
  show ?thesis
    unfolding handleScaleDown_def sts_key_def [symmetric]
    using assms
    by (intro trace_intro)
      (auto simp: err_of_def restore_step_simps intro!: restore_write_scale_down restore_write_status ev
         split: sum.splits)
qed

lemma handleScaleUp_each:
  assumes "restore_reads req r c src pre" "RPhase r = RestorePhaseRestoring"
    and "\<forall>i\<in>{0..<replicas_of c}. succeeded r i es"
  shows "traces (handleScaleUp S r c) (\<lambda>_ fs. each (restore_write req) (pre @ es) fs)"
proof -
  have ev: "phase_evidence r (pre @ es @ fs) RestorePhaseCompleted"
    if "EvGet (sts_key c) (Inr (KSts st)) \<in> set fs"
      "EvUpdate (KSts (st\<lparr> Sts_Replicas := Some (replicas_of c) \<rparr>)) None \<in> set fs" for st fs
    using assms(1,3) that by (auto simp: phase_evidence_def restore_reads_def)
  show ?thesis
    unfolding handleScaleUp_def sts_key_def [symmetric]
    using assms
    by (intro trace_intro)
      (auto simp: err_of_def restore_step_simps intro!: restore_write_scale_up restore_write_status ev
         split: sum.splits)
qed

lemma create_jobs_each:
  assumes reads: "restore_reads req r c src pre" "RPhase r = RestorePhaseScaleDown"
    and st: "\<not> 0 < StsS_ReadyReplicas st"
    and f: "\<And>(a :: unit result) es. (isOk a \<Longrightarrow> \<forall>i\<in>{0..<replicas_of c}. launched r c src i es) \<Longrightarrow>
        traces (f a) (\<lambda>_ fs. each (restore_write req) (pre @ EvGet (sts_key c) (Inr (KSts st)) # es) fs)"
  shows "traces (State_Monad.bind (forErr (ords_up 0 (replicas_of c)) (create_restore_job S r c src)) f)
      (\<lambda>_ fs. each (restore_write req) pre (EvGet (sts_key c) (Inr (KSts st)) # fs))"
proof (rule traces_bind [OF traces_create_jobs], elim conjE)
  fix a :: "unit result" and es
  let ?pre = "pre @ [EvGet (sts_key c) (Inr (KSts st))]"
  assume es: "list_all (\<lambda>e. \<exists>i\<in>set (ords_up 0 (replicas_of c)). \<exists>j x. e = EvCreate (KJob j) x \<and> job_for r c src i j) es"
    and ok: "isOk a \<longrightarrow> (\<forall>i\<in>set (ords_up 0 (replicas_of c)). launched r c src i es)"
  from es have "each (restore_write req) ?pre es"
  proof (rule each_list_all, elim bexE exE conjE)
    fix mid e i j x
    assume "i \<in> set (ords_up 0 (replicas_of c))" "e = EvCreate (KJob j) x" "job_for r c src i j"
    then show "restore_write req (?pre @ mid) e"
      using reads st restore_write_job [where pre = pre and es = "EvGet (sts_key c) (Inr (KSts st)) # mid"]
      by fastforce
  qed
  with f [of a es] ok
  show "traces (f a) (\<lambda>b fs. each (restore_write req) pre (EvGet (sts_key c) (Inr (KSts st)) # es @ fs))"
    by simp
qed

lemma checkScaleDown_each:
  assumes "restore_reads req r c src pre" "RPhase r = RestorePhaseScaleDown"
  shows "traces (checkScaleDown S r c src) (\<lambda>_. each (restore_write req) pre)"
proof -
  have ev: "phase_evidence r (pre @ es) RestorePhaseRestoring"
    if "\<forall>i\<in>{0..<replicas_of c}. launched r c src i es" for es
    using assms(1) that by (auto simp: phase_evidence_def restore_reads_def intro!: exI [of _ c] exI [of _ src])
  have after: "launched r c src i (EvGet k x # es @ fs)" if "launched r c src i es" for i k x es fs
    using that launched_append [of r c src i "[EvGet k x]" "es @ fs"] by simp
  show ?thesis
    unfolding checkScaleDown_def sts_key_def [symmetric] Let_def
  proof (intro trace_intro, goal_cases)
    case (3 g st)
    show ?case
      unfolding 3(1) map_sum.simps
      by (rule create_jobs_each [OF assms 3(2)], intro trace_intro)
        (use assms in \<open>auto intro!: restore_write_status ev after simp: restore_step_simps\<close>)
  qed auto
qed

lemma checkRestoreJob_each:
  assumes "restore_reads req r c src pre" "RPhase r = RestorePhaseRestoring"
  shows "traces (checkRestoreJob S r c) (\<lambda>_. each (restore_write req) pre)"
  unfolding checkRestoreJob_def
proof (rule traces_bind [OF traces_poll_jobs])
  fix q es
  assume q: "polled r (ords_up 0 (replicas_of c)) True False q es"
  have gets: "each (restore_write req) pre es"
    using q unfolding polled_def by (auto intro: each_list_all)
  have failed: "phase_evidence r (pre @ es @ fs) RestorePhaseFailed" if "q = Inr (d, True)" for d fs
    using q that assms(1) by (fastforce simp: polled_def phase_evidence_def restore_reads_def)
  have up: "traces (handleScaleUp S r c) (\<lambda>_ fs. each (restore_write req) (pre @ es) fs)" if "q = Inr (True, False)"
    by (rule handleScaleUp_each [OF assms]) (use q that in \<open>unfold polled_def set_ords, blast\<close>)
  show "traces (case q of Inl e \<Rightarrow> ret (0, Some e)
     | Inr (allDone, anyFailed) \<Rightarrow>
         if anyFailed then do {
           RecordEvent ''Warning'' ''RestoreFailed'' ''One or more restore jobs failed'';
           setRestorePhase S r RestorePhaseFailed ''RestoreFailed'' ''Restore job failed'';
           ret (0, None) }
         else if allDone then handleScaleUp S r c
         else ret (10 * second, None)) (\<lambda>b fs. each (restore_write req) pre (es @ fs))"
    using gets failed up assms
    by (cases q) (auto intro!: trace_intro restore_write_status simp: restore_step_simps)
qed

lemma restore_dispatch_each:
  assumes "restore_reads req r c src pre"
  shows "traces (restore_dispatch S r c src) (\<lambda>_. each (restore_write req) pre)"
  using handleScaleDown_each [OF assms] checkScaleDown_each [OF assms] checkRestoreJob_each [OF assms]
  by (cases "RPhase r") (auto simp: restore_dispatch_def intro!: trace_intro)

lemma traces_resolveS3Source:
  "traces (resolveS3Source S r) (\<lambda>a es.
     (\<forall>e. a = Inl e \<longrightarrow> (\<exists>e'. es = [EvGet (backup_key r) (Inl e')])) \<and>
     (\<forall>src. a = Inr src \<longrightarrow> source_read r es src) \<and> list_all (\<lambda>e. \<exists>k x. e = EvGet k x) es)"
  unfolding resolveS3Source_def backup_key_def [symmetric]
  by (intro trace_intro) (auto simp: source_read_def)

lemma source_read_prefix: "source_read r es src \<Longrightarrow> source_read r (pre @ es) src"
  by (auto simp: source_read_def)

lemma RestoreReconcile_each: "traces (RestoreReconcile S req) (\<lambda>_. each (restore_write req) [])"
  unfolding RestoreReconcile_def cluster_key_def [symmetric]
proof (intro trace_intro, goal_cases)
  case (4 g r h e cs x)
  then show ?case
    by (auto simp: restore_write_def restore_step_simps phase_evidence_def intro!: exI [of _ r])
next
  case (5 g r h c)
  let ?pre = "[EvGet req (Inr (KRestore r)), EvGet (cluster_key r) (Inr (KCluster c))]"
  show ?case
    unfolding 5(1,3) map_sum.simps each.simps append_Nil append_Cons
  proof (intro traces_bind [OF traces_resolveS3Source] conjI, goal_cases)
    case (1 a es)
    have gets: "each (restore_write req) ?pre es"
      using 1 by (auto intro: each_list_all)
    show ?case
    proof (cases a)
      case (Inl e)
      with 1 obtain e' where "es = [EvGet (backup_key r) (Inl e')]" by blast
      then show ?thesis
        using 5(2) Inl by (auto intro!: trace_intro exI [of _ r] simp: restore_write_def restore_step_simps phase_evidence_def)
    next
      case (Inr src)
      with 1 have "restore_reads req r c src (?pre @ es)"
        using source_read_prefix [of r es src ?pre] by (auto simp: restore_reads_def)
      from restore_dispatch_each [OF this] gets Inr show ?thesis by simp
    qed
  qed
qed (auto simp: restore_write_def)

section \<open>Progress\<close>

text \<open>
  The API server as a restore relies on it: stores of its kinds that do not disturb each other, a
  clock and a condition helper that change no object, and owner references that can be set.
\<close>

locale restore_store =
  restores: object_store "api_restore S" rs RMeta + clusters: object_store "api_cluster S" cl Meta +
  sets: object_store "api_sts S" st Sts_Meta + jobs: object_store "api_job S" jb Job_Meta +
  backups: object_store "api_backup S" bk BMeta
  for S :: "'w sys" and rs cl st jb bk +
  assumes frame_status: "k_status (api_restore S) r w = (x, w') \<Longrightarrow> cl w' = cl w \<and> st w' = st w \<and> jb w' = jb w"
    and frame_update: "k_update (api_sts S) t w = (y, w') \<Longrightarrow> rs w' = rs w \<and> cl w' = cl w \<and> jb w' = jb w"
    and frame_create: "k_create (api_job S) j w = (z, w') \<Longrightarrow> rs w' = rs w \<and> cl w' = cl w \<and> st w' = st w"
    and frame_now: "sys_now S w = (n, w') \<Longrightarrow> rs w' = rs w \<and> cl w' = cl w \<and> st w' = st w \<and> jb w' = jb w"
    and frame_cond: "set_condition S cs cond w = (cs', w') \<Longrightarrow>
      rs w' = rs w \<and> cl w' = cl w \<and> st w' = st w \<and> jb w' = jb w"
    and owner_set: "\<exists>m'. set_owner S owner m = Inr m' \<and> key_of m' = key_of m"
begin

lemma run_Now:
  obtains now t where "run_state (Now S) s = (now, t)" "rs (ext t) = rs (ext s)" "cl (ext t) = cl (ext s)"
    "st (ext t) = st (ext s)" "jb (ext t) = jb (ext s)"
  using frame_now by (cases "sys_now S (ext s)") (auto simp: Now_def call_def)

lemma run_SetStatusCondition:
  obtains cs' t where "run_state (SetStatusCondition S cs cond) s = (cs', t)" "rs (ext t) = rs (ext s)"
    "cl (ext t) = cl (ext s)" "st (ext t) = st (ext s)" "jb (ext t) = jb (ext s)"
  using frame_cond by (cases "set_condition S cs cond (ext s)") (auto simp: SetStatusCondition_def call_def)

lemma run_setRestorePhase:
  assumes "rs (ext s) (key_of (RMeta r)) \<noteq> None"
  obtains r' t where "run_state (setRestorePhase S r p reason msg) s = ((), t)"
    "rs (ext t) = (rs (ext s))(key_of (RMeta r) \<mapsto> r')" "RPhase r' = p"
    "cl (ext t) = cl (ext s)" "st (ext t) = st (ext s)" "jb (ext t) = jb (ext s)"
proof -
  obtain now t1 where now: "run_state (Now S) s = (now, t1)" "rs (ext t1) = rs (ext s)" "cl (ext t1) = cl (ext s)"
    "st (ext t1) = st (ext s)" "jb (ext t1) = jb (ext s)" by (rule run_Now)
  let ?cond = "mk_cond (restore_phase_text p) ConditionTrue reason msg (Some now) 0"
  obtain cs t2 where cs: "run_state (SetStatusCondition S (RStat_Conditions (RStatus r)) ?cond) t1 = (cs, t2)"
    "rs (ext t2) = rs (ext t1)" "cl (ext t2) = cl (ext t1)" "st (ext t2) = st (ext t1)" "jb (ext t2) = jb (ext t1)"
    by (rule run_SetStatusCondition)
  let ?r = "put_rstatus (\<lambda>st. st\<lparr> RStat_Phase := p, RStat_Conditions := cs \<rparr>) r"
  have "rs (ext t2) (key_of (RMeta ?r)) \<noteq> None" using assms now cs by simp
  then obtain t where t: "run_state (StatusUpdate KRestore (api_restore S) ?r) t2 = (Inr ?r, t)"
    "rs (ext t) = (rs (ext t2))(key_of (RMeta ?r) \<mapsto> ?r)" "ext t = snd (k_status (api_restore S) ?r (ext t2))"
    by (rule restores.run_StatusUpdate)
  have "run_state (setRestorePhase S r p reason msg) s = ((), t)"
    using now(1) cs(1) t(1) by (simp add: setRestorePhase_def)
  moreover have "cl (ext t) = cl (ext t2) \<and> st (ext t) = st (ext t2) \<and> jb (ext t) = jb (ext t2)"
    using frame_status t(3) by (metis prod.collapse)
  ultimately show ?thesis using that [of t ?r] t(2) now cs by simp
qed

lemma run_scale:
  assumes "rs (ext s) (key_of (RMeta r)) \<noteq> None" "st (ext s) (sts_key c) = Some t0" "key_of (Sts_Meta t0) = sts_key c"
  obtains t1 t2 where "run_state (Get KSts (api_sts S) (sts_key c)) s = (Inr t0, t1)"
    "run_state (Update KSts (api_sts S) (t0\<lparr> Sts_Replicas := Some n \<rparr>)) t1 = (Inr (t0\<lparr> Sts_Replicas := Some n \<rparr>), t2)"
    "rs (ext t2) = rs (ext s)" "st (ext t2) (sts_key c) = Some (t0\<lparr> Sts_Replicas := Some n \<rparr>)"
proof -
  obtain t1 where t1: "run_state (Get KSts (api_sts S) (sts_key c)) s = (Inr t0, t1)" "ext t1 = ext s"
    by (rule sets.run_Get_found [OF assms(2)])
  let ?t = "t0\<lparr> Sts_Replicas := Some n \<rparr>"
  have "st (ext t1) (key_of (Sts_Meta ?t)) \<noteq> None" using assms t1 by simp
  then obtain t2 where t2: "run_state (Update KSts (api_sts S) ?t) t1 = (Inr ?t, t2)"
    "st (ext t2) = (st (ext t1))(key_of (Sts_Meta ?t) \<mapsto> ?t)" "ext t2 = snd (k_update (api_sts S) ?t (ext t1))"
    by (rule sets.run_Update)
  have "rs (ext t2) = rs (ext t1)" using frame_update t2(3) by (metis prod.collapse)
  then show ?thesis using that t1 t2 assms(3) by simp
qed

text \<open>Both ends of a restore: scale the StatefulSet, then record the phase.\<close>

lemma handleScaleDown_progress:
  assumes "rs (ext s) (key_of (RMeta r)) \<noteq> None" "st (ext s) (sts_key c) = Some t0" "key_of (Sts_Meta t0) = sts_key c"
  obtains r' t where "run_state (handleScaleDown S r c) s = ((5 * second, None), t)"
    "rs (ext t) (key_of (RMeta r)) = Some r'" "RPhase r' = RestorePhaseScaleDown"
    "st (ext t) (sts_key c) = Some (t0\<lparr> Sts_Replicas := Some 0 \<rparr>)"
proof -
  obtain t1 t2 where sc: "run_state (Get KSts (api_sts S) (sts_key c)) s = (Inr t0, t1)"
    "run_state (Update KSts (api_sts S) (t0\<lparr> Sts_Replicas := Some 0 \<rparr>)) t1 = (Inr (t0\<lparr> Sts_Replicas := Some 0 \<rparr>), t2)"
    "rs (ext t2) = rs (ext s)" "st (ext t2) (sts_key c) = Some (t0\<lparr> Sts_Replicas := Some 0 \<rparr>)"
    by (rule run_scale [OF assms])
  obtain now t3 where now: "run_state (Now S) t2 = (now, t3)" "rs (ext t3) = rs (ext t2)" "st (ext t3) = st (ext t2)"
    by (rule run_Now)
  let ?r = "put_rstatus (\<lambda>st. st\<lparr> RStat_StartTime := Some now \<rparr>) r"
  let ?t4 = "t3\<lparr> log := log t3 @ [EvRecord ''Normal'' ''ScalingDown'' ''Scaling cluster to 0 for restore''] \<rparr>"
  have "rs (ext ?t4) (key_of (RMeta ?r)) \<noteq> None" using assms(1) sc(3) now(2) by simp
  then obtain r' t where t: "run_state (setRestorePhase S ?r RestorePhaseScaleDown ''ScalingDown'' ''Scaling StatefulSet to 0'') ?t4 = ((), t)"
    "rs (ext t) = (rs (ext ?t4))(key_of (RMeta ?r) \<mapsto> r')" "RPhase r' = RestorePhaseScaleDown" "st (ext t) = st (ext ?t4)"
    by (rule run_setRestorePhase)
  show ?thesis
    by (rule that [of t r'])
      (use sc now t in \<open>simp_all add: handleScaleDown_def sts_key_def RecordEvent_def emit_def\<close>)
qed

lemma handleScaleUp_progress:
  assumes "rs (ext s) (key_of (RMeta r)) \<noteq> None" "st (ext s) (sts_key c) = Some t0" "key_of (Sts_Meta t0) = sts_key c"
  obtains r' t where "run_state (handleScaleUp S r c) s = ((0, None), t)"
    "rs (ext t) (key_of (RMeta r)) = Some r'" "RPhase r' = RestorePhaseCompleted"
    "st (ext t) (sts_key c) = Some (t0\<lparr> Sts_Replicas := Some (replicas_of c) \<rparr>)"
proof -
  let ?n = "replicas_of c" and ?msg = "''Restore completed, cluster scaling back up''"
  obtain t1 t2 where sc: "run_state (Get KSts (api_sts S) (sts_key c)) s = (Inr t0, t1)"
    "run_state (Update KSts (api_sts S) (t0\<lparr> Sts_Replicas := Some ?n \<rparr>)) t1 = (Inr (t0\<lparr> Sts_Replicas := Some ?n \<rparr>), t2)"
    "rs (ext t2) = rs (ext s)" "st (ext t2) (sts_key c) = Some (t0\<lparr> Sts_Replicas := Some ?n \<rparr>)"
    by (rule run_scale [OF assms])
  obtain now t3 where now: "run_state (Now S) t2 = (now, t3)" "rs (ext t3) = rs (ext t2)" "st (ext t3) = st (ext t2)"
    by (rule run_Now)
  let ?r = "put_rstatus (\<lambda>st. st\<lparr> RStat_CompletionTime := Some now \<rparr>) r"
  let ?t4 = "t3\<lparr> log := log t3 @ [EvRecord ''Normal'' ''RestoreCompleted'' ?msg] \<rparr>"
  have "rs (ext ?t4) (key_of (RMeta ?r)) \<noteq> None" using assms(1) sc(3) now(2) by simp
  then obtain r' t where t: "run_state (setRestorePhase S ?r RestorePhaseCompleted ''RestoreComplete'' ?msg) ?t4 = ((), t)"
    "rs (ext t) = (rs (ext ?t4))(key_of (RMeta ?r) \<mapsto> r')" "RPhase r' = RestorePhaseCompleted" "st (ext t) = st (ext ?t4)"
    by (rule run_setRestorePhase)
  show ?thesis
    by (rule that [of t r'])
      (use sc now t in \<open>simp_all add: handleScaleUp_def sts_key_def RecordEvent_def emit_def\<close>)
qed

lemma run_create_restore_job:
  obtains t where "run_state (create_restore_job S r c src i) s = (Inr (), t)"
    "rs (ext t) = rs (ext s)" "st (ext t) = st (ext s)" "cl (ext t) = cl (ext s)"
    "jb (ext t) (restore_job_key r i) \<noteq> None" "\<And>k. jb (ext s) k \<noteq> None \<Longrightarrow> jb (ext t) k \<noteq> None"
proof -
  let ?job = "buildRestoreJob r c src i"
  obtain m where m: "set_owner S (RMeta r) (Job_Meta ?job) = Inr m" "key_of m = key_of (Job_Meta ?job)"
    using owner_set by blast
  let ?j = "?job\<lparr> Job_Meta := m \<rparr>"
  have key: "key_of (Job_Meta ?j) = restore_job_key r i"
    using m(2) by (simp add: key_of_def restore_job_key_def buildRestoreJob_def new_meta_def)
  show ?thesis
  proof (cases "jb (ext s) (key_of (Job_Meta ?j)) = None")
    case True
    then obtain t where t: "run_state (Create KJob (api_job S) ?j) s = (Inr ?j, t)"
      "jb (ext t) = (jb (ext s))(key_of (Job_Meta ?j) \<mapsto> ?j)" "ext t = snd (k_create (api_job S) ?j (ext s))"
      by (rule jobs.run_Create_new)
    have "rs (ext t) = rs (ext s) \<and> cl (ext t) = cl (ext s) \<and> st (ext t) = st (ext s)"
      using frame_create t(3) by (metis prod.collapse)
    with t m key show ?thesis by (intro that [of t]) (simp_all add: create_restore_job_def)
  next
    case False
    then obtain e t where t: "run_state (Create KJob (api_job S) ?j) s = (Inl e, t)" "IsAlreadyExists e" "ext t = ext s"
      by (rule jobs.run_Create_taken)
    with m key False show ?thesis by (intro that [of t]) (simp_all add: create_restore_job_def)
  qed
qed

lemma run_create_jobs:
  "\<exists>t. run_state (forErr is (create_restore_job S r c src)) s = (Inr (), t) \<and>
     rs (ext t) = rs (ext s) \<and> st (ext t) = st (ext s) \<and>
     (\<forall>i\<in>set is. jb (ext t) (restore_job_key r i) \<noteq> None) \<and> (\<forall>k. jb (ext s) k \<noteq> None \<longrightarrow> jb (ext t) k \<noteq> None)"
proof (induction "is" arbitrary: s)
  case (Cons i "is")
  obtain u where u: "run_state (create_restore_job S r c src i) s = (Inr (), u)"
    "rs (ext u) = rs (ext s)" "st (ext u) = st (ext s)"
    "jb (ext u) (restore_job_key r i) \<noteq> None" "\<And>k. jb (ext s) k \<noteq> None \<Longrightarrow> jb (ext u) k \<noteq> None"
    using run_create_restore_job [of r c src i s] by metis
  obtain t where t: "run_state (forErr is (create_restore_job S r c src)) u = (Inr (), t)"
    "rs (ext t) = rs (ext u)" "st (ext t) = st (ext u)"
    "\<forall>i\<in>set is. jb (ext t) (restore_job_key r i) \<noteq> None" "\<forall>k. jb (ext u) k \<noteq> None \<longrightarrow> jb (ext t) k \<noteq> None"
    using Cons [of u] by blast
  have "run_state (forErr (i # is) (create_restore_job S r c src)) s = (Inr (), t)" using u(1) t(1) by simp
  moreover have "\<forall>i'\<in>set (i # is). jb (ext t) (restore_job_key r i') \<noteq> None"
    using t(4) t(5) u(4) by (metis set_ConsD)
  moreover have "\<forall>k. jb (ext s) k \<noteq> None \<longrightarrow> jb (ext t) k \<noteq> None" using u(5) t(5) by blast
  ultimately show ?case using t(2,3) u(2,3) by (intro exI [of _ t]) simp
qed simp

lemma checkScaleDown_progress:
  assumes "rs (ext s) (key_of (RMeta r)) \<noteq> None" "st (ext s) (sts_key c) = Some t0" "StsS_ReadyReplicas t0 \<le> 0"
  obtains r' t where "run_state (checkScaleDown S r c src) s = ((10 * second, None), t)"
    "rs (ext t) (key_of (RMeta r)) = Some r'" "RPhase r' = RestorePhaseRestoring"
    "\<forall>i\<in>{0..<replicas_of c}. jb (ext t) (restore_job_key r i) \<noteq> None"
proof -
  let ?n = "replicas_of c"
  obtain t1 where t1: "run_state (Get KSts (api_sts S) (sts_key c)) s = (Inr t0, t1)" "ext t1 = ext s"
    by (rule sets.run_Get_found [OF assms(2)])
  obtain t2 where t2: "run_state (forErr (ords_up 0 ?n) (create_restore_job S r c src)) t1 = (Inr (), t2)"
    "rs (ext t2) = rs (ext t1)" "\<forall>i\<in>set (ords_up 0 ?n). jb (ext t2) (restore_job_key r i) \<noteq> None"
    using run_create_jobs by blast
  let ?r = "put_rstatus (\<lambda>st. st\<lparr> RStat_RestoredPVCs := ?n \<rparr>) r"
  let ?t3 = "t2\<lparr> log := log t2 @ [EvRecord ''Normal'' ''RestoreStarted'' (''Launched '' @ dec ?n @ '' restore jobs'')] \<rparr>"
  have "rs (ext ?t3) (key_of (RMeta ?r)) \<noteq> None" using assms(1) t1 t2 by simp
  then obtain r' t where t: "run_state (setRestorePhase S ?r RestorePhaseRestoring ''RestoreJobsCreated''
      (''Created '' @ dec ?n @ '' restore jobs'')) ?t3 = ((), t)"
    "rs (ext t) = (rs (ext ?t3))(key_of (RMeta ?r) \<mapsto> r')" "RPhase r' = RestorePhaseRestoring" "jb (ext t) = jb (ext ?t3)"
    by (rule run_setRestorePhase)
  show ?thesis
    by (rule that [of t r'])
      (use assms(3) t1 t2 t in \<open>simp_all add: checkScaleDown_def sts_key_def RecordEvent_def emit_def Let_def\<close>)
qed

lemma run_poll_jobs:
  assumes "\<forall>i\<in>set is. \<exists>j. jb (ext s) (restore_job_key r i) = Some j \<and> job_succeeded j"
  shows "\<exists>t. run_state (poll_jobs S r is True False) s = (Inr (True, False), t) \<and> ext t = ext s"
  using assms
proof (induction "is" arbitrary: s)
  case (Cons i "is")
  then obtain j where j: "jb (ext s) (restore_job_key r i) = Some j" "job_succeeded j" by auto
  obtain u where u: "run_state (Get KJob (api_job S) (restore_job_key r i)) s = (Inr j, u)" "ext u = ext s"
    by (rule jobs.run_Get_found [OF j(1)])
  obtain t where "run_state (poll_jobs S r is True False) u = (Inr (True, False), t)" "ext t = ext u"
    using Cons.IH [of u] Cons.prems u(2) by auto
  with u [unfolded restore_job_key_def] j(2) show ?case by (auto simp: job_succeeded_def)
qed simp

lemma checkRestoreJob_progress:
  assumes "rs (ext s) (key_of (RMeta r)) \<noteq> None" "st (ext s) (sts_key c) = Some t0" "key_of (Sts_Meta t0) = sts_key c"
    and "\<forall>i\<in>{0..<replicas_of c}. \<exists>j. jb (ext s) (restore_job_key r i) = Some j \<and> job_succeeded j"
  obtains r' t where "run_state (checkRestoreJob S r c) s = ((0, None), t)"
    "rs (ext t) (key_of (RMeta r)) = Some r'" "RPhase r' = RestorePhaseCompleted"
    "st (ext t) (sts_key c) = Some (t0\<lparr> Sts_Replicas := Some (replicas_of c) \<rparr>)"
proof -
  obtain u where u: "run_state (poll_jobs S r (ords_up 0 (replicas_of c)) True False) s = (Inr (True, False), u)"
    "ext u = ext s"
    using run_poll_jobs [of "ords_up 0 (replicas_of c)" s r] assms(4) by auto
  with assms obtain r' t where t: "run_state (handleScaleUp S r c) u = ((0, None), t)"
    "rs (ext t) (key_of (RMeta r)) = Some r'" "RPhase r' = RestorePhaseCompleted"
    "st (ext t) (sts_key c) = Some (t0\<lparr> Sts_Replicas := Some (replicas_of c) \<rparr>)"
    using handleScaleUp_progress [of u r c t0] by metis
  show ?thesis by (rule that [of t r']) (use u t in \<open>simp_all add: checkRestoreJob_def\<close>)
qed

text \<open>Until the dispatch a pass only reads.\<close>

lemma run_to_dispatch:
  assumes "rs (ext s) req = Some r" "RPhase r \<noteq> RestorePhaseCompleted" "RPhase r \<noteq> RestorePhaseFailed"
    and "cl (ext s) (cluster_key r) = Some c"
    and "RSpec_Source (RSpec r) = None \<longrightarrow> bk (ext s) (backup_key r) \<noteq> None"
  obtains src u where "run_state (RestoreReconcile S req) s = run_state (restore_dispatch S r c src) u" "ext u = ext s"
proof -
  obtain t1 where t1: "run_state (Get KRestore (api_restore S) req) s = (Inr r, t1)" "ext t1 = ext s"
    by (rule restores.run_Get_found [OF assms(1)])
  obtain t2 where t2: "run_state (Get KCluster (api_cluster S) (cluster_key r)) t1 = (Inr c, t2)" "ext t2 = ext t1"
    using clusters.run_Get_found [of t1 "cluster_key r" c KCluster] assms(4) t1(2) by metis
  have "\<exists>src u. run_state (resolveS3Source S r) t2 = (Inr src, u) \<and> ext u = ext t2"
  proof (cases "RSpec_Source (RSpec r)")
    case None
    with assms(5) t1 t2 obtain b where "bk (ext t2) (backup_key r) = Some b" by auto
    then obtain u where "run_state (Get KBackup (api_backup S) (backup_key r)) t2 = (Inr b, u)" "ext u = ext t2"
      by (rule backups.run_Get_found)
    with None show ?thesis by (auto simp: resolveS3Source_def backup_key_def [symmetric] Let_def)
  qed (auto simp: resolveS3Source_def)
  then obtain src u where u: "run_state (resolveS3Source S r) t2 = (Inr src, u)" "ext u = ext t2" by blast
  show ?thesis
    by (rule that [of src u])
      (use assms(2,3) t1 t2 u in \<open>simp_all add: RestoreReconcile_def cluster_key_def [symmetric]\<close>)
qed

end

interpretation sim_restore: restore_store "sim_sys sv" "\<lambda>w. map_of (sim_restores w)" "\<lambda>w. map_of (sim_clusters w)"
  "\<lambda>w. map_of (sim_sts w)" "\<lambda>w. map_of (sim_jobs w)" "\<lambda>w. map_of (sim_backups w)" for sv
  by unfold_locales (auto simp: sim_sys_def mem_api_def Let_def key_of_def split: if_splits)

section \<open>Properties\<close>

text \<open>
  C5. Every write of a restore pass is justified by what the pass read before it, whatever the
  API answers. The status moves one step of the phase machine \<^const>\<open>restore_step\<close>, from the phase
  read and never from a terminal one, leaving metadata and spec alone; \<^verbatim>\<open>ScalingDown\<close> is recorded
  after the StatefulSet was set to zero, \<^verbatim>\<open>Restoring\<close> after a Job was created or existed for each
  volume, \<^verbatim>\<open>Completed\<close> after every Job was read finished and not failed and the StatefulSet was
  scaled back, \<^verbatim>\<open>Failed\<close> only on a missing cluster or backup or a failed Job. A Job is created only
  once no replica is ready. Nothing is deleted and nothing else is written.
\<close>

theorem RestoreReconcile_justified:
  "\<exists>es. log (snd (run_state (RestoreReconcile S req) s)) = log s @ es \<and> each (restore_write req) [] es"
  using RestoreReconcile_each [of S req] unfolding traces_def by blast

definition after_pass :: "semver \<Rightarrow> nn \<Rightarrow> sim \<Rightarrow> sim" where
  "after_pass sv req w = ext (snd (run_state (RestoreReconcile (sim_sys sv) req) (start w)))"

definition phase_stored :: "sim \<Rightarrow> nn \<Rightarrow> RestorePhase option" where
  "phase_stored w req = map_option RPhase (map_of (sim_restores w) req)"

text \<open>A restore with its cluster, StatefulSet and source stored.\<close>

definition restore_ready :: "sim \<Rightarrow> HyperbytedbRestore \<Rightarrow> HyperbytedbCluster \<Rightarrow> sts \<Rightarrow> bool" where
  "restore_ready w r c t \<longleftrightarrow>
     map_of (sim_restores w) (key_of (RMeta r)) = Some r \<and> map_of (sim_clusters w) (cluster_key r) = Some c \<and>
     map_of (sim_sts w) (sts_key c) = Some t \<and> key_of (Sts_Meta t) = sts_key c \<and>
     (RSpec_Source (RSpec r) \<noteq> None \<or> map_of (sim_backups w) (backup_key r) \<noteq> None)"

lemma after_pass_dispatch:
  assumes "restore_ready w r c t" "RPhase r \<noteq> RestorePhaseCompleted" "RPhase r \<noteq> RestorePhaseFailed"
  obtains src u where
    "after_pass sv (key_of (RMeta r)) w = ext (snd (run_state (restore_dispatch (sim_sys sv) r c src) u))" "ext u = w"
proof -
  have "ext (start w) = w" by (simp add: start_def)
  then show ?thesis
    using sim_restore.run_to_dispatch [of "start w" "key_of (RMeta r)" r c sv] assms that
    unfolding after_pass_def restore_ready_def by metis
qed

lemma pass_scale_down:
  assumes "restore_ready w r c t" "RPhase r \<in> {RestorePhaseUnset, RestorePhasePending}"
  shows "phase_stored (after_pass sv (key_of (RMeta r)) w) (key_of (RMeta r)) = Some RestorePhaseScaleDown \<and>
      map_of (sim_sts (after_pass sv (key_of (RMeta r)) w)) (sts_key c) = Some (t\<lparr> Sts_Replicas := Some 0 \<rparr>)"
proof -
  obtain src u where u: "after_pass sv (key_of (RMeta r)) w = ext (snd (run_state (restore_dispatch (sim_sys sv) r c src) u))"
    "ext u = w" by (rule after_pass_dispatch [OF assms(1)]) (use assms(2) in auto)
  obtain r' v where "run_state (handleScaleDown (sim_sys sv) r c) u = ((5 * second, None), v)"
    "map_of (sim_restores (ext v)) (key_of (RMeta r)) = Some r'" "RPhase r' = RestorePhaseScaleDown"
    "map_of (sim_sts (ext v)) (sts_key c) = Some (t\<lparr> Sts_Replicas := Some 0 \<rparr>)"
    using sim_restore.handleScaleDown_progress [of u r c t sv] assms(1) u(2) unfolding restore_ready_def by (metis option.distinct(1))
  with u assms(2) show ?thesis by (auto simp: phase_stored_def restore_dispatch_def)
qed

lemma pass_launch:
  assumes "restore_ready w r c t" "RPhase r = RestorePhaseScaleDown" "StsS_ReadyReplicas t \<le> 0"
  shows "phase_stored (after_pass sv (key_of (RMeta r)) w) (key_of (RMeta r)) = Some RestorePhaseRestoring \<and>
      (\<forall>i\<in>{0..<replicas_of c}. map_of (sim_jobs (after_pass sv (key_of (RMeta r)) w)) (restore_job_key r i) \<noteq> None)"
proof -
  obtain src u where u: "after_pass sv (key_of (RMeta r)) w = ext (snd (run_state (restore_dispatch (sim_sys sv) r c src) u))"
    "ext u = w" by (rule after_pass_dispatch [OF assms(1)]) (use assms(2) in auto)
  obtain r' v where "run_state (checkScaleDown (sim_sys sv) r c src) u = ((10 * second, None), v)"
    "map_of (sim_restores (ext v)) (key_of (RMeta r)) = Some r'" "RPhase r' = RestorePhaseRestoring"
    "\<forall>i\<in>{0..<replicas_of c}. map_of (sim_jobs (ext v)) (restore_job_key r i) \<noteq> None"
    using sim_restore.checkScaleDown_progress [of u r c t sv src] assms(1,3) u(2) unfolding restore_ready_def by (metis option.distinct(1))
  with u assms(2) show ?thesis by (simp add: phase_stored_def restore_dispatch_def)
qed

lemma pass_complete:
  assumes "restore_ready w r c t" "RPhase r = RestorePhaseRestoring"
    and "\<forall>i\<in>{0..<replicas_of c}. \<exists>j. map_of (sim_jobs w) (restore_job_key r i) = Some j \<and> job_succeeded j"
  shows "phase_stored (after_pass sv (key_of (RMeta r)) w) (key_of (RMeta r)) = Some RestorePhaseCompleted \<and>
      map_of (sim_sts (after_pass sv (key_of (RMeta r)) w)) (sts_key c) = Some (t\<lparr> Sts_Replicas := Some (replicas_of c) \<rparr>)"
proof -
  obtain src u where u: "after_pass sv (key_of (RMeta r)) w = ext (snd (run_state (restore_dispatch (sim_sys sv) r c src) u))"
    "ext u = w" by (rule after_pass_dispatch [OF assms(1)]) (use assms(2) in auto)
  obtain r' v where "run_state (checkRestoreJob (sim_sys sv) r c) u = ((0, None), v)"
    "map_of (sim_restores (ext v)) (key_of (RMeta r)) = Some r'" "RPhase r' = RestorePhaseCompleted"
    "map_of (sim_sts (ext v)) (sts_key c) = Some (t\<lparr> Sts_Replicas := Some (replicas_of c) \<rparr>)"
    using sim_restore.checkRestoreJob_progress [of u r c t sv] assms(1,3) u(2) unfolding restore_ready_def by (metis option.distinct(1))
  with u assms(2) show ?thesis by (simp add: phase_stored_def restore_dispatch_def)
qed

text \<open>
  C13. Progress of a restore on an API server that stores what is written: the first pass scales
  the StatefulSet to zero, a pass that finds no ready replica leaves a Job for every volume, a
  pass that finds all Jobs finished without failure completes the restore and sets the
  StatefulSet back to the spec's count.
\<close>

theorem restore_progress:
  assumes "restore_ready w r c t"
  shows "(RPhase r \<in> {RestorePhaseUnset, RestorePhasePending} \<longrightarrow>
      phase_stored (after_pass sv (key_of (RMeta r)) w) (key_of (RMeta r)) = Some RestorePhaseScaleDown \<and>
      map_of (sim_sts (after_pass sv (key_of (RMeta r)) w)) (sts_key c) = Some (t\<lparr> Sts_Replicas := Some 0 \<rparr>)) \<and>
    (RPhase r = RestorePhaseScaleDown \<and> StsS_ReadyReplicas t \<le> 0 \<longrightarrow>
      phase_stored (after_pass sv (key_of (RMeta r)) w) (key_of (RMeta r)) = Some RestorePhaseRestoring \<and>
      (\<forall>i\<in>{0..<replicas_of c}.
         map_of (sim_jobs (after_pass sv (key_of (RMeta r)) w)) (restore_job_key r i) \<noteq> None)) \<and>
    (RPhase r = RestorePhaseRestoring \<and>
     (\<forall>i\<in>{0..<replicas_of c}. \<exists>j. map_of (sim_jobs w) (restore_job_key r i) = Some j \<and> job_succeeded j) \<longrightarrow>
      phase_stored (after_pass sv (key_of (RMeta r)) w) (key_of (RMeta r)) = Some RestorePhaseCompleted \<and>
      map_of (sim_sts (after_pass sv (key_of (RMeta r)) w)) (sts_key c)
        = Some (t\<lparr> Sts_Replicas := Some (replicas_of c) \<rparr>))"
  using pass_scale_down [OF assms] pass_launch [OF assms] pass_complete [OF assms] by blast

definition s3_example :: S3BackupSpec where
  "s3_example = \<lparr> S3_Bucket = ''k'', S3_Prefix = ''/db/'', S3_Region = [], S3_Endpoint = [],
     S3_CredentialsSecretName = [] \<rparr>"

definition restore_example :: "RestorePhase \<Rightarrow> HyperbytedbRestore" where
  "restore_example p =
     \<lparr> RMeta = new_meta ''r'' ''p'' Map.empty,
       RSpec = \<lparr> RSpec_ClusterName = ''t'', RSpec_BackupName = ''b'',
                 RSpec_Source = Some s3_example, RSpec_RestoreTimestamp = None \<rparr>,
       RStatus = \<lparr> RStat_Phase = p, RStat_StartTime = None, RStat_CompletionTime = None, RStat_RestoredPVCs = 0,
                   RStat_Conditions = [] \<rparr> \<rparr>"

definition restore_sim :: "RestorePhase \<Rightarrow> sim" where
  "restore_sim p = sim_empty\<lparr>
     sim_restores := [(key_of (RMeta (restore_example p)), restore_example p)],
     sim_clusters := [(nn_of (new_cluster ''t'' ''p'') ''t'', new_cluster ''t'' ''p'')],
     sim_sts := [(nn_of (new_cluster ''t'' ''p'') ''t'', pending_sts)] \<rparr>"

theorem restore_progress_witness:
  "phase_stored (after_pass plain_semver (key_of (RMeta (restore_example RestorePhasePending)))
       (restore_sim RestorePhasePending)) (key_of (RMeta (restore_example RestorePhasePending))) = Some RestorePhaseScaleDown"
proof -
  have "restore_ready (restore_sim RestorePhasePending) (restore_example RestorePhasePending)
      (new_cluster ''t'' ''p'') pending_sts"
    by (simp add: restore_ready_def restore_sim_def restore_example_def cluster_key_def sts_key_def key_of_def
        nn_of_def StatefulSetName_def pending_sts_def new_cluster_def)
  from restore_progress [OF this, of plain_semver] show ?thesis by (simp add: restore_example_def)
qed

text \<open>
  C27. A restore reads where the backup wrote: when the source is a backup, the download of every
  restore Job runs the same client image with the same S3 environment as that backup's upload;
  the Job of an ordinal writes to the volume claim the StatefulSet gives that ordinal, while the
  backup reads the claim of ordinal 0.
\<close>

theorem restore_reads_backup:
  assumes "run_state (resolveS3Source S r) s = (Inr src, t)" "RSpec_Source (RSpec r) = None"
  shows "\<exists>b. log t = log s @ [EvGet (backup_key r) (Inr (KBackup b))] \<and>
     map (\<lambda>k. (C_Image k, C_Env k)) (PS_InitContainers (Job_Pod (buildRestoreJob r c src i)))
       = map (\<lambda>k. (C_Image k, C_Env k)) (PS_Containers (Job_Pod (buildBackupJob b c n))) \<and>
     Vol_Source (hd (PS_Volumes (Job_Pod (buildRestoreJob r c src i)))) = VolClaim (pvc_name c i) False \<and>
     Vol_Source (hd (PS_Volumes (Job_Pod (buildBackupJob b c n)))) = VolClaim (pvc_name c 0) True"
proof -
  have "traces (resolveS3Source S r) (\<lambda>a es. \<forall>src. a = Inr src \<longrightarrow>
      (\<exists>b. es = [EvGet (backup_key r) (Inr (KBackup b))] \<and> src = BSpec_Destination (BSpec b)))"
    unfolding resolveS3Source_def backup_key_def [symmetric] using assms(2) by (intro trace_intro) auto
  from tracesD [OF this assms(1)] obtain b where
    "log t = log s @ [EvGet (backup_key r) (Inr (KBackup b))]" "src = BSpec_Destination (BSpec b)" by metis
  then show ?thesis
    by (auto simp: buildRestoreJob_def buildBackupJob_def job_pod_def s3DownloadInitContainer_def
        s3UploadContainer_def dataVolume_def pvc_name_def StatefulSetName_def plain_container_def)
qed

definition backup_example :: HyperbytedbBackup where
  "backup_example =
     \<lparr> BMeta = new_meta ''b'' ''p'' Map.empty,
       BSpec = \<lparr> BSpec_ClusterName = ''t'', BSpec_Schedule = [],
                 BSpec_Destination = s3_example,
                 BSpec_RetentionDays = 7, BSpec_Databases = [] \<rparr>,
       BStatus = \<lparr> BStat_Phase = BackupPhaseCompleted, BStat_StartTime = None, BStat_CompletionTime = None,
                   BStat_BackupSize = [], BStat_BackupPath = [], BStat_LastCleanupTime = None, BStat_Conditions = [] \<rparr> \<rparr>"

definition from_backup :: HyperbytedbRestore where
  "from_backup = (restore_example RestorePhasePending)
     \<lparr> RSpec := (RSpec (restore_example RestorePhasePending))\<lparr> RSpec_Source := None \<rparr> \<rparr>"

theorem restore_reads_backup_witness:
  "\<exists>src t b. run_state (resolveS3Source (sim_sys plain_semver) from_backup)
       (start (sim_empty\<lparr> sim_backups := [(key_of (BMeta backup_example), backup_example)] \<rparr>)) = (Inr src, t) \<and>
     log t = [EvGet (backup_key from_backup) (Inr (KBackup b))] \<and> S3_Prefix src = ''/db/'' \<and>
     Vol_Source (hd (PS_Volumes (Job_Pod (buildRestoreJob from_backup (new_cluster ''t'' ''p'') src 2))))
       = VolClaim ''data-t-2'' False"
proof -
  let ?w = "sim_empty\<lparr> sim_backups := [(key_of (BMeta backup_example), backup_example)] \<rparr>"
  have "map_of (sim_backups (ext (start ?w))) (backup_key from_backup) = Some backup_example"
    by (simp add: start_def backup_key_def from_backup_def restore_example_def backup_example_def key_of_def)
  then obtain t where "run_state (Get KBackup (api_backup (sim_sys plain_semver)) (backup_key from_backup)) (start ?w)
      = (Inr backup_example, t)" by (rule sim_backups.run_Get_found)
  then obtain src where run: "run_state (resolveS3Source (sim_sys plain_semver) from_backup) (start ?w) = (Inr src, t)"
    "S3_Prefix src = S3_Prefix (BSpec_Destination (BSpec backup_example))"
    by (simp add: resolveS3Source_def backup_key_def Let_def from_backup_def)
  have none: "RSpec_Source (RSpec from_backup) = None" by (simp add: from_backup_def)
  have name: "pvc_name (new_cluster ''t'' ''p'') 2 = ''data-t-2''" by code_simp
  have "S3_Prefix src = ''/db/''" using run(2) by (simp add: backup_example_def s3_example_def)
  with run(1) restore_reads_backup [OF run(1) none, of "new_cluster ''t'' ''p''" 2 "[]"] name
  show ?thesis by (auto simp: start_def)
qed

end
