(* ===== verification/Requeue.thy ===== *)
theory Requeue
  imports Cluster_Controller Backup Restore
begin

text \<open>
  When a pass is followed by another one. A pass returns a delay and an error: controller-runtime
  calls again after the delay, or with back-off after an error, and otherwise not before the object or
  one it owns changes. Shown here is when each controller lets go of an object, and that no pass asks to
  be called again in less than a second.
\<close>

section \<open>What a program returns\<close>

definition returns :: "('a \<Rightarrow> bool) \<Rightarrow> ('s, 'a) state \<Rightarrow> bool" where
  "returns Q m \<longleftrightarrow> (\<forall>s. Q (fst (run_state m s)))"

named_theorems returns_intro \<open>the values a program returns\<close>

lemma returns_return [returns_intro]: "Q a \<Longrightarrow> returns Q (ret a)"
  by (simp add: returns_def)

lemma returns_then:
  assumes "returns P m" "\<And>a. P a \<Longrightarrow> returns Q (f a)"
  shows "returns Q (State_Monad.bind m f)"
  unfolding returns_def
proof
  fix s
  obtain a t where "run_state m s = (a, t)" by (rule runE)
  with assms show "Q (fst (run_state (State_Monad.bind m f) s))" unfolding returns_def by simp (metis fst_conv)
qed

lemma returns_bind [returns_intro]: "(\<And>a. returns Q (f a)) \<Longrightarrow> returns Q (State_Monad.bind m f)"
  by (rule returns_then [where P = "\<lambda>_. True"]) (simp_all add: returns_def)

lemma returns_if [returns_intro]: "(b \<Longrightarrow> returns Q m) \<Longrightarrow> (\<not> b \<Longrightarrow> returns Q n) \<Longrightarrow> returns Q (if b then m else n)"
  by simp

lemma returns_sum [returns_intro]:
  "(\<And>e. returns Q (f e)) \<Longrightarrow> (\<And>a. returns Q (g a)) \<Longrightarrow> returns Q (case r of Inl e \<Rightarrow> f e | Inr a \<Rightarrow> g a)"
  by (cases r) simp_all

lemma returns_option [returns_intro]:
  "returns Q m \<Longrightarrow> (\<And>a. returns Q (g a)) \<Longrightarrow> returns Q (case r of None \<Rightarrow> m | Some a \<Rightarrow> g a)"
  by (cases r) simp_all

lemma returns_prod [returns_intro]: "(\<And>a b. returns Q (f a b)) \<Longrightarrow> returns Q (case r of (a, b) \<Rightarrow> f a b)"
  by (cases r) simp

lemma returns_let [returns_intro]: "returns Q (f a) \<Longrightarrow> returns Q (let x = a in f x)"
  by simp

lemma traces_returns: "emits (\<lambda>_. True) m \<Longrightarrow> returns Q m \<Longrightarrow> traces m (\<lambda>a _. Q a)"
  by (auto simp: traces_def emits_def returns_def)

section \<open>The cluster controller\<close>

definition asks_again :: "int \<times> err option \<Rightarrow> bool" where
  "asks_again x \<longleftrightarrow> snd x \<noteq> None \<or> second \<le> fst x"

lemma asks_again_simps [simp]: "asks_again (d, Some e)" "asks_again (d, None) \<longleftrightarrow> second \<le> d"
  by (simp_all add: asks_again_def)

text \<open>A phase of the rolling restart waits at least a second, when it does not let the pass go on.\<close>

definition waits_a_second :: "HyperbytedbCluster \<times> int option result \<Rightarrow> bool" where
  "waits_a_second x \<longleftrightarrow> (\<forall>d. snd x = Inr (Some d) \<longrightarrow> second \<le> d)"

lemma waits_simps [simp]:
  "waits_a_second (c, Inl e)" "waits_a_second (c, Inr None)" "waits_a_second (c, Inr (Some d)) \<longleftrightarrow> second \<le> d"
  by (simp_all add: waits_a_second_def)

lemma second_pos: "0 < second"
  by (simp add: second_def)

lemma waits_commit: "waits_a_second (c, Inr a) \<Longrightarrow> returns waits_a_second (commit S c a)"
  unfolding commit_def by (intro returns_intro) (auto simp: waits_a_second_def)

lemma waits_release: "second \<le> rq \<Longrightarrow> returns waits_a_second (rollingRestartRelease S c st rq)"
  unfolding rollingRestartRelease_def by (intro returns_intro waits_commit) simp_all

lemma waits_phases:
  assumes "second \<le> rq"
  shows "returns waits_a_second (rollingRestartExcluding S tok c st pod upd port rq)"
    "returns waits_a_second (rollingRestartDraining S c st pod rq)"
    "returns waits_a_second (rollingRestartWaitingReady S tok c st pod upd port rq)"
  unfolding rollingRestartExcluding_def excluding_outcome_def rollingRestartDraining_def rollingRestartWaitingReady_def
    Let_def
  by (intro returns_intro waits_commit waits_release; use assms second_pos in simp)+

lemma waits_rolling: "returns waits_a_second (reconcileRollingRestart S tok c sr n)"
proof -
  have rq: "second \<le> 3 * second" by (simp add: second_def)
  have phase: "returns waits_a_second (rolling_phase S tok c st pod upd port)" for c st pod upd port
    unfolding rolling_phase_def Let_def
    by (cases "RR_Phase st") (simp_all add: waits_phases [OF rq] rq returns_return)
  have cleared: "returns waits_a_second (case b of True \<Rightarrow> p | False \<Rightarrow> q)"
    if "returns waits_a_second p" "returns waits_a_second q"
    for b and p q :: "('w, HyperbytedbCluster \<times> int option result) prog"
    using that by (cases b) simp_all
  show ?thesis
    unfolding reconcileRollingRestart_def by (intro returns_intro cleared waits_commit phase) simp_all
qed

lemma again_failed: "returns asks_again (setFailedStatus S c reason e)"
  unfolding setFailedStatus_def by (intro returns_intro) simp

lemma again_rest: "returns asks_again (reconcile_rest S tok c prev n h sr)"
  unfolding reconcile_rest_def by (intro returns_intro) (simp_all add: second_def)

lemma again_workload: "returns asks_again (reconcile_workload S tok c prev n h)"
proof -
  have rolled: "returns asks_again (do {
      (c1, rr) \<leftarrow> reconcileRollingRestart S tok c sr n;
      case rr of
        Inl e \<Rightarrow> setFailedStatus S c1 ''RollingRestartFailed'' e
      | Inr (Some d) \<Rightarrow> ret (d, None)
      | Inr None \<Rightarrow> reconcile_rest S tok c1 prev n h sr })" for sr
    by (rule returns_then [OF waits_rolling])
      (auto simp: waits_a_second_def again_failed again_rest returns_return split: sum.split option.split)
  show ?thesis
    unfolding reconcile_workload_def orFail_def
    by (rule rolled | rule returns_intro again_failed again_rest | simp add: second_def)+
qed

lemma again_cluster: "returns asks_again (reconcile_cluster S c)"
  unfolding reconcile_cluster_def reconcile_from_def reconcile_inputs_def orFail_def Let_def
  by (intro returns_intro again_failed again_workload) (simp_all add: second_def)

section \<open>When a controller lets go\<close>

text \<open>What the first read of a pass showed when a cluster is left alone: it is gone, paused or deleted.\<close>

definition cluster_let_go :: "nn \<Rightarrow> event list \<Rightarrow> bool" where
  "cluster_let_go req es \<longleftrightarrow>
     (\<exists>e rest. es = EvGet req (Inl e) # rest \<and> IsNotFound e) \<or>
     (\<exists>c rest. es = EvGet req (Inr (KCluster c)) # rest \<and>
        (Spec_Paused (Spec c) \<or> Meta_DeletionTimestamp (Meta c) \<noteq> None))"

interpretation any: pass_calls "\<lambda>_. True"
  by unfold_locales simp_all

lemma Reconcile_again: "traces (Reconcile S req) (\<lambda>a es. asks_again a \<or> cluster_let_go req es)"
proof -
  have cluster: "traces (reconcile_cluster S c) (\<lambda>a es. asks_again a \<or> R a es)" for c R
    by (rule traces_weaken [OF traces_returns [OF any.calls_cluster again_cluster]]) simp
  have found: "traces (reconcile_found S c)
      (\<lambda>a es. asks_again a \<or> cluster_let_go req (EvGet req (Inr (KCluster c)) # es))" for c
  proof (cases "Spec_Paused (Spec c) \<or> Meta_DeletionTimestamp (Meta c) \<noteq> None")
    case True
    have "emits (\<lambda>_. True) (reconcile_found S c)"
      unfolding reconcile_found_def Let_def by (intro emits_intro any.calls_cluster) simp_all
    then show ?thesis
      by (rule traces_weaken [OF traces_emits]) (use True in \<open>auto simp: cluster_let_go_def\<close>)
  next
    case False
    then show ?thesis
      unfolding reconcile_found_def Let_def by (intro trace_intro cluster) (auto simp: put_conditions_def)
  qed
  show ?thesis
    unfolding Reconcile_def by (intro trace_intro traces_weaken [OF found]) (auto simp: cluster_let_go_def)
qed

text \<open>
  A backup or restore is let go when it is gone, when it had ended, when a CronJob does the rest, or
  after its end was written to the status. Whether that write was accepted does not matter.
\<close>

definition backup_over :: "HyperbytedbBackup \<Rightarrow> bool" where
  "backup_over b \<longleftrightarrow> BPhase b \<in> {BackupPhaseCompleted, BackupPhaseFailed}"

definition restore_over :: "HyperbytedbRestore \<Rightarrow> bool" where
  "restore_over r \<longleftrightarrow> RPhase r \<in> {RestorePhaseCompleted, RestorePhaseFailed}"

fun ends :: "event \<Rightarrow> bool" where
  "ends (EvStatus (KBackup b) _) = backup_over b"
| "ends (EvStatus (KRestore r) _) = restore_over r"
| "ends _ = False"

definition backup_let_go :: "nn \<Rightarrow> event list \<Rightarrow> bool" where
  "backup_let_go req es \<longleftrightarrow>
     (\<exists>e rest. es = EvGet req (Inl e) # rest \<and> IsNotFound e) \<or>
     (\<exists>b rest. es = EvGet req (Inr (KBackup b)) # rest \<and> (BSpec_Schedule (BSpec b) \<noteq> [] \<or> backup_over b \<or> list_ex ends rest))"

definition restore_let_go :: "nn \<Rightarrow> event list \<Rightarrow> bool" where
  "restore_let_go req es \<longleftrightarrow>
     (\<exists>e rest. es = EvGet req (Inl e) # rest \<and> IsNotFound e) \<or>
     (\<exists>r rest. es = EvGet req (Inr (KRestore r)) # rest \<and> (restore_over r \<or> list_ex ends rest))"

lemma job_again:
  "traces (reconcileJob S b c) (\<lambda>a es. asks_again a \<or> backup_over b \<or> list_ex ends es)"
  unfolding reconcileJob_def start_backup_def backup_finished_def backup_failed_def Let_def
    State_Monad.bind_assoc State_Monad.bind_left_identity
  by (intro trace_intro) (auto simp: backup_over_def second_def)

lemma BackupReconcile_again: "traces (BackupReconcile S req) (\<lambda>a es. asks_again a \<or> backup_let_go req es)"
proof -
  have cron: "traces (reconcileCronJob S b c) (\<lambda>a es. True)" for b c
    unfolding reconcileCronJob_def Let_def by (intro trace_intro) simp_all
  show ?thesis
    unfolding BackupReconcile_def
    by (intro trace_intro traces_weaken [OF job_again] traces_weaken [OF cron])
      (auto simp: backup_let_go_def backup_over_def)
qed

lemma up_again: "traces (handleScaleUp S r c) (\<lambda>a es. asks_again a \<or> list_ex ends es)"
  unfolding handleScaleUp_def by (intro trace_intro) (simp_all add: restore_over_def)

lemma check_again: "traces (checkRestoreJob S r c) (\<lambda>a es. asks_again a \<or> list_ex ends es)"
proof -
  have poll: "emits (\<lambda>_. True) (poll_jobs S r is d f)" for "is" d f
    by (induction "is" arbitrary: d f) (auto intro!: emits_intro)
  show ?thesis
    unfolding checkRestoreJob_def
    by (rule traces_bind [OF traces_emits [OF poll]])
      (auto intro!: trace_intro traces_weaken [OF up_again] simp: restore_over_def second_def split: sum.split)
qed

lemma down_again:
  "traces (handleScaleDown S r c) (\<lambda>a _. asks_again a)" "traces (checkScaleDown S r c src) (\<lambda>a _. asks_again a)"
proof -
  show "traces (handleScaleDown S r c) (\<lambda>a _. asks_again a)"
    unfolding handleScaleDown_def by (intro trace_intro) (simp_all add: second_def)
  have jobs: "emits (\<lambda>_. True) (forErr is (create_restore_job S r c src))" for "is"
    unfolding create_restore_job_def Let_def by (intro emits_intro) simp_all
  show "traces (checkScaleDown S r c src) (\<lambda>a _. asks_again a)"
    unfolding checkScaleDown_def Let_def
    by (intro trace_intro traces_bind [OF traces_emits [OF jobs]]) (simp_all add: second_def)
qed

lemma RestoreReconcile_again: "traces (RestoreReconcile S req) (\<lambda>a es. asks_again a \<or> restore_let_go req es)"
proof -
  have dispatch: "traces (restore_dispatch S r c src) (\<lambda>a es. asks_again a \<or> restore_over r \<or> list_ex ends es)" for r c src
    unfolding restore_dispatch_def
    by (cases "RPhase r")
      (auto intro!: trace_intro traces_weaken [OF check_again] traces_weaken [OF down_again(1)] traces_weaken [OF down_again(2)]
        simp: restore_over_def)
  have source: "emits (\<lambda>_. True) (resolveS3Source S r)" for r
    unfolding resolveS3Source_def Let_def by (intro emits_intro) simp
  show ?thesis
    unfolding RestoreReconcile_def
    by (intro trace_intro traces_bind [OF traces_emits [OF source]] traces_weaken [OF dispatch])
      (auto simp: restore_let_go_def restore_over_def)
qed

section \<open>Properties\<close>

text \<open>
  An API server that refuses the update of a restore's status with a conflict, as it does when the
  restore changed since it was read, and a restore whose only Job has just succeeded.
\<close>

definition refusing_sys :: "sim sys" where
  "refusing_sys = (let S = sim_sys plain_semver in
     S\<lparr> api_restore := (api_restore S)\<lparr> k_status := (\<lambda>_ w. (Inl (ApiErr Conflict ''modified''), w)) \<rparr> \<rparr>)"

definition restored_sim :: sim where
  "restored_sim = (restore_sim RestorePhaseRestoring)\<lparr> sim_jobs :=
     [(restore_job_key (restore_example RestorePhaseRestoring) 0,
       \<lparr> Job_Meta = new_meta ''r-0'' ''p'' Map.empty, Job_BackoffLimit = 2,
         Job_Pod = job_pod (plain_container ''download'' []) (plain_container ''restore'' []) [],
         Job_Succeeded = 1, Job_Failed = 0 \<rparr>)] \<rparr>"

text \<open>
  C12. No live cluster is forgotten and none is retried in a hot loop: a pass over a cluster returns an
  error or asks to be called again after a second or more, unless it read that the cluster is gone,
  paused or deleted. A pass over a backup or restore lets go only of one that is gone, has ended, is left
  to its CronJob, or whose end the pass wrote. That write is not checked: when it is refused, the pass
  has started the cluster again and returns neither an error nor a delay, and the restore stays in its
  phase.
\<close>

theorem passes_requeue:
  "traces (Reconcile S req) (\<lambda>a es. asks_again a \<or> cluster_let_go req es) \<and>
   traces (BackupReconcile S req) (\<lambda>a es. asks_again a \<or> backup_let_go req es) \<and>
   traces (RestoreReconcile S req) (\<lambda>a es. asks_again a \<or> restore_let_go req es) \<and>
   (let (a, t) = run_state (RestoreReconcile refusing_sys (key_of (RMeta (restore_example RestorePhaseRestoring)))) (start restored_sim)
    in a = (0, None) \<and> map (RPhase \<circ> snd) (sim_restores (ext t)) = [RestorePhaseRestoring] \<and>
       map (Sts_Replicas \<circ> snd) (sim_sts (ext t)) = [Some 1])"
proof (intro conjI Reconcile_again BackupReconcile_again RestoreReconcile_again)
  show "let (a, t) = run_state (RestoreReconcile refusing_sys (key_of (RMeta (restore_example RestorePhaseRestoring)))) (start restored_sim)
    in a = (0, None) \<and> map (RPhase \<circ> snd) (sim_restores (ext t)) = [RestorePhaseRestoring] \<and>
       map (Sts_Replicas \<circ> snd) (sim_sts (ext t)) = [Some 1]"
    by code_simp
qed

end
