(* ===== verification/Startup.thy ===== *)
theory Startup
  imports Cluster_Controller Backup Restore
begin

text \<open>
  The start of the operator: \<^verbatim>\<open>cmd/main.go\<close>, the registrations of the three controllers
  (\<^verbatim>\<open>SetupWithManager\<close>). The manager of controller-runtime is
  a parameter: it is asked to be built, to take a controller, the webhook or a check, and to start,
  and may refuse each of these.
\<close>

section \<open>Kinds and registrations\<close>

datatype obj_kind =
    Kind_Cluster | Kind_Backup | Kind_Restore | Kind_StatefulSet | Kind_Pod | Kind_PVC | Kind_Service | Kind_ConfigMap
  | Kind_Secret | Kind_PDB | Kind_HPA | Kind_Deployment | Kind_ServiceMonitor | Kind_Job | Kind_CronJob

fun kind_of :: "kobj \<Rightarrow> obj_kind" where
  "kind_of (KCluster _) = Kind_Cluster" | "kind_of (KBackup _) = Kind_Backup" | "kind_of (KRestore _) = Kind_Restore"
| "kind_of (KSts _) = Kind_StatefulSet" | "kind_of (KPod _) = Kind_Pod" | "kind_of (KPvc _) = Kind_PVC"
| "kind_of (KSvc _) = Kind_Service" | "kind_of (KCm _) = Kind_ConfigMap" | "kind_of (KSecret _) = Kind_Secret"
| "kind_of (KPdb _) = Kind_PDB" | "kind_of (KHpa _) = Kind_HPA" | "kind_of (KDep _) = Kind_Deployment"
| "kind_of (KSm _) = Kind_ServiceMonitor" | "kind_of (KJob _) = Kind_Job" | "kind_of (KCron _) = Kind_CronJob"

text \<open>\<^verbatim>\<open>ctrl.NewControllerManagedBy(mgr).For(\<dots>).Owns(\<dots>).Named(\<dots>).Complete(r)\<close>\<close>

record registration =
  Reg_For :: obj_kind
  Reg_Owns :: "obj_kind list"
  Reg_Named :: string

definition cluster_SetupWithManager :: registration where
  "cluster_SetupWithManager =
     \<lparr> Reg_For = Kind_Cluster,
       Reg_Owns = [Kind_StatefulSet, Kind_Service, Kind_ConfigMap, Kind_Secret, Kind_PDB],
       Reg_Named = ''hyperbytedbcluster'' \<rparr>"

definition backup_SetupWithManager :: registration where
  "backup_SetupWithManager =
     \<lparr> Reg_For = Kind_Backup, Reg_Owns = [Kind_Job, Kind_CronJob], Reg_Named = ''hyperbytedbbackup'' \<rparr>"

definition restore_SetupWithManager :: registration where
  "restore_SetupWithManager =
     \<lparr> Reg_For = Kind_Restore, Reg_Owns = [Kind_Job], Reg_Named = ''hyperbytedbrestore'' \<rparr>"

section \<open>Flags and options\<close>

text \<open>The variables of \<^verbatim>\<open>main\<close> after \<^verbatim>\<open>flag.Parse\<close>, and their defaults.\<close>

record flags =
  Flag_metricsAddr :: string
  Flag_metricsCertPath :: string
  Flag_metricsCertName :: string
  Flag_metricsCertKey :: string
  Flag_webhookCertPath :: string
  Flag_webhookCertName :: string
  Flag_webhookCertKey :: string
  Flag_enableLeaderElection :: bool
  Flag_probeAddr :: string
  Flag_secureMetrics :: bool
  Flag_enableHTTP2 :: bool

definition default_flags :: flags where
  "default_flags =
     \<lparr> Flag_metricsAddr = ''0'', Flag_metricsCertPath = [], Flag_metricsCertName = ''tls.crt'', Flag_metricsCertKey = ''tls.key'',
       Flag_webhookCertPath = [], Flag_webhookCertName = ''tls.crt'', Flag_webhookCertKey = ''tls.key'',
       Flag_enableLeaderElection = False, Flag_probeAddr = '':8081'', Flag_secureMetrics = True, Flag_enableHTTP2 = False \<rparr>"

text \<open>Of a TLS configuration only the protocols offered matter here; an option changes them.\<close>

type_synonym tls_config = "string list"

definition disableHTTP2 :: "tls_config \<Rightarrow> tls_config" where
  "disableHTTP2 _ = [''http/1.1'']"

definition tlsOpts :: "flags \<Rightarrow> (tls_config \<Rightarrow> tls_config) list" where
  "tlsOpts fl = (if \<not> Flag_enableHTTP2 fl then [disableHTTP2] else [])"

record server_options =
  Srv_BindAddress :: string                               \<comment> \<open>metrics server only\<close>
  Srv_SecureServing :: bool                               \<comment> \<open>metrics server only\<close>
  Srv_Authorization :: bool                               \<comment> \<open>\<^verbatim>\<open>FilterProvider\<close>, metrics server only\<close>
  Srv_TLSOpts :: "(tls_config \<Rightarrow> tls_config) list"
  Srv_CertDir :: string
  Srv_CertName :: string
  Srv_KeyName :: string

definition no_options :: server_options where
  "no_options = \<lparr> Srv_BindAddress = [], Srv_SecureServing = False, Srv_Authorization = False, Srv_TLSOpts = [],
     Srv_CertDir = [], Srv_CertName = [], Srv_KeyName = [] \<rparr>"

definition with_certs :: "string \<Rightarrow> string \<Rightarrow> string \<Rightarrow> server_options \<Rightarrow> server_options" where
  "with_certs path name key so =
     (if length path > 0 then so\<lparr> Srv_CertDir := path, Srv_CertName := name, Srv_KeyName := key \<rparr> else so)"

definition webhookServerOptions :: "flags \<Rightarrow> server_options" where
  "webhookServerOptions fl =
     with_certs (Flag_webhookCertPath fl) (Flag_webhookCertName fl) (Flag_webhookCertKey fl)
       (no_options\<lparr> Srv_TLSOpts := tlsOpts fl \<rparr>)"

definition metricsServerOptions :: "flags \<Rightarrow> server_options" where
  "metricsServerOptions fl =
     with_certs (Flag_metricsCertPath fl) (Flag_metricsCertName fl) (Flag_metricsCertKey fl)
       (let base = no_options\<lparr> Srv_BindAddress := Flag_metricsAddr fl, Srv_SecureServing := Flag_secureMetrics fl,
                               Srv_TLSOpts := tlsOpts fl \<rparr>
        in if Flag_secureMetrics fl then base\<lparr> Srv_Authorization := True \<rparr> else base)"

record manager_options =
  Mgr_Metrics :: server_options
  Mgr_WebhookServer :: "server_options option"
  Mgr_HealthProbeBindAddress :: string
  Mgr_LeaderElection :: bool
  Mgr_LeaderElectionID :: string

definition enableWebhooks :: "string \<Rightarrow> bool" where
  "enableWebhooks env = (env \<noteq> ''false'')"

definition manager_options_of :: "flags \<Rightarrow> string \<Rightarrow> manager_options" where
  "manager_options_of fl env =
     \<lparr> Mgr_Metrics = metricsServerOptions fl,
       Mgr_WebhookServer = (if enableWebhooks env then Some (webhookServerOptions fl) else None),
       Mgr_HealthProbeBindAddress = Flag_probeAddr fl, Mgr_LeaderElection = Flag_enableLeaderElection fl,
       Mgr_LeaderElectionID = ''87d2e674.hyperbytedb.io'' \<rparr>"

section \<open>The start\<close>

text \<open>
  What \<^verbatim>\<open>main\<close> asks of the manager. \<open>NewManager\<close> includes \<^verbatim>\<open>ctrl.GetConfigOrDie\<close>, which ends the
  program with the same status; a controller is set up with the name of its event recorder.
\<close>

datatype boot_call =
    NewManager manager_options | SetupController registration string | SetupWebhook
  | AddHealthzCheck string | AddReadyzCheck string | StartManager

text \<open>The state: the outside and the calls made so far with their errors. \<open>mgr\<close> answers a call.\<close>

type_synonym ('w, 'a) boot = "('w \<times> (boot_call \<times> err option) list, 'a) state"

definition ask :: "(boot_call \<Rightarrow> 'w \<Rightarrow> unit result \<times> 'w) \<Rightarrow> boot_call \<Rightarrow> ('w, unit result) boot" where
  "ask mgr b = State (\<lambda>(w, l). case mgr b w of (r, w') \<Rightarrow> (r, (w', l @ [(b, err_of r)])))"

text \<open>\<^verbatim>\<open>os.Exit(1)\<close> after an error, else \<open>k\<close>; \<open>None\<close> is the ordinary return of \<^verbatim>\<open>main\<close>.\<close>

definition or_exit :: "('w, unit result) boot \<Rightarrow> ('w, nat option) boot \<Rightarrow> ('w, nat option) boot" where
  "or_exit m k = do { r \<leftarrow> m; case r of Inl _ \<Rightarrow> ret (Some 1) | Inr _ \<Rightarrow> k }"

definition main :: "(boot_call \<Rightarrow> 'w \<Rightarrow> unit result \<times> 'w) \<Rightarrow> flags \<Rightarrow> string \<Rightarrow> ('w, nat option) boot" where
  "main mgr fl env =
     or_exit (ask mgr (NewManager (manager_options_of fl env))) (
     or_exit (ask mgr (SetupController cluster_SetupWithManager ''hyperbytedbcluster-controller'')) (
     or_exit (ask mgr (SetupController backup_SetupWithManager ''hyperbytedbbackup-controller'')) (
     or_exit (ask mgr (SetupController restore_SetupWithManager ''hyperbytedbrestore-controller'')) (
     or_exit (if enableWebhooks env then ask mgr SetupWebhook else ret (Inr ())) (
     or_exit (ask mgr (AddHealthzCheck ''healthz'')) (
     or_exit (ask mgr (AddReadyzCheck ''readyz'')) (
     or_exit (ask mgr StartManager) (
     ret None))))))))"

text \<open>The calls of a start in which nothing fails.\<close>

definition boot_plan :: "flags \<Rightarrow> string \<Rightarrow> boot_call list" where
  "boot_plan fl env =
     [NewManager (manager_options_of fl env),
      SetupController cluster_SetupWithManager ''hyperbytedbcluster-controller'',
      SetupController backup_SetupWithManager ''hyperbytedbbackup-controller'',
      SetupController restore_SetupWithManager ''hyperbytedbrestore-controller'']
     @ (if enableWebhooks env then [SetupWebhook] else [])
     @ [AddHealthzCheck ''healthz'', AddReadyzCheck ''readyz'', StartManager]"

text \<open>Making calls one after the other, up to the first that fails.\<close>

fun boot :: "(boot_call \<Rightarrow> 'w \<Rightarrow> unit result \<times> 'w) \<Rightarrow> boot_call list \<Rightarrow> ('w, nat option) boot" where
  "boot mgr [] = ret None"
| "boot mgr (b # bs) = or_exit (ask mgr b) (boot mgr bs)"

text \<open>A log of a start along a plan: all calls of the plan accepted, or a part of it and then a refusal.\<close>

definition boot_log :: "boot_call list \<Rightarrow> nat option \<Rightarrow> (boot_call \<times> err option) list \<Rightarrow> bool" where
  "boot_log plan x l \<longleftrightarrow>
     (case x of
        None \<Rightarrow> l = map (\<lambda>b. (b, None)) plan
      | Some code \<Rightarrow> code = 1 \<and>
          (\<exists>pre b post e. plan = pre @ b # post \<and> l = map (\<lambda>b. (b, None)) pre @ [(b, Some e)]))"

lemma or_exit_skip: "or_exit (ret (Inr ())) k = k"
  by (simp add: or_exit_def)

lemma main_boot: "main mgr fl env = boot mgr (boot_plan fl env)"
  by (simp add: main_def boot_plan_def or_exit_skip)

lemma boot_log_Cons:
  assumes "boot_log bs x l"
  shows "boot_log (b # bs) x ((b, None) # l)"
proof (cases x)
  case (Some code)
  with assms obtain pre b' post e where *: "code = 1" "bs = pre @ b' # post" "l = map (\<lambda>b. (b, None)) pre @ [(b', Some e)]"
    by (auto simp: boot_log_def)
  then have "b # bs = (b # pre) @ b' # post" "(b, None) # l = map (\<lambda>b. (b, None)) (b # pre) @ [(b', Some e)]" by simp_all
  with *(1) show ?thesis unfolding boot_log_def Some option.case by blast
qed (use assms in \<open>simp add: boot_log_def\<close>)

lemma boot_logs:
  "\<exists>es. snd (snd (run_state (boot mgr bs) (w, l))) = l @ es \<and> boot_log bs (fst (run_state (boot mgr bs) (w, l))) es"
proof (induction bs arbitrary: w l)
  case (Cons b bs)
  obtain r v where r: "mgr b w = (r, v)" by fastforce
  show ?case
  proof (cases r)
    case (Inl e)
    then have "boot_log (b # bs) (Some 1) [(b, Some e)]"
      unfolding boot_log_def by (auto intro!: exI [of _ "[]"])
    with r Inl show ?thesis by (simp add: or_exit_def ask_def err_of_def)
  next
    case (Inr u)
    obtain es where "snd (snd (run_state (boot mgr bs) (v, l @ [(b, None)]))) = (l @ [(b, None)]) @ es"
      "boot_log bs (fst (run_state (boot mgr bs) (v, l @ [(b, None)]))) es" using Cons.IH by blast
    with r Inr show ?thesis by (auto simp: or_exit_def ask_def err_of_def intro!: exI [of _ "(b, None) # es"] boot_log_Cons)
  qed
qed (simp add: boot_log_def)

section \<open>What a start guarantees\<close>

lemma boot_log_last:
  assumes "boot_log (bs @ [b]) x l" "(b, e) \<in> set l" "b \<notin> set bs"
  shows "l = map (\<lambda>b. (b, None)) bs @ [(b, e)]"
proof (cases x)
  case (Some code)
  with assms(1) obtain pre b' post e' where *: "bs @ [b] = pre @ b' # post" "l = map (\<lambda>b. (b, None)) pre @ [(b', Some e')]"
    by (auto simp: boot_log_def)
  with assms(2,3) show ?thesis by (cases post rule: rev_cases) auto
qed (use assms in \<open>auto simp: boot_log_def\<close>)

lemma boot_log_calls: "boot_log plan x l \<Longrightarrow> fst ` set l \<subseteq> set plan"
  by (auto simp: boot_log_def split: option.splits)

text \<open>The protocols a server offers: its options applied to a configuration.\<close>

definition offered :: "server_options \<Rightarrow> tls_config \<Rightarrow> tls_config" where
  "offered so conf = fold (\<lambda>f c. f c) (Srv_TLSOpts so) conf"

lemma servers_offered:
  "offered (metricsServerOptions fl) conf = (if Flag_enableHTTP2 fl then conf else [''http/1.1''])"
  "offered (webhookServerOptions fl) conf = (if Flag_enableHTTP2 fl then conf else [''http/1.1''])"
  by (simp_all add: offered_def metricsServerOptions_def webhookServerOptions_def with_certs_def tlsOpts_def
      disableHTTP2_def no_options_def Let_def)

text \<open>
  C25. Whatever the manager answers, the start makes its calls in the fixed order up to the first
  refusal: it exits with status 1 exactly when a call was refused, which is then the last one, and
  returns normally exactly when all were accepted. The manager is therefore started only after the
  three controllers, the two checks and, unless disabled, the webhook were accepted. Without the flag
  for HTTP/2 both servers offer HTTP/1.1 alone, a secure metrics server is always protected by
  authorization, and there is a webhook server exactly when the webhook is set up.
\<close>

theorem main_starts_last:
  assumes run: "run_state (main mgr fl env) (w, []) = (x, (w', l))"
  shows "boot_log (boot_plan fl env) x l \<and>
     (\<forall>e. (StartManager, e) \<in> set l \<longrightarrow> l = map (\<lambda>b. (b, None)) (butlast (boot_plan fl env)) @ [(StartManager, e)]) \<and>
     (SetupWebhook \<in> fst ` set l \<longrightarrow> Mgr_WebhookServer (manager_options_of fl env) \<noteq> None) \<and>
     (Mgr_WebhookServer (manager_options_of fl env) \<noteq> None \<longleftrightarrow> SetupWebhook \<in> set (boot_plan fl env)) \<and>
     (\<not> Flag_enableHTTP2 fl \<longrightarrow>
        (\<forall>so conf. so = Mgr_Metrics (manager_options_of fl env) \<or> Mgr_WebhookServer (manager_options_of fl env) = Some so \<longrightarrow> offered so conf = [''http/1.1''])) \<and>
     (Srv_SecureServing (Mgr_Metrics (manager_options_of fl env)) \<longleftrightarrow> Srv_Authorization (Mgr_Metrics (manager_options_of fl env)))"
proof -
  let ?plan = "boot_plan fl env"
  have log: "boot_log ?plan x l" using boot_logs [of mgr ?plan w "[]"] run by (simp add: main_boot)
  have plan: "?plan = butlast ?plan @ [StartManager]" "StartManager \<notin> set (butlast ?plan)"
    by (simp_all add: boot_plan_def)
  have start: "l = map (\<lambda>b. (b, None)) (butlast ?plan) @ [(StartManager, e)]" if "(StartManager, e) \<in> set l" for e
    using boot_log_last [of "butlast ?plan" StartManager x l e] log plan that by metis
  have hook: "Mgr_WebhookServer (manager_options_of fl env) \<noteq> None \<longleftrightarrow> SetupWebhook \<in> set ?plan"
    by (simp add: manager_options_of_def boot_plan_def)
  moreover have "Mgr_WebhookServer (manager_options_of fl env) \<noteq> None" if "SetupWebhook \<in> fst ` set l"
    using boot_log_calls [OF log] that hook by blast
  moreover have "offered so conf = [''http/1.1'']"
    if "\<not> Flag_enableHTTP2 fl" "so = Mgr_Metrics (manager_options_of fl env) \<or> Mgr_WebhookServer (manager_options_of fl env) = Some so" for so conf
    using that by (auto simp: manager_options_of_def servers_offered split: if_splits)
  moreover have "Srv_SecureServing (Mgr_Metrics (manager_options_of fl env)) \<longleftrightarrow> Srv_Authorization (Mgr_Metrics (manager_options_of fl env))"
    by (simp add: manager_options_of_def metricsServerOptions_def with_certs_def no_options_def Let_def)
  ultimately show ?thesis using log start by blast
qed

text \<open>A start with the default flags and the webhook disabled, whose readiness check is refused.\<close>

definition no_readyz :: "boot_call \<Rightarrow> unit \<Rightarrow> unit result \<times> unit" where
  "no_readyz b w = (case b of AddReadyzCheck _ \<Rightarrow> (Inl NilDeref, w) | _ \<Rightarrow> (Inr (), w))"

theorem main_starts_last_witness:
  "fst (run_state (main no_readyz default_flags ''false'') ((), [])) = Some 1 \<and>
   StartManager \<notin> fst ` set (snd (snd (run_state (main no_readyz default_flags ''false'') ((), [])))) \<and>
   boot_log (boot_plan default_flags ''false'') (Some 1)
     (snd (snd (run_state (main no_readyz default_flags ''false'') ((), []))))"
proof -
  let ?r = "run_state (main no_readyz default_flags ''false'') ((), [])"
  have r: "fst ?r = Some 1" "length (snd (snd ?r)) = 6"
    by (simp_all add: main_boot boot_plan_def enableWebhooks_def or_exit_def ask_def no_readyz_def err_of_def)
  have t: "boot_log (boot_plan default_flags ''false'') (fst ?r) (snd (snd ?r)) \<and>
     (\<forall>e. (StartManager, e) \<in> set (snd (snd ?r)) \<longrightarrow>
        snd (snd ?r) = map (\<lambda>b. (b, None)) (butlast (boot_plan default_flags ''false'')) @ [(StartManager, e)])"
    using main_starts_last [of no_readyz default_flags "''false''" "()" "fst ?r" "fst (snd ?r)" "snd (snd ?r)"]
    unfolding prod.collapse by blast
  have "length (boot_plan default_flags ''false'') = 7" by (simp add: boot_plan_def enableWebhooks_def)
  with r(2) t have "StartManager \<notin> fst ` set (snd (snd ?r))" by fastforce
  with r(1) t show ?thesis by simp
qed

end
