(* ===== verification/Rbac.thy ===== *)
theory Rbac
  imports Startup
begin

text \<open>
  The permissions of the operator: the rules the \<^verbatim>\<open>+kubebuilder:rbac\<close> markers of the three
  controllers ask for, from which the role of the manager (\<^verbatim>\<open>config/rbac/role.yaml\<close>) is generated,
  and that the calls of every pass stay within them.
\<close>

section \<open>Rules\<close>

datatype verb = VGet | VList | VWatch | VCreate | VUpdate | VPatch | VDelete

datatype resource = Res obj_kind | StatusOf obj_kind | FinalizersOf obj_kind | Events

type_synonym rule = "resource \<times> verb list"

definition read_verbs :: "verb list" where
  "read_verbs = [VGet, VList, VWatch]"

definition all_verbs :: "verb list" where
  "all_verbs = read_verbs @ [VCreate, VUpdate, VPatch, VDelete]"

definition cluster_rules :: "rule list" where
  "cluster_rules =
     [(Res Kind_Cluster, all_verbs), (StatusOf Kind_Cluster, [VGet, VUpdate, VPatch]), (FinalizersOf Kind_Cluster, [VUpdate]),
      (Res Kind_StatefulSet, all_verbs), (Res Kind_Deployment, all_verbs), (Res Kind_Service, all_verbs),
      (Res Kind_ConfigMap, all_verbs), (Res Kind_Secret, all_verbs), (Res Kind_PVC, read_verbs @ [VDelete]),
      (Res Kind_Pod, read_verbs @ [VDelete]), (Events, [VCreate, VPatch]), (Res Kind_HPA, all_verbs),
      (Res Kind_PDB, all_verbs), (Res Kind_ServiceMonitor, all_verbs)]"

definition backup_rules :: "rule list" where
  "backup_rules =
     [(Res Kind_Backup, all_verbs), (StatusOf Kind_Backup, [VGet, VUpdate, VPatch]), (FinalizersOf Kind_Backup, [VUpdate]),
      (Res Kind_Job, all_verbs), (Res Kind_CronJob, all_verbs)]"

definition restore_rules :: "rule list" where
  "restore_rules =
     [(Res Kind_Restore, all_verbs), (StatusOf Kind_Restore, [VGet, VUpdate, VPatch]), (FinalizersOf Kind_Restore, [VUpdate]),
      (Res Kind_Cluster, read_verbs), (Res Kind_Backup, read_verbs), (Res Kind_StatefulSet, read_verbs @ [VUpdate, VPatch]),
      (Res Kind_Job, read_verbs @ [VCreate, VDelete])]"

definition manager_role :: "rule list" where
  "manager_role = cluster_rules @ backup_rules @ restore_rules"

definition granted :: "rule list \<Rightarrow> resource \<Rightarrow> verb \<Rightarrow> bool" where
  "granted rules res v \<longleftrightarrow> list_ex (\<lambda>(res', vs). res' = res \<and> v \<in> set vs) rules"

section \<open>What a call needs\<close>

text \<open>
  The permissions a call needs. The client of the manager reads through a cache that lists and
  watches the kind read; a failed read does not show the kind in the log. Requests to the nodes go
  past the API server.
\<close>

definition writes_permitted :: "rule list \<Rightarrow> event \<Rightarrow> bool" where
  "writes_permitted rules e =
     (case e of
        EvCreate x _ \<Rightarrow> granted rules (Res (kind_of x)) VCreate
      | EvUpdate x _ \<Rightarrow> granted rules (Res (kind_of x)) VUpdate
      | EvStatus x _ \<Rightarrow> granted rules (StatusOf (kind_of x)) VUpdate
      | EvPatch _ x _ \<Rightarrow> granted rules (Res (kind_of x)) VPatch
      | EvDelete x _ _ \<Rightarrow> granted rules (Res (kind_of x)) VDelete
      | _ \<Rightarrow> True)"

definition readable :: "rule list \<Rightarrow> obj_kind \<Rightarrow> bool" where
  "readable rules k \<longleftrightarrow> list_all (granted rules (Res k)) read_verbs"

definition permitted :: "rule list \<Rightarrow> event \<Rightarrow> bool" where
  "permitted rules e \<longleftrightarrow> writes_permitted rules e \<and>
     (case e of
        EvGet _ (Inr x) \<Rightarrow> readable rules (kind_of x)
      | EvList _ (Inr xs) \<Rightarrow> list_all (readable rules \<circ> kind_of) xs
      | EvRecord _ _ _ \<Rightarrow> granted rules Events VCreate
      | _ \<Rightarrow> True)"

lemmas rule_defs = manager_role_def cluster_rules_def backup_rules_def restore_rules_def all_verbs_def read_verbs_def granted_def

lemma role_readable [simp]: "readable manager_role k"
  by (cases k) (simp_all add: readable_def rule_defs)

lemma role_reads: "permitted manager_role (EvGet k g)" "permitted manager_role (EvList sel l)"
  by (simp_all add: permitted_def writes_permitted_def list_all_iff split: sum.split)

interpretation role: pass_calls "permitted manager_role"
  by unfold_locales (simp_all add: role_reads, simp_all add: permitted_def writes_permitted_def rule_defs)

interpretation own: pass_calls "writes_permitted cluster_rules"
  by unfold_locales (simp_all add: writes_permitted_def rule_defs)

section \<open>The calls of the other two controllers\<close>

lemma emits_BackupReconcile:
  assumes "\<And>k g. P (EvGet k g)" "\<And>ty r m. P (EvRecord ty r m)" "\<And>b r. P (EvStatus (KBackup b) r)"
    and "\<And>j r. P (EvCreate (KJob j) r)" "\<And>j r. P (EvCreate (KCron j) r)" "\<And>j r. P (EvUpdate (KCron j) r)"
  shows "emits P (BackupReconcile S req)"
proof -
  have cond: "emits P (set_bcond S b ty st reason msg)" for b ty st reason msg
    unfolding set_bcond_def by (intro emits_intro)
  have save: "emits P (save_backup S b)" for b
    unfolding save_backup_def by (intro emits_intro) (rule assms)
  have start: "emits P (start_backup S b c)" for b c
    unfolding start_backup_def Let_def by (intro emits_intro save) (rule assms)+
  have job: "emits P (reconcileJob S b c)" for b c
    unfolding reconcileJob_def backup_finished_def backup_failed_def
    by (intro emits_intro save cond start) (rule assms)+
  have cron: "emits P (reconcileCronJob S b c)" for b c
    unfolding reconcileCronJob_def Let_def by (intro emits_intro save cond) (rule assms)+
  show ?thesis
    unfolding BackupReconcile_def by (intro emits_intro save cond job cron) (rule assms)+
qed

lemma emits_RestoreReconcile:
  assumes "\<And>k g. P (EvGet k g)" "\<And>ty r m. P (EvRecord ty r m)" "\<And>x r. P (EvStatus (KRestore x) r)"
    and "\<And>j r. P (EvCreate (KJob j) r)" "\<And>st r. P (EvUpdate (KSts st) r)"
  shows "emits P (RestoreReconcile S req)"
proof -
  have phase: "emits P (setRestorePhase S r p reason msg)" for r p reason msg
    unfolding setRestorePhase_def by (intro emits_intro) (rule assms)
  have source: "emits P (resolveS3Source S r)" for r
    unfolding resolveS3Source_def Let_def by (intro emits_intro) (rule assms)
  have create: "emits P (create_restore_job S r c src i)" for r c src i
    unfolding create_restore_job_def Let_def by (intro emits_intro) (rule assms)
  have poll: "emits P (poll_jobs S r is d f)" for r "is" d f
    by (induction "is" arbitrary: d f) (auto intro!: emits_intro assms)
  have up: "emits P (handleScaleUp S r c)" for r c
    unfolding handleScaleUp_def by (intro emits_intro phase) (rule assms)+
  have steps: "emits P (handleScaleDown S r c)" "emits P (checkScaleDown S r c src)" "emits P (checkRestoreJob S r c)" for r c src
    unfolding handleScaleDown_def checkScaleDown_def checkRestoreJob_def Let_def
    by (intro emits_intro phase create poll up; rule assms)+
  have dispatch: "emits P (restore_dispatch S r c src)" for r c src
    unfolding restore_dispatch_def by (cases "RPhase r") (simp_all add: steps emits_return)
  show ?thesis
    unfolding RestoreReconcile_def by (intro emits_intro phase source dispatch) (rule assms)+
qed

section \<open>Every pass stays within its permissions\<close>

text \<open>The kinds a controller creates that its registration watches, or that are listed as unwatched.\<close>

definition created_watched :: "registration \<Rightarrow> obj_kind list \<Rightarrow> event \<Rightarrow> bool" where
  "created_watched reg unwatched e =
     (case e of EvCreate x _ \<Rightarrow> kind_of x \<in> set (Reg_Owns reg) \<union> set unwatched | _ \<Rightarrow> True)"

definition watch_permitted :: "rule list \<Rightarrow> registration \<Rightarrow> bool" where
  "watch_permitted rules reg \<longleftrightarrow> list_all (readable rules) (Reg_For reg # Reg_Owns reg)"

abbreviation unwatched_kinds :: "obj_kind list" where
  "unwatched_kinds \<equiv> [Kind_Deployment, Kind_HPA, Kind_ServiceMonitor]"

interpretation watched: pass_calls "created_watched cluster_SetupWithManager unwatched_kinds"
  by unfold_locales (simp_all add: created_watched_def cluster_SetupWithManager_def)

lemmas permission_defs = permitted_def writes_permitted_def created_watched_def rule_defs

text \<open>
  C24. Whatever the API server and the nodes answer, every call of a pass of the three controllers is
  granted by the role generated from their markers, the writes of each controller already by its own
  markers, and each controller may watch what it registers for. Every object a controller creates is of a
  kind it watches, except the proxy's Deployment, the autoscaler and the ServiceMonitor of a cluster.
\<close>

theorem passes_permitted:
  "emits (permitted manager_role) (Reconcile S req) \<and>
   emits (permitted manager_role) (BackupReconcile S req) \<and>
   emits (permitted manager_role) (RestoreReconcile S req) \<and>
   emits (writes_permitted cluster_rules) (Reconcile S req) \<and>
   emits (writes_permitted backup_rules) (BackupReconcile S req) \<and>
   emits (writes_permitted restore_rules) (RestoreReconcile S req) \<and>
   emits (created_watched cluster_SetupWithManager unwatched_kinds) (Reconcile S req) \<and>
   emits (created_watched backup_SetupWithManager []) (BackupReconcile S req) \<and>
   emits (created_watched restore_SetupWithManager []) (RestoreReconcile S req) \<and>
   watch_permitted cluster_rules cluster_SetupWithManager \<and>
   watch_permitted backup_rules backup_SetupWithManager \<and>
   watch_permitted restore_rules restore_SetupWithManager"
proof (intro conjI)
  show "emits (permitted manager_role) (BackupReconcile S req)"
    by (rule emits_BackupReconcile) (simp_all add: role_reads, simp_all add: permission_defs)
  show "emits (permitted manager_role) (RestoreReconcile S req)"
    by (rule emits_RestoreReconcile) (simp_all add: role_reads, simp_all add: permission_defs)
  show "emits (writes_permitted backup_rules) (BackupReconcile S req)"
    "emits (created_watched backup_SetupWithManager []) (BackupReconcile S req)"
    by (rule emits_BackupReconcile; simp add: permission_defs backup_SetupWithManager_def)+
  show "emits (writes_permitted restore_rules) (RestoreReconcile S req)"
    "emits (created_watched restore_SetupWithManager []) (RestoreReconcile S req)"
    by (rule emits_RestoreReconcile; simp add: permission_defs restore_SetupWithManager_def)+
  show "watch_permitted cluster_rules cluster_SetupWithManager" "watch_permitted backup_rules backup_SetupWithManager"
    "watch_permitted restore_rules restore_SetupWithManager"
    by (simp_all add: watch_permitted_def readable_def rule_defs cluster_SetupWithManager_def backup_SetupWithManager_def
        restore_SetupWithManager_def)
qed (rule role.calls_Reconcile own.calls_Reconcile watched.calls_Reconcile)+

end
