(* ===== verification/Evacuation.thy ===== *)
theory Evacuation
  imports Scale_Down
begin

text \<open>
  Scale-down makes progress. \<open>evacuation\<close> is the contract the hooks of a shrink rely on: the nodes
  answer, a node told to decommission does so, its remaining work shrinks between two passes,
  and the Raft group has a leader that removes members. Under it the hooks let the StatefulSet
  shrink after at most as many passes as there is work. A small reactive database satisfies the
  contract.
\<close>

section \<open>The contract\<close>

definition departing_states :: "string set" where
  "departing_states = {nodeStateDecommissioning, nodeStateLeaving}"

text \<open>A pass of the hooks from a fresh log, and what the nodes do until the next.\<close>

definition scale_pass ::
  "'w sys \<Rightarrow> string \<Rightarrow> HyperbytedbCluster \<Rightarrow> int \<Rightarrow> ('w \<Rightarrow> 'w) \<Rightarrow> int \<Rightarrow> 'w \<Rightarrow> 'w" where
  "scale_pass S tok c n tick desired w = tick (ext (snd (run_state (runScaleDownClusterHooks S tok c n desired) (start w))))"

locale evacuation =
  fixes S :: "'w sys" and tok :: string and c :: HyperbytedbCluster and n :: int
    and state_of :: "'w \<Rightarrow> int \<Rightarrow> string"
    and rank :: "'w \<Rightarrow> int \<Rightarrow> nat"
    and tick :: "'w \<Rightarrow> 'w"
  assumes size: "in_i32 n"
    and health: "0 \<le> i \<Longrightarrow> i < n \<Longrightarrow>
      \<exists>h t. run_state (GetNodeHealth S tok (pod_host c i) (ServerPort c)) s = (Inr h, t) \<and>
        HS_State h = state_of (ext s) i \<and> ext t = ext s"
    and told: "0 \<le> i \<Longrightarrow> i < n \<Longrightarrow> run_state (DecommissionNode S tok (pod_host c i) (ServerPort c)) s = (r, t) \<Longrightarrow>
      state_of (ext t) i \<in> departing_states"
    and told_others: "0 \<le> i \<Longrightarrow> i < n \<Longrightarrow> run_state (DecommissionNode S tok (pod_host c i) (ServerPort c)) s = (r, t) \<Longrightarrow>
      rank (ext t) j \<le> rank (ext s) j \<and>
      (state_of (ext s) j \<in> departing_states \<longrightarrow> state_of (ext t) j \<in> departing_states)"
    and leader: "0 \<le> i \<Longrightarrow> i < n \<Longrightarrow>
      \<exists>info l t. run_state (GetClusterLeader S tok (pod_host c i) (ServerPort c)) s = (Inr info, t) \<and>
        LI_LeaderID info = Some l \<and> 1 \<le> l \<and> l \<le> n"
    and remove: "0 \<le> i \<Longrightarrow> i < n \<Longrightarrow>
      \<exists>r t. run_state (RemoveClusterNode S tok (pod_host c i) (ServerPort c) node) s = (Inr r, t)"
    and rank_0: "rank w i = 0 \<longleftrightarrow> state_of w i = nodeStateLeaving"
    and tick_le: "rank (tick w) i \<le> rank w i"
    and tick_less: "state_of w i = nodeStateDecommissioning \<Longrightarrow> rank (tick w) i < rank w i"
begin

text \<open>What the survey of the departing nodes finds.\<close>

definition view :: "'w \<Rightarrow> int \<Rightarrow> departingNode" where
  "view w i = \<lparr> DN_state = state_of w i, DN_reachable = True \<rparr>"

definition surveyed :: "'w \<Rightarrow> bool \<Rightarrow> int list \<Rightarrow> int list" where
  "surveyed w together is =
     (if together then is
      else takeWhile (\<lambda>i. \<not> gates (view w i)) is @ take 1 (dropWhile (\<lambda>i. \<not> gates (view w i)) is))"

lemma gates_view: "gates (view w i) \<longleftrightarrow> rank w i \<noteq> 0"
  by (simp add: gates_def view_def rank_0)

lemma run_survey:
  "set is \<subseteq> {0..<n} \<Longrightarrow>
   \<exists>t. run_state (survey S tok c together is) s
         = (map (\<lambda>i. (view (ext s) i, pod_host c i)) (surveyed (ext s) together is), t) \<and> ext t = ext s"
proof (induction "is" arbitrary: s)
  case (Cons i "is")
  then obtain h t where h: "run_state (GetNodeHealth S tok (pod_host c i) (ServerPort c)) s = (Inr h, t)"
    "HS_State h = state_of (ext s) i" "ext t = ext s" using health [of i s] by auto
  have v: "departing_view (Inr h) = view (ext s) i" by (simp add: departing_view_def view_def h)
  show ?case
  proof (cases "\<not> together \<and> gates (view (ext s) i)")
    case True
    then show ?thesis using h v by (auto simp: surveyed_def gates_def view_def)
  next
    case False
    obtain u where u: "run_state (survey S tok c together is) t
        = (map (\<lambda>i. (view (ext t) i, pod_host c i)) (surveyed (ext t) together is), u)" "ext u = ext t"
      using Cons.IH [of t] Cons.prems by auto
    have "\<not> (\<not> together \<and> DN_reachable (view (ext s) i) \<and> DN_state (view (ext s) i) \<noteq> nodeStateLeaving)"
      using False by (auto simp: gates_def)
    moreover have "surveyed (ext s) together (i # is) = i # surveyed (ext s) together is"
      using False by (auto simp: surveyed_def)
    ultimately show ?thesis using h u v by (auto simp: Let_def)
  qed
qed (simp add: surveyed_def)

text \<open>The first departing node that still holds data is surveyed, and told if it was not told.\<close>

lemma first_gating:
  assumes "\<exists>i\<in>set is. gates (view w i)"
  obtains ys i zs where "surveyed w together is = ys @ i # zs" "i \<in> set is" "gates (view w i)"
    "\<forall>y\<in>set ys. \<not> gates (view w y)"
proof -
  obtain ys i zs where "is": "is = ys @ i # zs" "gates (view w i)" "\<forall>y\<in>set ys. \<not> gates (view w y)"
    using split_list_first_prop [OF assms] by auto
  then have "surveyed w together is = ys @ i # (if together then zs else [])"
    by (auto simp: surveyed_def takeWhile_append dropWhile_append)
  with "is" show ?thesis by (intro that) auto
qed

lemma surveyed_subset: "set (surveyed w together is) \<subseteq> set is"
proof -
  have "set (take 1 (dropWhile P is)) \<subseteq> set is" for P by (meson set_take_subset set_dropWhileD subset_iff)
  then show ?thesis by (auto simp: surveyed_def dest: set_takeWhileD)
qed

lemma no_gating: "(\<forall>i\<in>set (surveyed w together is). \<not> gates (view w i)) \<longleftrightarrow> (\<forall>i\<in>set is. \<not> gates (view w i))"
  using first_gating [of "is" w together] surveyed_subset [of w together "is"] by (metis in_set_conv_decomp subset_iff)

lemma plan_tells_first:
  assumes "\<forall>y\<in>set ys. \<not> gates y" "untold x"
  shows "length ys \<in> set (fst (departurePlan (ys @ x # zs) together))"
proof (cases together)
  case True
  then show ?thesis using assms by (simp add: departurePlan_def plan_from_together nth_append)
next
  case False
  have "find gates (ys @ x # zs) = Some x" "takeWhile (\<lambda>x. \<not> gates x) (ys @ x # zs) = ys"
    using assms by (auto simp: find_Some_iff untold_def takeWhile_append intro!: exI [of _ "length ys"] simp: nth_append)
  with False assms(2) show ?thesis unfolding departurePlan_def by (simp add: plan_from_sequential)
qed

text \<open>Telling nodes raises no rank and never takes a node out of departure.\<close>

definition onward :: "'w \<Rightarrow> 'w \<Rightarrow> bool" where
  "onward w w' \<longleftrightarrow> (\<forall>j. rank w' j \<le> rank w j \<and> (state_of w j \<in> departing_states \<longrightarrow> state_of w' j \<in> departing_states))"

lemma onward_refl: "onward w w" by (simp add: onward_def)
lemma onward_trans: "onward w w' \<Longrightarrow> onward w' w'' \<Longrightarrow> onward w w''"
  unfolding onward_def by (meson order_trans)

lemma run_tells:
  assumes "\<forall>k\<in>set ks. \<exists>i\<in>{0..<n}. snd (found ! k) = pod_host c i"
    and "run_state (forEach ks (\<lambda>k. do { _ \<leftarrow> DecommissionNode S tok (snd (found ! k)) (ServerPort c); ret () })) s = (u, t)"
  shows "onward (ext s) (ext t) \<and>
    (\<forall>k\<in>set ks. \<forall>i. snd (found ! k) = pod_host c i \<longrightarrow> state_of (ext t) i \<in> departing_states)"
  using assms
proof (induction ks arbitrary: s)
  case (Cons k ks)
  obtain r v where one: "run_state (DecommissionNode S tok (snd (found ! k)) (ServerPort c)) s = (r, v)" by (rule runE)
  obtain i where i: "0 \<le> i" "i < n" "snd (found ! k) = pod_host c i" using Cons.prems(1) by auto
  note laws = told [OF i(1,2) one [unfolded i(3)]] told_others [OF i(1,2) one [unfolded i(3)]]
  then have "onward (ext s) (ext v)" by (simp add: onward_def)
  moreover have rest: "onward (ext v) (ext t) \<and>
    (\<forall>k\<in>set ks. \<forall>i. snd (found ! k) = pod_host c i \<longrightarrow> state_of (ext t) i \<in> departing_states)"
    using Cons.IH [of v] Cons.prems one by simp
  moreover have "state_of (ext t) i \<in> departing_states" using laws(1) rest by (simp add: onward_def)
  ultimately show ?case using i(3) by (auto intro: onward_trans)
qed (simp add: onward_refl)

subsection \<open>The Raft voters\<close>

lemma node_hosts_known:
  assumes "1 \<le> l" "l \<le> n"
  shows "map_of (node_hosts c n) l = Some (pod_host c (l - 1))"
proof -
  have id: "u64 (i + 1) = i + 1" if "i \<in> {0..<n}" for i using that size by (simp add: in_i32_def)
  have "map_of (node_hosts c n) = map_of (map (\<lambda>i. (i + 1, pod_host c i)) (ords_up 0 n))"
    unfolding node_hosts_def using id by (intro arg_cong [where f = map_of] map_cong) auto
  moreover have "map_of (map (\<lambda>i. (i + 1, pod_host c i)) is) l = (if l - 1 \<in> set is then Some (pod_host c (l - 1)) else None)" for "is"
    by (induction "is") auto
  ultimately show ?thesis using assms by auto
qed

lemma run_leader:
  assumes "1 \<le> n"
  obtains j t where "0 \<le> j" "j < n" "run_state (raftLeaderHost S tok (node_hosts c n) (ServerPort c)) s = (Inr (pod_host c j), t)"
proof -
  let ?ids = "sort (map fst (node_hosts c n))"
  have "set ?ids = {1..n}"
  proof -
    have "fst ` set (node_hosts c n) = (\<lambda>i. u64 (i + 1)) ` {0..<n}" by (simp add: node_hosts_def image_image)
    also have "\<dots> = (\<lambda>i. i + 1) ` {0..<n}" using size by (intro image_cong) (auto simp: in_i32_def)
    also have "\<dots> = {1..n}" using image_add_int_atLeastLessThan [of 1 "n + 1"] by (auto simp: add.commute)
    finally show ?thesis by simp
  qed
  moreover from this obtain i ids where "?ids = i # ids" using assms by (cases ?ids) auto
  moreover from this have "i \<in> set ?ids" by simp
  ultimately have ids: "?ids = i # ids" "1 \<le> i" "i \<le> n" by auto
  obtain info l t where l: "run_state (GetClusterLeader S tok (pod_host c (i - 1)) (ServerPort c)) s = (Inr info, t)"
    "LI_LeaderID info = Some l" "1 \<le> l" "l \<le> n" using leader [of "i - 1" s] ids by auto
  then have "run_state (raftLeaderHost S tok (node_hosts c n) (ServerPort c)) s = (Inr (pod_host c (l - 1)), t)"
    unfolding raftLeaderHost_def ids(1) by (simp add: node_hosts_known ids(2,3))
  with l show ?thesis by (intro that [of "l - 1"]) auto
qed

lemma run_removals:
  assumes "1 \<le> n"
  shows "\<exists>t. run_state (removeDepartedVoters S tok (node_hosts c n) (ServerPort c) ids) s = (Inr (), t)"
proof (induction ids arbitrary: s)
  case (Cons i ids)
  obtain j u where j: "0 \<le> j" "j < n"
    "run_state (raftLeaderHost S tok (node_hosts c n) (ServerPort c)) s = (Inr (pod_host c j), u)"
    using run_leader [OF assms] .
  obtain r v where "run_state (RemoveClusterNode S tok (pod_host c j) (ServerPort c) i) u = (Inr r, v)"
    using remove [OF j(1,2)] by blast
  with j Cons.IH [of v] show ?case by (auto simp: removeDepartedVoters_def attempt_def)
qed (simp add: removeDepartedVoters_def)

subsection \<open>A pass\<close>

abbreviation pass :: "int \<Rightarrow> 'w \<Rightarrow> 'w" where
  "pass \<equiv> scale_pass S tok c n tick"

definition total :: "int \<Rightarrow> 'w \<Rightarrow> nat" where
  "total desired w = (\<Sum>i\<in>{desired..<n}. rank w i)"

lemma hooks_pass:
  assumes "0 \<le> desired" "desired < n"
    and run: "run_state (runScaleDownClusterHooks S tok c n desired) s = (b, t)"
  shows "b \<longleftrightarrow> total desired (ext s) = 0"
    and "\<not> b \<Longrightarrow> onward (ext s) (ext t) \<and>
      (\<exists>i\<in>{desired..<n}. rank (ext s) i \<noteq> 0 \<and> state_of (ext t) i \<in> departing_states)"
proof -
  let ?tg = "EvacuateTogether (sys_semver S) c" and ?is = "ords_down n desired"
  define js where "js = surveyed (ext s) ?tg ?is"
  define found where "found = map (\<lambda>i. (view (ext s) i, pod_host c i)) js"
  have js: "set js \<subseteq> {desired..<n}" using surveyed_subset [of "ext s" ?tg ?is] by (simp add: js_def)
  have sub: "set ?is \<subseteq> {0..<n}" using assms by auto
  obtain u where u: "run_state (survey S tok c ?tg ?is) s = (found, u)" "ext u = ext s"
    unfolding found_def js_def using run_survey [OF sub, of ?tg s] by blast
  have fst_found: "map fst found = map (view (ext s)) js" by (simp add: found_def comp_def)
  have ev: "snd (departurePlan (map fst found) ?tg) \<longleftrightarrow> total desired (ext s) = 0"
  proof -
    have "snd (departurePlan (map fst found) ?tg) \<longleftrightarrow> (\<forall>i\<in>set ?is. \<not> gates (view (ext s) i))"
      unfolding fst_found departurePlan_def plan_from_evacuated by (simp only: js_def set_map ball_simps no_gating)
    then show ?thesis by (simp add: gates_view total_def)
  qed
  let ?tell = "fst (departurePlan (map fst found) ?tg)"
  obtain x v where v: "run_state (forEach ?tell (\<lambda>k. do { _ \<leftarrow> DecommissionNode S tok (snd (found ! k)) (ServerPort c); ret () })) u = (x, v)"
    by (rule runE)
  have host: "k < length js \<and> snd (found ! k) = pod_host c (js ! k) \<and> js ! k \<in> {0..<n}" if "k \<in> set ?tell" for k
  proof -
    have k: "k < length js" using plan_indices [OF that] by (simp add: found_def)
    then have "js ! k \<in> {desired..<n}" using js nth_mem by blast
    with k assms(1) show ?thesis by (simp add: found_def)
  qed
  have go: "onward (ext s) (ext v)"
    and departs: "\<And>k. k \<in> set ?tell \<Longrightarrow> state_of (ext v) (js ! k) \<in> departing_states"
    using run_tells [OF _ v] host unfolding u(2) by blast+
  show b: "b \<longleftrightarrow> total desired (ext s) = 0"
  proof (cases "total desired (ext s) = 0")
    case True
    obtain y where "run_state (removeDepartedVoters S tok (node_hosts c n) (ServerPort c)
        (map (\<lambda>i. u64 (i + 1)) ?is)) v = (Inr (), y)" using run_removals assms by fastforce
    with True ev run assms(1,2) u(1) v show ?thesis
      by (auto simp: runScaleDownClusterHooks_def Let_def case_prod_beta split: prod.splits)
  next
    case False
    with ev run assms(1,2) u(1) v show ?thesis
      by (auto simp: runScaleDownClusterHooks_def Let_def case_prod_beta)
  qed
  assume "\<not> b"
  then have "t = v" using b ev run assms(1,2) u(1) v
    by (auto simp: runScaleDownClusterHooks_def Let_def case_prod_beta)
  moreover have "\<exists>i\<in>set ?is. gates (view (ext s) i)" using \<open>\<not> b\<close> b by (auto simp: gates_view total_def)
  then obtain ys i zs where i: "js = ys @ i # zs" "i \<in> set ?is" "gates (view (ext s) i)"
    "\<forall>y\<in>set ys. \<not> gates (view (ext s) y)" unfolding js_def by (rule first_gating)
  have "state_of (ext v) i \<in> departing_states"
  proof (cases "untold (view (ext s) i)")
    case True
    have "length (map (view (ext s)) ys) \<in> set ?tell" unfolding fst_found i(1) map_append list.map(2)
      using i(4) True by (intro plan_tells_first) auto
    with departs [of "length ys"] i(1) show ?thesis by simp
  next
    case False
    then have "state_of (ext s) i \<in> departing_states" using i(3) by (auto simp: untold_def departing_states_def view_def)
    then show ?thesis using go by (simp add: onward_def)
  qed
  ultimately show "onward (ext s) (ext t) \<and> (\<exists>i\<in>{desired..<n}. rank (ext s) i \<noteq> 0 \<and> state_of (ext t) i \<in> departing_states)"
    using go i(2,3) by (auto simp: gates_view)
qed

lemma pass_total:
  assumes "0 \<le> desired" "desired < n" "total desired w \<noteq> 0"
  shows "total desired (pass desired w) < total desired w"
proof -
  obtain b t where run: "run_state (runScaleDownClusterHooks S tok c n desired) (start w) = (b, t)" by (rule runE)
  have w: "ext (start w) = w" by (simp add: start_def)
  note spec = hooks_pass [OF assms(1,2) run, unfolded w]
  then obtain i where i: "i \<in> {desired..<n}" "rank w i \<noteq> 0" "state_of (ext t) i \<in> departing_states"
    and go: "onward w (ext t)" using assms(3) by blast
  have le: "rank (tick (ext t)) j \<le> rank w j" for j using go tick_le [of "ext t" j] by (meson onward_def order_trans)
  have "rank (tick (ext t)) i < rank w i"
  proof (cases "state_of (ext t) i = nodeStateLeaving")
    case True
    then have "rank (tick (ext t)) i = 0" using tick_le [of "ext t" i] rank_0 [of "ext t" i] by simp
    with i(2) show ?thesis by simp
  next
    case False
    then have "rank (tick (ext t)) i < rank (ext t) i" using i(3) by (intro tick_less) (simp add: departing_states_def)
    then show ?thesis using go by (meson onward_def order_less_le_trans)
  qed
  then have "total desired (tick (ext t)) < total desired w"
    unfolding total_def using i(1) le by (intro sum_strict_mono_ex1) auto
  then show ?thesis by (simp add: scale_pass_def run)
qed

text \<open>The hooks succeed after at most as many passes as there is work, and exactly when none is left.\<close>

lemma hooks_complete:
  assumes "0 \<le> desired" "desired < n"
  shows "\<exists>k\<le>total desired w. fst (run_state (runScaleDownClusterHooks S tok c n desired) (start ((pass desired ^^ k) w)))"
proof (induction "total desired w" arbitrary: w rule: less_induct)
  case less
  show ?case
  proof (cases "total desired w = 0")
    case True
    obtain b t where run: "run_state (runScaleDownClusterHooks S tok c n desired) (start w) = (b, t)" by (rule runE)
    have "ext (start w) = w" by (simp add: start_def)
    with hooks_pass(1) [OF assms run] True show ?thesis by (intro exI [of _ 0]) (simp add: run)
  next
    case False
    note small = pass_total [OF assms this]
    from less [OF small] obtain k where "k \<le> total desired (pass desired w)"
      "fst (run_state (runScaleDownClusterHooks S tok c n desired) (start ((pass desired ^^ k) (pass desired w))))" by blast
    with small show ?thesis by (intro exI [of _ "Suc k"]) (simp add: funpow_swap1)
  qed
qed

end

section \<open>A database that evacuates\<close>

text \<open>
  Each node has some work; a node told to decommission does one unit between two passes and
  reports \<^verbatim>\<open>leaving\<close> when none is left. Node 1 leads. The Kubernetes API of this outside is empty.
\<close>

record db =
  db_told :: "int list"
  db_work :: "int \<Rightarrow> nat"

definition db_rank :: "db \<Rightarrow> int \<Rightarrow> nat" where
  "db_rank w i = (if i \<in> set (db_told w) then db_work w i else Suc (db_work w i))"

definition db_state :: "db \<Rightarrow> int \<Rightarrow> string" where
  "db_state w i =
     (if i \<notin> set (db_told w) then ''active'' else if db_work w i = 0 then nodeStateLeaving else nodeStateDecommissioning)"

definition db_tick :: "db \<Rightarrow> db" where
  "db_tick w = w\<lparr> db_work := (\<lambda>i. if i \<in> set (db_told w) then db_work w i - 1 else db_work w i) \<rparr>"

definition db_node :: "HyperbytedbCluster \<Rightarrow> int \<Rightarrow> string \<Rightarrow> http_req \<Rightarrow> int option" where
  "db_node c n path q = find (\<lambda>i. Req_URL q = endpoint (pod_host c i) (ServerPort c) path) (ords_up 0 n)"

definition db_http :: "HyperbytedbCluster \<Rightarrow> int \<Rightarrow> http_req \<Rightarrow> db \<Rightarrow> http_resp result \<times> db" where
  "db_http c n q w =
     (case db_node c n ''/health'' q of
        Some i \<Rightarrow> (Inr (ok_json [(''state'', json_string (db_state w i))]), w)
      | None \<Rightarrow>
          (case db_node c n ''/internal/decommission'' q of
             Some i \<Rightarrow> (Inr (ok_json []), w\<lparr> db_told := i # db_told w \<rparr>)
           | None \<Rightarrow>
               if db_node c n ''/cluster/leader'' q \<noteq> None then (Inr (ok_json [(''leader_id'', dec 1)]), w)
               else if db_node c n ''/cluster/membership/remove-node'' q \<noteq> None
               then (Inr (ok_json [(''removed_from_voters'', fmt_t True)]), w)
               else (Inl (PlainErr ''connection refused''), w)))"

definition no_api :: "('o \<Rightarrow> object_meta) \<Rightarrow> ('o, db) kind_api" where
  "no_api mt = mem_api mt (\<lambda>_. []) (\<lambda>_ w. w)"

definition db_sys :: "semver \<Rightarrow> HyperbytedbCluster \<Rightarrow> int \<Rightarrow> db sys" where
  "db_sys sv c n =
     \<lparr> sys_semver = sv, api_cluster = no_api Meta, api_backup = no_api BMeta, api_restore = no_api RMeta,
       api_sts = no_api Sts_Meta, api_pod = no_api Pod_Meta, api_pvc = no_api PVC_Meta, api_svc = no_api Svc_Meta,
       api_cm = no_api CM_Meta, api_secret = no_api Sec_Meta, api_pdb = no_api PDB_Meta, api_hpa = no_api HPA_Meta,
       api_dep = no_api Dep_Meta, api_sm = no_api SM_Meta, api_job = no_api Job_Meta, api_cron = no_api CJ_Meta,
       http_new_request = (\<lambda>_ _. None), http_round_trip = db_http c n,
       sys_now = (\<lambda>w. (0, w)), rand_read = (\<lambda>k w. (Inr (replicate k 7), w)),
       ecdsa_generate = (\<lambda>w. (Inr ''key'', w)), x509_create = (\<lambda>_ _ _ _ w. (Inr ''cert'', w)),
       x509_parse = Inr, x509_marshal_key = Inr, pem_encode = (\<lambda>ty b. ty @ b),
       set_owner = (\<lambda>owner m. Inr m), contains_finalizer = (\<lambda>m f. f \<in> set (Meta_Finalizers m)),
       add_finalizer = (\<lambda>f m. m), remove_finalizer = (\<lambda>f m. m), maps_equal = (\<lambda>_ _. True),
       set_condition = (\<lambda>cs k w. (cs, w)), remove_condition = ref_remove_condition \<rparr>"


lemma find_eq: "i \<in> set xs \<Longrightarrow> find (\<lambda>x. i = x) xs = Some i"
  by (induction xs) auto

lemma db_node_same: "0 \<le> i \<Longrightarrow> i < n \<Longrightarrow> Req_URL q = endpoint (pod_host c i) (ServerPort c) path \<Longrightarrow> db_node c n path q = Some i"
  by (simp add: db_node_def find_eq)

lemma db_node_other: "(\<And>h. endpoint h (ServerPort c) path \<noteq> Req_URL q) \<Longrightarrow> db_node c n path q = None"
  unfolding db_node_def find_None_iff by metis

lemma db_paths:
  "endpoint h p ''/health'' \<noteq> endpoint h' p ''/internal/decommission''"
  "endpoint h p ''/health'' \<noteq> endpoint h' p ''/cluster/leader''"
  "endpoint h p ''/health'' \<noteq> endpoint h' p ''/cluster/membership/remove-node''"
  "endpoint h p ''/internal/decommission'' \<noteq> endpoint h' p ''/cluster/leader''"
  "endpoint h p ''/internal/decommission'' \<noteq> endpoint h' p ''/cluster/membership/remove-node''"
  "endpoint h p ''/cluster/leader'' \<noteq> endpoint h' p ''/cluster/membership/remove-node''"
  by (rule notI, drule arg_cong [where f = rev], simp add: endpoint_def)+

lemma db_http_answers:
  assumes "0 \<le> i" "i < n"
  shows "Req_URL q = endpoint (pod_host c i) (ServerPort c) ''/health'' \<Longrightarrow>
      db_http c n q w = (Inr (ok_json [(''state'', json_string (db_state w i))]), w)"
    and "Req_URL q = endpoint (pod_host c i) (ServerPort c) ''/internal/decommission'' \<Longrightarrow>
      db_http c n q w = (Inr (ok_json []), w\<lparr> db_told := i # db_told w \<rparr>)"
    and "Req_URL q = endpoint (pod_host c i) (ServerPort c) ''/cluster/leader'' \<Longrightarrow>
      db_http c n q w = (Inr (ok_json [(''leader_id'', dec 1)]), w)"
    and "Req_URL q = endpoint (pod_host c i) (ServerPort c) ''/cluster/membership/remove-node'' \<Longrightarrow>
      db_http c n q w = (Inr (ok_json [(''removed_from_voters'', fmt_t True)]), w)"
  using assms by (simp_all add: db_http_def db_node_same db_node_other db_paths db_paths [symmetric])

lemma run_exchange_db:
  assumes "\<And>q. Req_URL q = u \<Longrightarrow> db_http c n q (ext s) = (Inr resp, w)"
  shows "\<exists>t. run_state (exchange (db_sys sv c n) tok m u b g) s = (g resp, t) \<and> ext t = w"
  using assms by (auto simp: exchange_def attempt_def sendE_def send_def RoundTrip_def db_sys_def call_def emit_def Let_def)

lemma db_decoded:
  "\<exists>h. health_of_response (ok_json [(''state'', json_string (db_state w i))]) = Inr h \<and> HS_State h = db_state w i"
  "\<exists>info. fetched ''cluster/leader'' ''decoding cluster leader'' set_LeaderInfo zero_LeaderInfo (ok_json [(''leader_id'', dec 1)])
     = Inr info \<and> LI_LeaderID info = Some 1"
  "\<exists>r. changed_member ''membership/remove-node'' ''decoding remove-node response'' set_RemoveNodeResponse
     zero_RemoveNodeResponse (ok_json [(''removed_from_voters'', fmt_t True)]) = Inr r"
proof -
  have "map_sum id HS_State (health_of_response (ok_json [(''state'', json_string ''active'')])) = Inr ''active''"
    "map_sum id HS_State (health_of_response (ok_json [(''state'', json_string ''leaving'')])) = Inr ''leaving''"
    "map_sum id HS_State (health_of_response (ok_json [(''state'', json_string ''decommissioning'')])) = Inr ''decommissioning''"
    by code_simp+
  moreover have "db_state w i \<in> {''active'', ''leaving'', ''decommissioning''}"
    by (simp add: db_state_def nodeStateLeaving_def nodeStateDecommissioning_def)
  ultimately have "map_sum id HS_State (health_of_response (ok_json [(''state'', json_string (db_state w i))])) = Inr (db_state w i)"
    by auto
  then show "\<exists>h. health_of_response (ok_json [(''state'', json_string (db_state w i))]) = Inr h \<and> HS_State h = db_state w i"
    by (cases "health_of_response (ok_json [(''state'', json_string (db_state w i))])") auto
  have "map_sum id LI_LeaderID (fetched ''cluster/leader'' ''decoding cluster leader'' set_LeaderInfo zero_LeaderInfo
      (ok_json [(''leader_id'', dec 1)])) = Inr (Some 1)" by code_simp
  then show "\<exists>info. fetched ''cluster/leader'' ''decoding cluster leader'' set_LeaderInfo zero_LeaderInfo (ok_json [(''leader_id'', dec 1)])
     = Inr info \<and> LI_LeaderID info = Some 1"
    by (cases "fetched ''cluster/leader'' ''decoding cluster leader'' set_LeaderInfo zero_LeaderInfo (ok_json [(''leader_id'', dec 1)])") auto
  have "isOk (changed_member ''membership/remove-node'' ''decoding remove-node response'' set_RemoveNodeResponse
     zero_RemoveNodeResponse (ok_json [(''removed_from_voters'', fmt_t True)]))" by code_simp
  then show "\<exists>r. changed_member ''membership/remove-node'' ''decoding remove-node response'' set_RemoveNodeResponse
     zero_RemoveNodeResponse (ok_json [(''removed_from_voters'', fmt_t True)]) = Inr r" by (simp add: isOk_iff)
qed

lemma db_evacuates:
  assumes "1 \<le> n" "in_i32 n"
  shows "evacuation (db_sys sv c n) tok c n db_state db_rank db_tick"
proof
  show "in_i32 n" by (rule assms)
next
  fix i s assume i: "0 \<le> i" "i < n"
  show "\<exists>h t. run_state (GetNodeHealth (db_sys sv c n) tok (pod_host c i) (ServerPort c)) s = (Inr h, t) \<and>
      HS_State h = db_state (ext s) i \<and> ext t = ext s"
    unfolding GetNodeHealth_def
    using run_exchange_db [OF db_http_answers(1) [OF i]] db_decoded(1) [of "ext s" i] by metis
next
  fix i and s t :: "db world" and r j
  assume i: "0 \<le> i" "i < n" and run: "run_state (DecommissionNode (db_sys sv c n) tok (pod_host c i) (ServerPort c)) s = (r, t)"
  have t: "ext t = (ext s)\<lparr> db_told := i # db_told (ext s) \<rparr>"
  proof -
    have "\<exists>t'. run_state (DecommissionNode (db_sys sv c n) tok (pod_host c i) (ServerPort c)) s
        = (accepted [200, 204, 202] ''decommission'' (ok_json []), t') \<and> ext t' = (ext s)\<lparr> db_told := i # db_told (ext s) \<rparr>"
      unfolding DecommissionNode_def by (rule run_exchange_db) (rule db_http_answers(2) [OF i])
    with run show ?thesis by auto
  qed
  show "db_state (ext t) i \<in> departing_states"
    by (simp add: t db_state_def departing_states_def)
  show "db_rank (ext t) j \<le> db_rank (ext s) j \<and> (db_state (ext s) j \<in> departing_states \<longrightarrow> db_state (ext t) j \<in> departing_states)"
    by (auto simp: t db_rank_def db_state_def departing_states_def nodeStateLeaving_def nodeStateDecommissioning_def)
next
  fix i s assume i: "0 \<le> i" "i < n"
  show "\<exists>info l t. run_state (GetClusterLeader (db_sys sv c n) tok (pod_host c i) (ServerPort c)) s = (Inr info, t) \<and>
      LI_LeaderID info = Some l \<and> 1 \<le> l \<and> l \<le> n"
  proof -
    obtain t where "run_state (GetClusterLeader (db_sys sv c n) tok (pod_host c i) (ServerPort c)) s
        = (fetched ''cluster/leader'' ''decoding cluster leader'' set_LeaderInfo zero_LeaderInfo (ok_json [(''leader_id'', dec 1)]), t)"
      unfolding GetClusterLeader_def using run_exchange_db [OF db_http_answers(3) [OF i]] by blast
    with db_decoded(2) assms(1) show ?thesis by auto
  qed
next
  fix i node s assume i: "0 \<le> i" "i < n"
  show "\<exists>r t. run_state (RemoveClusterNode (db_sys sv c n) tok (pod_host c i) (ServerPort c) node) s = (Inr r, t)"
  proof -
    obtain t where "run_state (RemoveClusterNode (db_sys sv c n) tok (pod_host c i) (ServerPort c) node) s
        = (changed_member ''membership/remove-node'' ''decoding remove-node response'' set_RemoveNodeResponse
             zero_RemoveNodeResponse (ok_json [(''removed_from_voters'', fmt_t True)]), t)"
      unfolding RemoveClusterNode_def using run_exchange_db [OF db_http_answers(4) [OF i]] by blast
    with db_decoded(3) show ?thesis by auto
  qed
next
  fix w i
  show "db_rank w i = 0 \<longleftrightarrow> db_state w i = nodeStateLeaving"
    by (simp add: db_rank_def db_state_def nodeStateLeaving_def nodeStateDecommissioning_def)
  show "db_rank (db_tick w) i \<le> db_rank w i" by (simp add: db_rank_def db_tick_def)
  show "db_state w i = nodeStateDecommissioning \<Longrightarrow> db_rank (db_tick w) i < db_rank w i"
    by (auto simp: db_rank_def db_tick_def db_state_def nodeStateLeaving_def nodeStateDecommissioning_def split: if_splits)
qed

interpretation db3: evacuation "db_sys sv c 3" tok c 3 db_state db_rank db_tick for sv c tok
  by (rule db_evacuates) (simp_all add: in_i32_def)

section \<open>Properties\<close>

text \<open>
  C4. A scale-down completes. When the nodes answer, a node that was told to decommission moves its
  data away between passes, and the Raft group has a leader that removes members, then a pass of
  the hooks lets the StatefulSet shrink exactly when every departing node reports \<^verbatim>\<open>leaving\<close>, and
  this happens after at most as many passes as the departing nodes have work, one at a time
  or together.
\<close>

theorem scale_down_completes:
  assumes "evacuation S tok c n state_of rank tick" "0 \<le> desired" "desired < n"
  shows "(fst (run_state (runScaleDownClusterHooks S tok c n desired) (start w)) \<longleftrightarrow>
       (\<forall>i\<in>{desired..<n}. state_of w i = ''leaving'')) \<and>
     (\<exists>k\<le>\<Sum>i\<in>{desired..<n}. rank w i.
        fst (run_state (runScaleDownClusterHooks S tok c n desired) (start ((scale_pass S tok c n tick desired ^^ k) w))))"
proof
  obtain b t where run: "run_state (runScaleDownClusterHooks S tok c n desired) (start w) = (b, t)" by (rule runE)
  have "ext (start w) = w" by (simp add: start_def)
  with evacuation.hooks_pass(1) [OF assms run] run
  show "fst (run_state (runScaleDownClusterHooks S tok c n desired) (start w)) \<longleftrightarrow>
       (\<forall>i\<in>{desired..<n}. state_of w i = ''leaving'')"
    by (simp add: evacuation.total_def [OF assms(1)] evacuation.rank_0 [OF assms(1)] nodeStateLeaving_def)
  show "\<exists>k\<le>\<Sum>i\<in>{desired..<n}. rank w i.
        fst (run_state (runScaleDownClusterHooks S tok c n desired) (start ((scale_pass S tok c n tick desired ^^ k) w)))"
    using evacuation.hooks_complete [OF assms, of w] unfolding evacuation.total_def [OF assms(1)] .
qed

text \<open>Three nodes with two units of work each, scaled down to one: at most six passes.\<close>

theorem scale_down_completes_witness:
  "\<exists>k\<le>6. fst (run_state (runScaleDownClusterHooks (db_sys semver_ref shrink_example 3) [] shrink_example 3 1)
     (start ((scale_pass (db_sys semver_ref shrink_example 3) [] shrink_example 3 db_tick 1 ^^ k) \<lparr> db_told = [], db_work = (\<lambda>_. 2) \<rparr>)))"
proof -
  have "{1..<3} = {1, 2 :: int}" by auto
  then have "(\<Sum>i\<in>{1..<3 :: int}. db_rank \<lparr> db_told = [], db_work = (\<lambda>_. 2) \<rparr> i) = 6" by (simp add: db_rank_def)
  then show ?thesis
    using scale_down_completes [OF db3.evacuation_axioms, of 1 semver_ref shrink_example "[]" "\<lparr> db_told = [], db_work = (\<lambda>_. 2) \<rparr>"]
    by auto
qed

end
