(* ===== verification/Rollout.thy ===== *)
theory Rollout
  imports Rolling_Restart Trace
begin

text \<open>
  Rolling restarts, continued: what lets the operator leave a pod behind in the waiting and the
  draining phase, and that a restart ends after a bounded number of phase changes.
\<close>

section \<open>Leaving a pod behind\<close>

text \<open>The replacement was read in this pass: ready, not terminating, at the update revision.\<close>

definition pod_back :: "HyperbytedbCluster \<Rightarrow> string \<Rightarrow> string \<Rightarrow> event list \<Rightarrow> bool" where
  "pod_back c podName upd pre \<longleftrightarrow>
     (\<exists>p. EvGet (nn_of c podName) (Inr (KPod p)) \<in> set pre \<and> isPodReady p \<and>
          Meta_DeletionTimestamp (Pod_Meta p) = None \<and> Pod_IP p \<noteq> [] \<and>
          (upd = [] \<or> mget (Meta_Labels (Pod_Meta p)) revisionLabel = upd))"

definition moved_on :: "RollingRestartState \<Rightarrow> RollingRestartState \<Rightarrow> bool" where
  "moved_on st st' \<longleftrightarrow>
     (if RR_CurrentOrdinal st \<le> 0 then RR_Phase st' = RollingRestartCompleted
      else RR_Phase st' = RollingRestartExcluding \<and> RR_CurrentOrdinal st' = RR_CurrentOrdinal st - 1 \<and>
           \<not> RR_ExcludeConfirmed st')"

definition waiting_write ::
  "HyperbytedbCluster \<Rightarrow> RollingRestartState \<Rightarrow> string \<Rightarrow> string \<Rightarrow> event list \<Rightarrow> event \<Rightarrow> bool" where
  "waiting_write c st podName upd pre e =
     (case e of
        EvStatus obj _ \<Rightarrow>
          (\<exists>d st'. obj = KCluster d \<and> rr_of d = Some st' \<and> moved_on st st' \<and> pod_back c podName upd pre)
      | EvGet _ _ \<Rightarrow> True | EvList _ _ \<Rightarrow> True | EvHttp _ _ \<Rightarrow> True | EvNoRequest _ _ _ \<Rightarrow> True | EvRecord _ _ _ \<Rightarrow> True
      | _ \<Rightarrow> False)"

definition only_asks :: "event \<Rightarrow> bool" where
  "only_asks e = (case e of EvList _ _ \<Rightarrow> True | EvHttp _ _ \<Rightarrow> True | EvNoRequest _ _ _ \<Rightarrow> True | _ \<Rightarrow> False)"

lemma only_asks_http: "http_to m u b e \<Longrightarrow> only_asks e"
  by (cases e) (simp_all add: only_asks_def)

lemma include_only_asks: "emits only_asks (includeFromAllProxies S tok c ip p)"
  unfolding includeFromAllProxies_def forEachRunningProxy_def
  by (intro emits_intro emits_proxy_client) (simp_all add: only_asks_http, simp add: only_asks_def)

lemma traces_commit [trace_intro]:
  "(\<And>e. R (c, Inl e) [EvStatus (KCluster c) (Some e)]) \<Longrightarrow> (\<And>c'. R (c', Inr reply) [EvStatus (KCluster c) None]) \<Longrightarrow>
   traces (commit S c reply) R"
  unfolding commit_def by (intro trace_intro) (auto simp: err_of_def)

lemma waiting_write_asks: "only_asks e \<Longrightarrow> waiting_write c st podName upd pre e"
  by (cases e) (simp_all add: only_asks_def waiting_write_def)

lemma waiting_write_simps [simp]:
  "waiting_write c st podName upd pre (EvGet k g)" "waiting_write c st podName upd pre (EvRecord ty rs m)"
  by (simp_all add: waiting_write_def)

lemma waiting_write_status:
  assumes "moved_on st st'" "pod_back c podName upd pre"
  shows "waiting_write c st podName upd (pre @ es) (EvStatus (KCluster (put_rr (Some st') d)) x)"
  using assms by (auto simp: waiting_write_def pod_back_def)

lemma waiting_each:
  "traces (rollingRestartWaitingReady S tok c st podName upd port requeue)
     (\<lambda>_. each (waiting_write c st podName upd) [])"
proof -
  have after: "traces (do {
       x \<leftarrow> includeFromAllProxies S tok c ip port;
       again \<leftarrow> (case x of Inl _ \<Rightarrow> do { now \<leftarrow> Now S; ret (f now) } | Inr _ \<Rightarrow> ret False);
       if again then ret a
       else do {
         (case x of Inl e \<Rightarrow> RecordEvent t1 r1 (m1 e) | Inr _ \<Rightarrow> RecordEvent t2 r2 m2);
         at \<leftarrow> Now S;
         if b then commit S (put_rr (Some (g at)) c) y else commit S (put_rr (Some (h at)) c) z } })
      (\<lambda>_ fs. each (waiting_write c st podName upd) pre fs)"
    if "pod_back c podName upd pre" "\<And>at. b \<Longrightarrow> moved_on st (g at)" "\<And>at. \<not> b \<Longrightarrow> moved_on st (h at)"
    for ip f t1 r1 m1 t2 r2 m2 b g h a y z pre
  proof (rule traces_bind [OF traces_emits [OF include_only_asks]])
    fix x :: "unit result" and es
    assume "list_all only_asks es"
    then have es: "each (waiting_write c st podName upd) pre es"
      by (rule each_list_all) (rule waiting_write_asks)
    show "traces (do {
         again \<leftarrow> (case x of Inl _ \<Rightarrow> do { now \<leftarrow> Now S; ret (f now) } | Inr _ \<Rightarrow> ret False);
         if again then ret a
         else do {
           (case x of Inl e \<Rightarrow> RecordEvent t1 r1 (m1 e) | Inr _ \<Rightarrow> RecordEvent t2 r2 m2);
           at \<leftarrow> Now S;
           if b then commit S (put_rr (Some (g at)) c) y else commit S (put_rr (Some (h at)) c) z } })
        (\<lambda>_ fs. each (waiting_write c st podName upd) pre (es @ fs))"
      using that es waiting_write_status [OF _ that(1)]
      by (cases x) (auto simp: State_Monad.bind_assoc State_Monad.bind_left_identity intro!: trace_intro)
  qed
  show ?thesis
    unfolding rollingRestartWaitingReady_def
  proof (intro trace_intro, goal_cases)
    case (6 g p)
    have ready: "pod_back c podName upd [EvGet (nn_of c podName) (Inr (KPod p))]"
      using 6 by (auto simp: pod_back_def)
    show ?case
      unfolding 6(1) map_sum.simps each.simps append_Nil
      using after [OF ready] by (simp add: moved_on_def)
  qed simp_all
qed

section \<open>What a pass waits for\<close>

text \<open>A proxy (or the API) refused: the only way the calls to the proxies fail.\<close>

definition refused :: "event \<Rightarrow> bool" where
  "refused e = (case e of EvList _ (Inl _) \<Rightarrow> True | EvNoRequest _ _ _ \<Rightarrow> True | EvHttp _ (Inl _) \<Rightarrow> True
     | EvHttp _ (Inr resp) \<Rightarrow> Resp_Status resp \<noteq> 200 | _ \<Rightarrow> False)"

definition fails_refused :: "('w, unit result) prog \<Rightarrow> bool" where
  "fails_refused m \<longleftrightarrow> traces m (\<lambda>r es. r \<noteq> Inr () \<longrightarrow> list_ex refused es)"

lemma send_refused: "traces (send S tok m u b) (\<lambda>r es. case r of Inl _ \<Rightarrow> list_ex refused es
    | Inr resp \<Rightarrow> Resp_Status resp \<noteq> 200 \<longrightarrow> list_ex refused es)"
proof (rule tracesI)
  fix s r t
  assume "run_state (send S tok m u b) s = (r, t)"
  then obtain e where e: "log t = log s @ [e]" "http_to m u b e" "map_sum snd id r = answer e" by (rule send_one)
  have "case r of Inl _ \<Rightarrow> refused e | Inr resp \<Rightarrow> Resp_Status resp \<noteq> 200 \<longrightarrow> refused e"
    using e(2,3) by (cases r; cases e) (auto simp: refused_def split: sum.splits)
  with e(1) show "\<exists>es. log t = log s @ es \<and> (case r of Inl _ \<Rightarrow> list_ex refused es
      | Inr resp \<Rightarrow> Resp_Status resp \<noteq> 200 \<longrightarrow> list_ex refused es)"
    by (intro exI [of _ "[e]"]) (auto split: sum.splits)
qed

lemma proxy_calls_refused:
  "fails_refused (ExcludeProxyBackend S tok h p ip)" "fails_refused (IncludeProxyBackend S tok h p ip)"
  unfolding fails_refused_def ExcludeProxyBackend_def IncludeProxyBackend_def
  by (rule traces_bind [OF send_refused]; auto split: sum.splits intro!: trace_intro)+

lemma forErr_refused: "(\<And>x. fails_refused (f x)) \<Longrightarrow> fails_refused (forErr xs f)"
  unfolding fails_refused_def
proof (induction xs)
  case (Cons x xs)
  show ?case
    unfolding forErr.simps
    by (rule traces_bind [OF Cons.prems])
      (auto intro!: trace_intro intro: traces_weaken [OF Cons.IH [OF Cons.prems]])
qed (simp add: traces_return)

lemma proxies_refused:
  "fails_refused (excludeFromAllProxies S tok c ip p)" "fails_refused (includeFromAllProxies S tok c ip p)"
proof -
  have all: "fails_refused (forEachRunningProxy S c sendTo)" if "\<And>p. fails_refused (sendTo p)" for sendTo
  proof -
    have wrap: "fails_refused (do { x \<leftarrow> sendTo q; ret (map_sum g id x) })" for q g
      unfolding fails_refused_def
      by (rule traces_bind [OF that [of q, unfolded fails_refused_def]]) (auto intro!: trace_intro split: sum.splits)
    have loop: "fails_refused (forErr pods (\<lambda>p. if \<not> proxyRunning p then ret (Inr ())
        else do { x \<leftarrow> sendTo p; ret (map_sum (WrapErr (''proxy pod '' @ Meta_Name (Pod_Meta p))) id x) }))" for pods
      by (rule forErr_refused) (simp add: wrap, simp add: fails_refused_def traces_return)
    show ?thesis
      unfolding fails_refused_def forEachRunningProxy_def
      by (intro trace_intro) (auto simp: refused_def intro: traces_weaken [OF loop [unfolded fails_refused_def]])
  qed
  show "fails_refused (excludeFromAllProxies S tok c ip p)" "fails_refused (includeFromAllProxies S tok c ip p)"
    unfolding excludeFromAllProxies_def includeFromAllProxies_def by (intro all proxy_calls_refused)+
qed

text \<open>
  The reasons for which a pass may leave the phase as it is: the pod of the current ordinal is not
  there yet (no address; not replaced, not ready or terminating), the drain wait is not over, or a
  proxy refused and the time allowed for it has not passed.
\<close>

definition clock_before :: "'w sys \<Rightarrow> time \<Rightarrow> bool" where
  "clock_before S at \<longleftrightarrow> (\<exists>w. fst (sys_now S w) < at)"

definition at_revision :: "string \<Rightarrow> pod \<Rightarrow> bool" where
  "at_revision upd p \<longleftrightarrow> mget (Meta_Labels (Pod_Meta p)) revisionLabel = upd"

definition waits :: "'w sys \<Rightarrow> HyperbytedbCluster \<Rightarrow> RollingRestartState \<Rightarrow> string \<Rightarrow> string \<Rightarrow> event list \<Rightarrow> bool" where
  "waits S c st podName upd es =
     (case RR_Phase st of
        RollingRestartExcluding \<Rightarrow>
          (\<exists>p. EvGet (nn_of c podName) (Inr (KPod p)) \<in> set es \<and> \<not> (upd \<noteq> [] \<and> at_revision upd p) \<and>
             (Pod_IP p = [] \<or> list_ex refused es \<and> clock_before S (RR_PhaseStartedAt st + proxyCallTimeout)))
      | RollingRestartDraining \<Rightarrow> clock_before S (RR_PhaseStartedAt st + drainWait c)
      | RollingRestartWaitingReady \<Rightarrow>
          (\<exists>e. EvGet (nn_of c podName) (Inl e) \<in> set es \<and> IsNotFound e) \<or>
          (\<exists>p. EvGet (nn_of c podName) (Inr (KPod p)) \<in> set es \<and>
             (upd \<noteq> [] \<and> \<not> at_revision upd p \<or> \<not> isPodReady p \<or> Meta_DeletionTimestamp (Pod_Meta p) \<noteq> None \<or> Pod_IP p = [] \<or>
              list_ex refused es \<and> clock_before S (RR_PhaseStartedAt st + (proxyCallTimeout + podRestartAllowance))))
      | _ \<Rightarrow> True)"

text \<open>The next phase was written and accepted.\<close>

definition advancing :: "RollingRestartState \<Rightarrow> event \<Rightarrow> bool" where
  "advancing st e =
     (case e of
        EvStatus (KCluster d) None \<Rightarrow> (case rr_of d of Some st' \<Rightarrow> RR_Phase st' \<noteq> RR_Phase st | None \<Rightarrow> False)
      | _ \<Rightarrow> False)"

abbreviation advanced :: "RollingRestartState \<Rightarrow> event list \<Rightarrow> bool" where
  "advanced st es \<equiv> list_ex (advancing st) es"

definition moves :: "'w sys \<Rightarrow> HyperbytedbCluster \<Rightarrow> RollingRestartState \<Rightarrow> string \<Rightarrow> string \<Rightarrow>
    HyperbytedbCluster \<times> int option result \<Rightarrow> event list \<Rightarrow> bool" where
  "moves S c st podName upd r es \<longleftrightarrow> (case snd r of Inl _ \<Rightarrow> True | Inr _ \<Rightarrow> advanced st es \<or> waits S c st podName upd es)"

lemma moves_error [simp]: "moves S c st podName upd (d, Inl e) es"
  by (simp add: moves_def)

lemma moves_advanced: "advanced st es \<Longrightarrow> moves S c st podName upd r es"
  by (cases "snd r") (auto simp: moves_def)

lemma moves_waits: "waits S c st podName upd es \<Longrightarrow> moves S c st podName upd r es"
  by (cases "snd r") (auto simp: moves_def)

lemma traces_release [trace_intro]:
  assumes "\<And>e es. R (put_rr (Some st) c, Inl e) es"
    and "\<And>now c' es. R (c', Inr (Some rq)) (es @ [EvStatus (KCluster (put_rr (Some (st\<lparr> RR_Phase := RollingRestartWaitingReady,
           RR_PhaseStartedAt := now \<rparr>)) c)) None])"
    and "\<And>d e es. R (d, Inl e) es"
  shows "traces (rollingRestartRelease S c st rq) R"
  unfolding rollingRestartRelease_def
proof (rule traces_bind [where Q = "\<lambda>_ _. True"])
  show "traces (releaseOrdinal S c (RR_CurrentOrdinal st)) (\<lambda>_ _. True)"
  proof (rule traces_weaken [OF traces_emits [of "\<lambda>_. True"]])
    show "emits (\<lambda>_. True) (releaseOrdinal S c (RR_CurrentOrdinal st))"
      unfolding releaseOrdinal_def by (intro emits_intro) simp_all
  qed simp
qed (intro trace_intro assms)

lemma traces_proxies:
  assumes "fails_refused m" "\<And>e es. list_ex refused es \<Longrightarrow> traces (f (Inl e)) (\<lambda>b fs. R b (es @ fs))"
    and "\<And>es. traces (f (Inr ())) (\<lambda>b fs. R b (es @ fs))"
  shows "traces (State_Monad.bind m f) R"
proof (rule traces_bind [OF assms(1) [unfolded fails_refused_def]])
  fix a :: "unit result" and es assume "a \<noteq> Inr () \<longrightarrow> list_ex refused es"
  then show "traces (f a) (\<lambda>b fs. R b (es @ fs))" using assms(2,3) by (cases a) auto
qed

lemma clock_beforeI: "fst (sys_now S w) - from < d \<Longrightarrow> clock_before S (from + d)"
  by (auto simp: clock_before_def intro!: exI [of _ w])

lemma excluding_moves:
  assumes "RR_Phase st = RollingRestartExcluding"
  shows "traces (rollingRestartExcluding S tok c st podName upd port rq) (moves S c st podName upd)"
  unfolding rollingRestartExcluding_def excluding_outcome_def
  by (intro trace_intro traces_proxies [OF proxies_refused(1)];
      (rule moves_error | rule moves_advanced, simp add: advancing_def assms; fail
       | rule moves_waits, auto simp: assms waits_def at_revision_def dest: clock_beforeI))

lemma draining_moves:
  assumes "RR_Phase st = RollingRestartDraining"
  shows "traces (rollingRestartDraining S c st podName rq) (moves S c st podName upd)"
  unfolding rollingRestartDraining_def Let_def
  by (intro trace_intro;
      (rule moves_error | rule moves_advanced, simp add: advancing_def assms; fail
       | rule moves_waits, auto simp: assms waits_def dest: clock_beforeI))

lemma waiting_moves:
  assumes "RR_Phase st = RollingRestartWaitingReady"
  shows "traces (rollingRestartWaitingReady S tok c st podName upd port rq) (moves S c st podName upd)"
  unfolding rollingRestartWaitingReady_def
  by (intro trace_intro traces_proxies [OF proxies_refused(2)];
      (simp only: sum.case State_Monad.bind_assoc State_Monad.bind_left_identity if_False)?;
      (intro trace_intro)?;
      (rule moves_error | rule moves_advanced, simp add: advancing_def assms; fail
       | rule moves_waits, auto simp: assms waits_def at_revision_def dest: clock_beforeI))

lemma phase_moves: "traces (rolling_phase S tok c st podName upd port) (moves S c st podName upd)"
  unfolding rolling_phase_def Let_def
  by (cases "RR_Phase st")
    (auto simp: excluding_moves draining_moves waiting_moves waits_def intro!: traces_return moves_waits)

section \<open>Termination\<close>

text \<open>Phase changes still ahead: three for each pod below the current one, and those of its own.\<close>

fun phase_rank :: "RollingRestartPhase \<Rightarrow> nat" where
  "phase_rank RollingRestartExcluding = 3"
| "phase_rank RollingRestartDraining = 2"
| "phase_rank RollingRestartWaitingReady = 1"
| "phase_rank _ = 0"

definition rr_rank :: "RollingRestartState \<Rightarrow> nat" where
  "rr_rank st = 3 * nat (RR_CurrentOrdinal st) + phase_rank (RR_Phase st)"

definition phase_change :: "int \<Rightarrow> RollingRestartState \<Rightarrow> RollingRestartState \<Rightarrow> bool" where
  "phase_change n st st' \<longleftrightarrow> rr_step n (Some st) (Some st') \<and> RR_Phase st' \<noteq> RR_Phase st"

lemma phase_change_rank: "phase_change n st st' \<Longrightarrow> rr_rank st' < rr_rank st"
  unfolding phase_change_def by (auto simp: rr_rank_def elim!: rr_step.cases)

lemma phase_changes_bounded: "((phase_change n) ^^ k) st st' \<Longrightarrow> k + rr_rank st' \<le> rr_rank st"
proof (induction k arbitrary: st')
  case (Suc k)
  then obtain u where "((phase_change n) ^^ k) st u" "phase_change n u st'" by auto
  with Suc.IH [of u] phase_change_rank show ?case by fastforce
qed simp

section \<open>Properties\<close>

text \<open>
  C10. Exclusion before restart, replacement before the next. In the excluding phase the operator
  records the exclusion as confirmed only if every running proxy pod it listed took the exclusion of
  the pod's address in that pass, and it lowers the partition only for a pod that is gone or already
  runs the update revision. In the waiting phase it
  moves to the next ordinal, or completes after ordinal 0, only after it read the pod in this pass
  as ready, not terminating, with an address and at the update revision, and it writes nothing
  else. In the draining phase it does nothing before the drain wait, at least a second, is over.
\<close>

theorem restart_phases_guarded:
  "(\<not> RR_ExcludeConfirmed st \<longrightarrow>
     (\<exists>es. log (snd (run_state (rollingRestartExcluding S tok c st podName upd port requeue) s)) = log s @ es \<and>
       (list_ex confirming es \<longrightarrow> (\<exists>ip. all_excluded c ip port es)) \<and>
       (list_ex lowering es \<longrightarrow> nothing_to_drain c podName upd es))) \<and>
   (\<exists>es. log (snd (run_state (rollingRestartWaitingReady S tok c st podName upd port requeue) s)) = log s @ es \<and>
      each (waiting_write c st podName upd) [] es) \<and>
   second \<le> drainWait c \<and>
   (fst (sys_now S (ext s)) - RR_PhaseStartedAt st < drainWait c \<longrightarrow>
      log (snd (run_state (rollingRestartDraining S c st podName requeue) s)) = log s \<and>
      (\<exists>d. fst (run_state (rollingRestartDraining S c st podName requeue) s) = (c, Inr (Some d)) \<and> second < d))"
proof (intro conjI impI)
  assume "\<not> RR_ExcludeConfirmed st"
  then show "\<exists>es. log (snd (run_state (rollingRestartExcluding S tok c st podName upd port requeue) s)) = log s @ es \<and>
       (list_ex confirming es \<longrightarrow> (\<exists>ip. all_excluded c ip port es)) \<and>
       (list_ex lowering es \<longrightarrow> nothing_to_drain c podName upd es)"
    using rollingRestartExcluding_cases by (metis prod.collapse)
next
  show "\<exists>es. log (snd (run_state (rollingRestartWaitingReady S tok c st podName upd port requeue) s)) = log s @ es \<and>
      each (waiting_write c st podName upd) [] es"
    using waiting_each [of S tok c st podName upd port requeue] unfolding traces_def by blast
  show "second \<le> drainWait c" by (simp add: drainWait_def second_def Let_def)
  assume "fst (sys_now S (ext s)) - RR_PhaseStartedAt st < drainWait c"
  then show "log (snd (run_state (rollingRestartDraining S c st podName requeue) s)) = log s"
    "\<exists>d. fst (run_state (rollingRestartDraining S c st podName requeue) s) = (c, Inr (Some d)) \<and> second < d"
    by (auto simp: rollingRestartDraining_def Now_def call_def Let_def split: prod.splits)
qed

theorem restart_phases_guarded_witness:
  "(\<exists>es. log (snd (run_state (rollingRestartExcluding (sim_sys plain_semver) [] (rollout_example (Some (new_rr 1 0)))
         (new_rr 1 0) ''t-0'' ''b'' 8087 3) (start exclude_sim))) = es \<and>
     list_ex confirming es \<and> (\<exists>ip. all_excluded (rollout_example (Some (new_rr 1 0))) ip 8087 es)) \<and>
   (\<exists>d. fst (run_state (rollingRestartDraining (sim_sys plain_semver) (new_cluster ''t'' ''p'') (new_rr 1 0) ''t-0'' 3) (start sim_empty))
     = (new_cluster ''t'' ''p'', Inr (Some d)) \<and> second < d)"
proof
  let ?run = "run_state (rollingRestartExcluding (sim_sys plain_semver) [] (rollout_example (Some (new_rr 1 0)))
         (new_rr 1 0) ''t-0'' ''b'' 8087 3) (start exclude_sim)"
  have u: "\<not> RR_ExcludeConfirmed (new_rr 1 0)" by (simp add: new_rr_def)
  have "list_ex confirming (log (snd ?run))" by code_simp
  with u restart_phases_guarded [of "new_rr 1 0" "sim_sys plain_semver" "[]" "rollout_example (Some (new_rr 1 0))" "''t-0''" "''b''" 8087 3 "start exclude_sim"]
  show "\<exists>es. log (snd ?run) = es \<and> list_ex confirming es \<and> (\<exists>ip. all_excluded (rollout_example (Some (new_rr 1 0))) ip 8087 es)"
    by (auto simp: start_def)
  have "fst (sys_now (sim_sys plain_semver) (ext (start sim_empty))) - RR_PhaseStartedAt (new_rr 1 0)
      < drainWait (new_cluster ''t'' ''p'')" by code_simp
  then show "\<exists>d. fst (run_state (rollingRestartDraining (sim_sys plain_semver) (new_cluster ''t'' ''p'') (new_rr 1 0) ''t-0'' 3) (start sim_empty))
     = (new_cluster ''t'' ''p'', Inr (Some d)) \<and> second < d"
    using restart_phases_guarded [of "new_rr 1 0" "sim_sys plain_semver" "[]" "new_cluster ''t'' ''p''" "''t-0''" "[]" 1 3 "start sim_empty"]
    by blast
qed



end
