(* ===== verification/Webhook.thy ===== *)
theory Webhook
  imports Config
begin

text \<open>
  The admission webhook, \<^verbatim>\<open>api/v1alpha1/hyperbytedbcluster_webhook.go\<close>: defaulting of a
  HyperbytedbCluster and its validation, with the warning and every rejection of the code.
  The lemmas give the exact set of accepted specs and show that defaulting is idempotent
  and never turns an acceptable spec into a rejected one.
\<close>

section \<open>Defaulting\<close>

definition Default :: "HyperbytedbCluster \<Rightarrow> HyperbytedbCluster" where
  "Default obj =
     (let s = Spec obj;
          sv = Spec_Server s; st = Spec_Storage s; lg = Spec_Logging s; re = Spec_Retention s
      in obj\<lparr> Spec := s\<lparr>
           Spec_Replicas := (if Spec_Replicas s = None then Some 1 else Spec_Replicas s),
           Spec_Server := (if Server_Port sv = 0 then sv\<lparr> Server_Port := 8086 \<rparr> else sv),
           Spec_Storage := (if Storage_VolumeClaimTemplate st = None
              then st\<lparr> Storage_VolumeClaimTemplate :=
                     Some \<lparr> VCT_StorageClassName = None, VCT_Size = 10 * 2 ^ 30 \<rparr> \<rparr> else st),
           Spec_Logging := \<lparr> Logging_Level = (if Logging_Level lg = [] then ''info'' else Logging_Level lg),
              Logging_Format = (if Logging_Format lg = [] then ''text'' else Logging_Format lg) \<rparr>,
           Spec_Failover := (if Spec_Failover s = None
              then Some \<lparr> Fail_Enabled = True, Fail_MaxFailoverCount = 1, Fail_FailoverTimeoutSecs = 300 \<rparr>
              else Spec_Failover s),
           Spec_Retention := (if Ret_Interval re = [] then re\<lparr> Ret_Interval := ''60s'' \<rparr> else re),
           Spec_Proxy := (if Spec_Proxy s = None then Some (zero_ProxySpec\<lparr> Proxy_Enabled := True \<rparr>)
              else Spec_Proxy s) \<rparr> \<rparr>)"

section \<open>Validation\<close>

definition validateSharding :: "HyperbytedbCluster \<Rightarrow> unit result" where
  "validateSharding c =
     (case Spec_Sharding (Spec c) of
        None \<Rightarrow> Inr ()
      | Some s \<Rightarrow>
          if Shard_RegionMergeSeries s > 0 \<and> Shard_RegionSplitSeries s > 0 \<and>
             Shard_RegionMergeSeries s \<ge> Shard_RegionSplitSeries s
          then Inl (PlainErr (''sharding.regionMergeSeries ('' @ dec (Shard_RegionMergeSeries s)
                 @ '') must be < regionSplitSeries ('' @ dec (Shard_RegionSplitSeries s) @ '')''))
          else if Shard_RegionSplitSeries s > 0 \<and> Shard_RegionMaxSeries s > 0 \<and>
             Shard_RegionSplitSeries s \<ge> Shard_RegionMaxSeries s
          then Inl (PlainErr (''sharding.regionSplitSeries ('' @ dec (Shard_RegionSplitSeries s)
                 @ '') must be < regionMaxSeries ('' @ dec (Shard_RegionMaxSeries s) @ '')''))
          else Inr ())"

definition validateAutoscaling :: "AutoscalingSpec option \<Rightarrow> unit result" where
  "validateAutoscaling a =
     (case a of
        None \<Rightarrow> Inr ()
      | Some h \<Rightarrow>
          if \<not> AS_Enabled h then Inr ()
          else if AS_MaxReplicas h < 1
          then Inl (PlainErr ''autoscaling.maxReplicas must be at least 1'')
          else if AS_MinReplicas h > AS_MaxReplicas h
          then Inl (PlainErr (''autoscaling.minReplicas ('' @ dec (AS_MinReplicas h)
                 @ '') must be <= maxReplicas ('' @ dec (AS_MaxReplicas h) @ '')''))
          else Inr ())"

definition validateFailover :: "FailoverSpec option \<Rightarrow> unit result" where
  "validateFailover f =
     (case f of
        None \<Rightarrow> Inr ()
      | Some h \<Rightarrow>
          if \<not> Fail_Enabled h then Inr ()
          else if Fail_FailoverTimeoutSecs h > 0 \<and> Fail_FailoverTimeoutSecs h < 60
          then Inl (PlainErr (''failover.failoverTimeoutSecs must be at least 60, got ''
                 @ dec (Fail_FailoverTimeoutSecs h)))
          else if Fail_MaxFailoverCount h < 1
          then Inl (PlainErr ''failover.maxFailoverCount must be at least 1'')
          else Inr ())"

definition validateTLS :: "TLSSpec option \<Rightarrow> unit result" where
  "validateTLS t =
     (case t of
        None \<Rightarrow> Inr ()
      | Some h \<Rightarrow>
          if \<not> TLS_Enabled h then Inr ()
          else case TLS_CertManagerIssuerRef h of
             None \<Rightarrow> Inr ()
           | Some ref \<Rightarrow>
               if Ref_Name ref = []
               then Inl (PlainErr ''server.tls.certManagerIssuerRef.name must not be empty'')
               else if Ref_Kind ref \<noteq> ''Issuer'' \<and> Ref_Kind ref \<noteq> ''ClusterIssuer''
               then Inl (PlainErr (''server.tls.certManagerIssuerRef.kind must be '' @ [CHR 0x27] @ ''Issuer''
                      @ [CHR 0x27] @ '' or '' @ [CHR 0x27] @ ''ClusterIssuer'' @ [CHR 0x27]))
               else Inr ())"

text \<open>
  The four blocks of \<^verbatim>\<open>validateCluster\<close> that test one optional part of the spec each are
  the functions above; it returns the warnings together with the error.
\<close>

definition validateCluster :: "HyperbytedbCluster \<Rightarrow> string list \<times> unit result" where
  "validateCluster c =
     (let replicas = replicas_of c; port = Server_Port (Spec_Server (Spec c))
      in if replicas < 1
         then ([], Inl (PlainErr (''replicas must be at least 1, got '' @ dec replicas)))
         else if port \<noteq> 0 \<and> (port < 1 \<or> port > 65535)
         then ([], Inl (PlainErr (''server port must be between 1 and 65535, got '' @ dec port)))
         else case validateAutoscaling (Spec_Autoscaling (Spec c)) of Inl e \<Rightarrow> ([], Inl e) | Inr _ \<Rightarrow>
              case validateFailover (Spec_Failover (Spec c)) of Inl e \<Rightarrow> ([], Inl e) | Inr _ \<Rightarrow>
              case validateTLS (Server_TLS (Spec_Server (Spec c))) of Inl e \<Rightarrow> ([], Inl e) | Inr _ \<Rightarrow>
              ((if replicas = 2
                then [''2-node clusters cannot tolerate any node failure; consider 3+ replicas''] else []),
               validateSharding c))"

definition ValidateCreate :: "HyperbytedbCluster \<Rightarrow> string list \<times> unit result" where
  "ValidateCreate obj = validateCluster obj"

definition ValidateUpdate :: "HyperbytedbCluster \<Rightarrow> HyperbytedbCluster \<Rightarrow> string list \<times> unit result" where
  "ValidateUpdate old newObj = validateCluster newObj"

definition ValidateDelete :: "HyperbytedbCluster \<Rightarrow> string list \<times> unit result" where
  "ValidateDelete obj = ([], Inr ())"

section \<open>What is accepted\<close>

text \<open>The specification of an admissible cluster, independent of the order of the tests.\<close>

definition admissible :: "HyperbytedbCluster \<Rightarrow> bool" where
  "admissible c \<longleftrightarrow>
     1 \<le> replicas_of c \<and>
     0 \<le> Server_Port (Spec_Server (Spec c)) \<and> Server_Port (Spec_Server (Spec c)) \<le> 65535 \<and>
     (\<forall>a. Spec_Autoscaling (Spec c) = Some a \<and> AS_Enabled a \<longrightarrow>
        1 \<le> AS_MaxReplicas a \<and> AS_MinReplicas a \<le> AS_MaxReplicas a) \<and>
     (\<forall>f. Spec_Failover (Spec c) = Some f \<and> Fail_Enabled f \<longrightarrow>
        (Fail_FailoverTimeoutSecs f \<le> 0 \<or> 60 \<le> Fail_FailoverTimeoutSecs f) \<and> 1 \<le> Fail_MaxFailoverCount f) \<and>
     (\<forall>t r. Server_TLS (Spec_Server (Spec c)) = Some t \<and> TLS_Enabled t \<and>
        TLS_CertManagerIssuerRef t = Some r \<longrightarrow>
        Ref_Name r \<noteq> [] \<and> (Ref_Kind r = ''Issuer'' \<or> Ref_Kind r = ''ClusterIssuer'')) \<and>
     (\<forall>s. Spec_Sharding (Spec c) = Some s \<longrightarrow>
        (Shard_RegionMergeSeries s > 0 \<and> Shard_RegionSplitSeries s > 0 \<longrightarrow>
           Shard_RegionMergeSeries s < Shard_RegionSplitSeries s) \<and>
        (Shard_RegionSplitSeries s > 0 \<and> Shard_RegionMaxSeries s > 0 \<longrightarrow>
           Shard_RegionSplitSeries s < Shard_RegionMaxSeries s))"

lemma validate_parts_iff:
  "isOk (validateAutoscaling a) \<longleftrightarrow>
     (\<forall>h. a = Some h \<and> AS_Enabled h \<longrightarrow> 1 \<le> AS_MaxReplicas h \<and> AS_MinReplicas h \<le> AS_MaxReplicas h)"
  "isOk (validateFailover f) \<longleftrightarrow>
     (\<forall>h. f = Some h \<and> Fail_Enabled h \<longrightarrow>
        (Fail_FailoverTimeoutSecs h \<le> 0 \<or> 60 \<le> Fail_FailoverTimeoutSecs h) \<and> 1 \<le> Fail_MaxFailoverCount h)"
  "isOk (validateTLS t) \<longleftrightarrow>
     (\<forall>h r. t = Some h \<and> TLS_Enabled h \<and> TLS_CertManagerIssuerRef h = Some r \<longrightarrow>
        Ref_Name r \<noteq> [] \<and> (Ref_Kind r = ''Issuer'' \<or> Ref_Kind r = ''ClusterIssuer''))"
  "isOk (validateSharding c) \<longleftrightarrow>
     (\<forall>s. Spec_Sharding (Spec c) = Some s \<longrightarrow>
        (Shard_RegionMergeSeries s > 0 \<and> Shard_RegionSplitSeries s > 0 \<longrightarrow>
           Shard_RegionMergeSeries s < Shard_RegionSplitSeries s) \<and>
        (Shard_RegionSplitSeries s > 0 \<and> Shard_RegionMaxSeries s > 0 \<longrightarrow>
           Shard_RegionSplitSeries s < Shard_RegionMaxSeries s))"
  unfolding validateAutoscaling_def validateFailover_def validateTLS_def validateSharding_def
  by (auto split: option.splits)

lemma isOk_unit: "isOk r \<longleftrightarrow> r = Inr ()"
  by (cases r) auto

lemma validateCluster_iff: "isOk (snd (validateCluster c)) \<longleftrightarrow> admissible c"
proof -
  have "isOk (snd (validateCluster c)) \<longleftrightarrow>
      1 \<le> replicas_of c \<and> 0 \<le> Server_Port (Spec_Server (Spec c)) \<and> Server_Port (Spec_Server (Spec c)) \<le> 65535 \<and>
      isOk (validateAutoscaling (Spec_Autoscaling (Spec c))) \<and> isOk (validateFailover (Spec_Failover (Spec c))) \<and>
      isOk (validateTLS (Server_TLS (Spec_Server (Spec c)))) \<and> isOk (validateSharding c)"
    unfolding validateCluster_def Let_def
    by (auto simp: isOk_unit split: if_splits sum.splits)
  then show ?thesis unfolding validate_parts_iff admissible_def .
qed

section \<open>What defaulting changes\<close>

lemma Default_simps [simp]:
  "Meta (Default c) = Meta c" "Status (Default c) = Status c"
  "replicas_of (Default c) = replicas_of c"
  "Spec_Image (Spec (Default c)) = Spec_Image (Spec c)"
  "Spec_Version (Spec (Default c)) = Spec_Version (Spec c)"
  "Spec_Autoscaling (Spec (Default c)) = Spec_Autoscaling (Spec c)"
  "Spec_Sharding (Spec (Default c)) = Spec_Sharding (Spec c)"
  "Spec_Cluster (Spec (Default c)) = Spec_Cluster (Spec c)"
  "Spec_ChDB (Spec (Default c)) = Spec_ChDB (Spec c)"
  "Spec_Flush (Spec (Default c)) = Spec_Flush (Spec c)"
  "Spec_Auth (Spec (Default c)) = Spec_Auth (Spec c)"
  "Server_TLS (Spec_Server (Spec (Default c))) = Server_TLS (Spec_Server (Spec c))"
  "Server_Port (Spec_Server (Spec (Default c))) =
     (if Server_Port (Spec_Server (Spec c)) = 0 then 8086 else Server_Port (Spec_Server (Spec c)))"
  "Ret_Interval (Spec_Retention (Spec (Default c))) = str_or (Ret_Interval (Spec_Retention (Spec c))) ''60s''"
  "ProxyEnabled (Default c) = ProxyEnabled c"
  by (auto simp: Default_def Let_def replicas_of_def str_or_def ProxyEnabled_def zero_ProxySpec_def
      split: option.split)

lemma Default_ports:
  "ServerPort (Default c) = ServerPort c" "ControlPort (Default c) = ControlPort c"
  "proxyPort (Default c) = proxyPort c" "ResolveHyperbytedbImage (Default c) = ResolveHyperbytedbImage c"
  by (auto simp: ServerPort_def ControlPort_def proxyPort_def ResolveHyperbytedbImage_def Default_def
      Let_def zero_ProxySpec_def split: option.split)

lemma Default_idem: "Default (Default c) = Default c"
  by (simp add: Default_def Let_def)

lemma Default_admissible: "admissible c \<Longrightarrow> admissible (Default c)"
proof -
  assume c: "admissible c"
  have "Spec_Failover (Spec (Default c)) = Some f \<Longrightarrow>
      Spec_Failover (Spec c) = Some f \<or> (Fail_MaxFailoverCount f = 1 \<and> Fail_FailoverTimeoutSecs f = 300)" for f
    by (auto simp: Default_def Let_def split: if_splits)
  with c show ?thesis unfolding admissible_def by fastforce
qed

lemma Default_supports [simp]: "Supports sv (Default c) cap = Supports sv c cap"
  "ControlListenerEnabled sv (Default c) b = ControlListenerEnabled sv c b"
  by (simp_all add: Supports_def ControlListenerEnabled_def ResolveDatabaseVersion_def Default_ports)

lemma Default_config_sections:
  "writeServerSection (Spec (Default c)) = writeServerSection (Spec c)"
  "writeStorageSection (Spec (Default c)) = writeStorageSection (Spec c)"
  "writeFlushSection (Spec (Default c)) = writeFlushSection (Spec c)"
  "writeChdbSection sv (Default c) = writeChdbSection sv c"
  "writeAuthSection (Spec (Default c)) = writeAuthSection (Spec c)"
  "writeCardinalitySection (Spec (Default c)) = writeCardinalitySection (Spec c)"
  "writeLoggingSection (Spec (Default c)) = writeLoggingSection (Spec c)"
  "writeStatementSummarySection (Spec (Default c)) = writeStatementSummarySection (Spec c)"
  "writeHintedHandoffSection (Spec (Default c)) = writeHintedHandoffSection (Spec c)"
  "writeRateLimitSection (Spec (Default c)) = writeRateLimitSection (Spec c)"
  "writeClusterSection sv (Default c) b = writeClusterSection sv c b"
  "writeShardingSection sv (Default c) = writeShardingSection sv c"
proof -
  show "writeChdbSection sv (Default c) = writeChdbSection sv c"
    "writeClusterSection sv (Default c) b = writeClusterSection sv c b"
    "writeShardingSection sv (Default c) = writeShardingSection sv c"
    unfolding writeChdbSection_def writeClusterSection_def writeShardingSection_def
      Default_supports Default_simps Default_ports by (rule refl)+
qed (simp_all add: writeServerSection_def writeStorageSection_def writeFlushSection_def writeAuthSection_def
    writeCardinalitySection_def writeLoggingSection_def writeStatementSummarySection_def
    writeHintedHandoffSection_def writeRateLimitSection_def Default_def Let_def pos_or_def str_or_def)

lemma config_lines_Default:
  "config_lines sv (Default c) b = config_lines sv c b \<longleftrightarrow> Ret_Interval (Spec_Retention (Spec c)) \<noteq> []"
proof -
  have "writeRetentionSection (Spec (Default c)) = writeRetentionSection (Spec c) \<longleftrightarrow>
      Ret_Interval (Spec_Retention (Spec c)) \<noteq> []"
    by (simp add: writeRetentionSection_def Default_def Let_def str_or_def)
  then show ?thesis
    unfolding config_lines_def Let_def Default_config_sections by simp
qed

section \<open>Properties\<close>

text \<open>
  C36. The validating webhook accepts a create or an update exactly when the new object is
  admissible: at least one replica, a port in range, consistent autoscaling, failover, TLS
  issuer and region sizes; every other object is rejected with an error. A deletion is
  always allowed.
\<close>

theorem webhook_accepts_admissible:
  "(isOk (snd (ValidateCreate c)) \<longleftrightarrow> admissible c) \<and>
   (isOk (snd (ValidateUpdate old c)) \<longleftrightarrow> admissible c) \<and>
   isOk (snd (ValidateDelete c)) \<and>
   (replicas_of c = 2 \<and> admissible c \<longleftrightarrow> fst (validateCluster c) \<noteq> [] \<and> isOk (snd (validateCluster c)))"
proof -
  have "isOk (snd (validateCluster c)) \<Longrightarrow> fst (validateCluster c) \<noteq> [] \<longleftrightarrow> replicas_of c = 2"
    by (auto simp: validateCluster_def Let_def split: if_splits sum.splits)
  then show ?thesis
    using validateCluster_iff by (auto simp: ValidateCreate_def ValidateUpdate_def ValidateDelete_def)
qed



end
