(* ===== verification/Client_Facts.thy ===== *)
theory Client_Facts
  imports Node_Client Config
begin

text \<open>
  The reader and the writer of JSON: the fuel of the reader is always enough, and the requests the
  node client sends read back to the values it was given.
\<close>

section \<open>The fuel of the reader\<close>

lemma skip_ws_length: "length (skip_ws s) \<le> length s"
  by (simp add: skip_ws_def length_dropWhile_le)

lemma skip_ws_Cons_length: "skip_ws s = c # r \<Longrightarrow> length r < length s"
  using skip_ws_length [of s] by simp

lemma hex4_length: "hex4 s = Some (n, r) \<Longrightarrow> length r < length s"
  by (induction s rule: hex4.induct) (auto split: option.splits)

lemma unescape_u_length: "unescape_u s = Some (u, r) \<Longrightarrow> length r < length s"
  by (auto simp: unescape_u_def split: option.splits list.splits if_splits prod.splits dest!: hex4_length)

lemma parse_string_length: "parse_string f s = Some (t, r) \<Longrightarrow> length r < length s"
proof (induction f s arbitrary: t r rule: parse_string.induct)
  case (1 f c s)
  then show ?case
    by (auto split: if_splits list.splits option.splits dest!: unescape_u_length)
      (meson less_SucI less_trans)+
qed simp_all

lemma if_None_Some: "(if b then None else Some x) = Some y \<longleftrightarrow> \<not> b \<and> x = y"
  by simp

lemma parse_number_length: "parse_number s = Some (n, r) \<Longrightarrow> length r < length s"
proof -
  assume p: "parse_number s = Some (n, r)"
  define s1 where "s1 = drop (length (if has_prefix s ''-'' then ''-'' else [])) s"
  define ip where "ip = (if has_prefix s1 ''0'' then ''0'' else digits_of s1)"
  have "ip \<noteq> []" "\<exists>k l. r = drop k (drop l (drop (length ip) s1))"
    using p unfolding parse_number_def Let_def if_None_Some prod.inject de_Morgan_disj ip_def s1_def by blast+
  then have "length r \<le> length (drop (length ip) s1)" by auto
  also have "\<dots> < length s1" using \<open>ip \<noteq> []\<close> by (cases s1) (auto simp: ip_def digits_of_def)
  also have "length s1 \<le> length s" by (simp add: s1_def)
  finally show ?thesis .
qed

lemma parse_length:
  "parse_json f s = Some (v, r) \<Longrightarrow> length r < length s"
  "parse_elems f s = Some (vs, r) \<Longrightarrow> length r < length s"
  "parse_members f s = Some (ms, r) \<Longrightarrow> length r < length s"
proof (induction f s and f s and f s arbitrary: v r and vs r and ms r rule: parse_json_parse_elems_parse_members.induct)
  case (2 f s)
  obtain c s' where s': "skip_ws s = c # s'" using 2 by (auto split: list.splits)
  have "length (tl (skip_ws s')) \<le> length s'" using skip_ws_length [of s'] by simp
  moreover have "length s' < length s" using s' by (rule skip_ws_Cons_length)
  ultimately show ?case using 2 s'
    by (auto split: if_splits dest!: parse_string_length parse_number_length)
      (meson less_trans)+
next
  case (4 f s)
  then show ?case
    by (fastforce split: option.splits list.splits if_splits dest: skip_ws_Cons_length)
next
  case (6 f s)
  then show ?case
    by (fastforce split: option.splits list.splits if_splits dest: skip_ws_Cons_length parse_string_length)
qed simp_all

declare parse_json.simps(2) [simp del] parse_elems.simps(2) [simp del] parse_members.simps(2) [simp del]

text \<open>One more unit of fuel changes nothing once there are two for each byte.\<close>

lemma fuel_step:
  "2 * length s + 2 \<le> f \<Longrightarrow> parse_json (Suc f) s = parse_json f s"
  "2 * length s + 3 \<le> f \<Longrightarrow> parse_elems (Suc f) s = parse_elems f s"
  "2 * length s + 3 \<le> f \<Longrightarrow> parse_members (Suc f) s = parse_members f s"
proof (induction f arbitrary: s)
  case (Suc f)
  note IH = Suc.IH
  {
    case 1
    then have "parse_members (Suc f) r = parse_members f r" "parse_elems (Suc f) r = parse_elems f r"
      if "skip_ws s = c # r" for c r
      using skip_ws_Cons_length [OF that] by (auto intro!: IH)
    then show ?case unfolding parse_json.simps(2) [of "Suc f"] parse_json.simps(2) [of f] by (auto split: list.split)
  next
    case 2
    then have j: "parse_json (Suc f) s = parse_json f s" by (auto intro: IH)
    have "parse_elems (Suc f) r' = parse_elems f r'" if "parse_json f s = Some (v, r)" "skip_ws r = c # r'" for v r c r'
      using 2 parse_length(1) [OF that(1)] skip_ws_Cons_length [OF that(2)] by (auto intro!: IH)
    then show ?case unfolding parse_elems.simps(2) [of "Suc f"] parse_elems.simps(2) [of f] j by (auto split: option.split list.split)
  next
    case 3
    have "parse_json (Suc f) s3 = parse_json f s3"
      if "skip_ws s = q # s1" "parse_string (length s1 + 1) s1 = Some (k, s2)" "skip_ws s2 = col # s3" for q s1 k s2 col s3
      using 3 skip_ws_Cons_length [OF that(1)] parse_string_length [OF that(2)] skip_ws_Cons_length [OF that(3)]
      by (auto intro!: IH)
    moreover have "parse_members (Suc f) r' = parse_members f r'"
      if "skip_ws s = q # s1" "parse_string (length s1 + 1) s1 = Some (k, s2)" "skip_ws s2 = col # s3"
        "parse_json f s3 = Some (v, r)" "skip_ws r = c # r'" for q s1 k s2 col s3 v r c r'
      using 3 skip_ws_Cons_length [OF that(1)] parse_string_length [OF that(2)] skip_ws_Cons_length [OF that(3)]
        parse_length(1) [OF that(4)] skip_ws_Cons_length [OF that(5)]
      by (auto intro!: IH)
    ultimately show ?case unfolding parse_members.simps(2) [of "Suc f"] parse_members.simps(2) [of f] by (auto split: option.split list.split)
  }
qed simp_all

theorem parse_json_fuel: "2 * length s + 2 \<le> f \<Longrightarrow> parse_json f s = parse_json (2 * length s + 2) s"
  by (induction f rule: nat_induct_at_least) (simp_all add: fuel_step(1))

section \<open>Reading back what is written\<close>

subsection \<open>Strings\<close>

definition hex_digit :: "nat \<Rightarrow> char" where
  "hex_digit k = (if k < 10 then char_of (48 + k) else char_of (87 + k))"

lemma hex_val_digit: "k < 16 \<Longrightarrow> hex_val (hex_digit k) = Some k"
  by (auto simp: hex_val_def hex_digit_def)

lemma unescape_u_hex:
  assumes "(of_char c :: nat) < 128"
  shows "unescape_u (CHR ''0'' # CHR ''0'' # hex_digit (of_char c div 16) # hex_digit (of_char c mod 16) # r) = Some ([c], r)"
proof -
  have "hex_val (CHR ''0'') = Some 0" by (simp add: hex_val_def)
  then show ?thesis using assms by (simp add: unescape_u_def hex_val_digit utf8_def)
qed

lemma parse_string_plain:
  "(of_char c :: nat) \<ge> 32 \<Longrightarrow> c \<notin> {CHR 0x22, CHR 0x5C} \<Longrightarrow>
     parse_string (Suc f) (c # r) = map_option (\<lambda>(t, r). (c # t, r)) (parse_string f r)"
  by simp

lemma parse_string_escape:
  "parse_string (Suc f) (json_escape c @ r) = map_option (\<lambda>(t, r). (c # t, r)) (parse_string f r)"
proof (cases "c \<in> {CHR 0x22, CHR 0x5C, CHR 0x08, CHR 0x0C, CHR 0x0A, CHR 0x0D, CHR 0x09}")
  case True
  then show ?thesis by (auto simp: json_escape_def simple_escape_def)
next
  case common: False
  show ?thesis
  proof (cases "(of_char c :: nat) < 32 \<or> c \<in> {CHR ''<'', CHR ''>'', CHR ''&''}")
    case True
    then have "(of_char c :: nat) < 128" by auto
    moreover have "json_escape c = [CHR 0x5C, CHR ''u'', CHR ''0'', CHR ''0'', hex_digit (of_char c div 16), hex_digit (of_char c mod 16)]"
      using common True by (simp add: json_escape_def hex_digit_def Let_def)
    ultimately show ?thesis using unescape_u_hex [of c r] by simp
  next
    case False
    with common show ?thesis by (simp add: json_escape_def)
  qed
qed

lemma parse_string_json:
  "length t < f \<Longrightarrow> parse_string f (concat (map json_escape t) @ CHR 0x22 # r) = Some (t, r)"
proof (induction t arbitrary: f)
  case Nil
  then show ?case by (cases f) simp_all
next
  case (Cons c t)
  then obtain g where "f = Suc g" "length t < g" by (cases f) auto
  with Cons.IH show ?case by (simp add: parse_string_escape)
qed

lemma length_escaped: "length t \<le> length (concat (map json_escape t))"
  by (induction t) (auto simp: json_escape_def Let_def)

subsection \<open>Numbers\<close>

lemma dec_nat_hd: "hd (dec_nat n) = CHR ''0'' \<longleftrightarrow> n = 0"
proof (induction n rule: dec_nat.induct)
  case (1 n)
  have "digit n = CHR ''0'' \<longleftrightarrow> n = 0" if "n < 10"
  proof -
    have "(of_char (digit n) :: nat) = 48 + n" using that by (simp add: digit_def)
    moreover have "(of_char (CHR ''0'') :: nat) = 48" by simp
    ultimately show ?thesis by (metis add_cancel_right_right of_char_eq_iff)
  qed
  with 1 show ?case by (cases "n < 10") (auto simp: dec_nat.simps [of n])
qed

definition delimited :: "string \<Rightarrow> bool" where
  "delimited r \<longleftrightarrow> r \<noteq> [] \<and> hd r \<in> {CHR '','', CHR ''}''}"

lemma digits_of_dec: "delimited r \<Longrightarrow> digits_of (dec_nat n @ r) = dec_nat n"
  by (cases r) (auto simp: delimited_def digits_of_def takeWhile_append is_digit_char_def dest!: dec_nat_digits)

lemma parse_number_dec:
  assumes "delimited r"
  shows "parse_number (dec i @ r) = Some (dec i, r)"
proof -
  define n where "n = nat \<bar>i\<bar>"
  have sgn: "(if has_prefix (dec i @ r) ''-'' then ''-'' else []) = (if i < 0 then ''-'' else [])"
    using minus_not_digit [of n] by (cases "i < 0"; cases "dec_nat n") (auto simp: dec_def n_def)
  have s1: "drop (length (if i < 0 then ''-'' else [])) (dec i @ r) = dec_nat n @ r"
    by (simp add: dec_def n_def)
  have "dec_nat 0 = ''0''" by code_simp
  then have ip: "(if has_prefix (dec_nat n @ r) ''0'' then ''0'' else digits_of (dec_nat n @ r)) = dec_nat n"
    using dec_nat_hd [of n] digits_of_dec [OF assms, of n] by (cases "dec_nat n") auto
  obtain c z where "r = c # z" "c = CHR '','' \<or> c = CHR ''}''"
    using assms by (cases r) (auto simp: delimited_def)
  then show ?thesis
    unfolding parse_number_def Let_def sgn s1 ip by (elim disjE) (simp_all add: dec_def n_def)
qed

subsection \<open>Values and objects\<close>

text \<open>A piece of text that is read as the value, up to the delimiter after it.\<close>

definition reads_as :: "string \<Rightarrow> json \<Rightarrow> bool" where
  "reads_as w v \<longleftrightarrow> (\<forall>f r. delimited r \<longrightarrow> parse_json (Suc f) (w @ r) = Some (v, r))"

lemma skip_ws_other: "\<not> json_ws c \<Longrightarrow> skip_ws (c # s) = c # s"
  by (simp add: skip_ws_def)

lemma reads_string: "reads_as (json_string t) (JStr t)"
  unfolding reads_as_def
proof (intro allI impI)
  fix f r
  show "parse_json (Suc f) (json_string t @ r) = Some (JStr t, r)"
    using parse_string_json [of t "length (concat (map json_escape t) @ CHR 0x22 # r) + 1" r] length_escaped [of t]
    by (simp add: parse_json.simps(2) json_string_def dquote_def skip_ws_other json_ws_def)
qed

lemma reads_bool: "reads_as (fmt_t b) (JBool b)"
  by (auto simp: reads_as_def fmt_t_def parse_json.simps(2) skip_ws_other json_ws_def has_prefix_def)

lemma reads_number: "reads_as (dec i) (JNum (dec i))"
  unfolding reads_as_def
proof (intro allI impI)
  fix f r assume r: "delimited r"
  obtain c w where w: "dec i = c # w" by (cases "dec i") auto
  have c: "is_digit_char c \<or> c = CHR ''-''" using dec_chars [of c i] w by simp
  then have "\<not> json_ws c" "c \<notin> {CHR 0x22, CHR ''{'', CHR ''['', CHR ''n'', CHR ''t'', CHR ''f''}"
    by (auto simp: json_ws_def is_digit_char_def)
  then show "parse_json (Suc f) (dec i @ r) = Some (JNum (dec i), r)"
    using parse_number_dec [OF r, of i]
    by (simp add: w parse_json.simps(2) skip_ws_other has_prefix_def)
qed

definition key_ok :: "string \<Rightarrow> bool" where
  "key_ok k \<longleftrightarrow> concat (map json_escape k) = k"

lemma parse_members_written:
  assumes "list_all (\<lambda>(k, w, v). key_ok k \<and> reads_as w v) ms" "ms \<noteq> []" "length ms < f"
  shows "parse_members f (Join (map (\<lambda>(k, w, v). dquote k @ '':'' @ w) ms) '','' @ CHR ''}'' # r)
           = Some (map (\<lambda>(k, w, v). (k, v)) ms, r)"
  using assms
proof (induction ms arbitrary: f)
  case (Cons m ms)
  obtain k w v where m: "m = (k, w, v)" by (cases m)
  obtain g where f: "f = Suc (Suc g)" using Cons.prems(3) by (cases f; cases "f - 1") auto
  have key: "parse_string h (k @ CHR 0x22 # z) = Some (k, z)" if "length k < h" for h z
    using Cons.prems(1) parse_string_json [OF that, of z] by (simp add: m key_ok_def)
  have val: "parse_json (Suc g) (w @ z) = Some (v, z)" if "delimited z" for z
    using Cons.prems(1) that by (simp add: m reads_as_def)
  show ?case
  proof (cases ms)
    case Nil
    then show ?thesis using key val
      by (simp add: m f parse_members.simps(2) dquote_def skip_ws_other json_ws_def delimited_def)
  next
    case (Cons m' ms')
    let ?rest = "Join (map (\<lambda>(k, w, v). dquote k @ '':'' @ w) ms) '','' @ CHR ''}'' # r"
    have "parse_members (Suc g) ?rest = Some (map (\<lambda>(k, w, v). (k, v)) ms, r)"
      using Cons.IH [of "Suc g"] Cons.prems Cons f by simp
    then show ?thesis using key val
      by (simp add: m f Cons parse_members.simps(2) dquote_def skip_ws_other json_ws_def delimited_def)
  qed
qed simp

lemma length_members: "length ms \<le> length (Join (map (\<lambda>(k, w, v). dquote k @ '':'' @ w) ms) '','')"
proof (induction ms)
  case (Cons m ms)
  then show ?case by (cases m; cases ms) (auto simp: dquote_def)
qed simp

lemma json_whole_object:
  assumes "list_all (\<lambda>(k, w, v). key_ok k \<and> reads_as w v) ms" "ms \<noteq> []"
  shows "json_whole (json_object (map (\<lambda>(k, w, v). (k, w)) ms)) = Some (JObj (map (\<lambda>(k, w, v). (k, v)) ms))"
proof -
  define b where "b = Join (map (\<lambda>(k, w, v). dquote k @ '':'' @ w) ms) '','' @ ''}''"
  have b: "json_object (map (\<lambda>(k, w, v). (k, w)) ms) = CHR ''{'' # b"
    by (simp add: json_object_def b_def comp_def case_prod_unfold)
  have "length ms \<le> length b" using length_members [of ms] by (simp add: b_def)
  then have p: "parse_members (2 * length b + 3) b = Some (map (\<lambda>(k, w, v). (k, v)) ms, [])"
    using parse_members_written [OF assms, of "2 * length b + 3" "[]"] by (simp add: b_def)
  obtain q where "b = CHR 0x22 # q" using assms(2) by (cases ms; cases "tl ms") (auto simp: b_def dquote_def)
  then have "\<not> has_prefix (skip_ws b) ''}''" by (simp add: skip_ws_other json_ws_def)
  with p have "parse_json (Suc (2 * length b + 3)) (CHR ''{'' # b) = Some (JObj (map (\<lambda>(k, w, v). (k, v)) ms), [])"
    unfolding parse_json.simps(2) by (simp add: skip_ws_other json_ws_def)
  moreover have "2 * length (CHR ''{'' # b) + 2 = Suc (2 * length b + 3)" by simp
  ultimately show ?thesis unfolding b json_whole_def by (simp only: option.case prod.case skip_ws_def dropWhile.simps simp_thms if_True)
qed

section \<open>The outcome of a membership change\<close>

text \<open>
  What a membership change may return for an event: the transport's error as it is; for status 503
  that the target is not the leader; success exactly for a 200 whose body decodes.
\<close>

definition change_outcome :: "'a setter \<Rightarrow> 'a \<Rightarrow> event \<Rightarrow> 'a result \<Rightarrow> bool" where
  "change_outcome f z e r \<longleftrightarrow>
     (case answer e of
        Inl x \<Rightarrow> r = Inl x
      | Inr resp \<Rightarrow>
          if Resp_Status resp = 503 then \<exists>l. r = Inl (ErrNotLeader l)
          else (\<exists>x. r = Inr x) \<longleftrightarrow>
                 Resp_Status resp = 200 \<and> (\<exists>v. json_first (Resp_Body resp) = Some v \<and> snd (f v z)))"

lemma change_outcome_result: "change_outcome f z e (result_of (changed_member what decoding f z) e)"
  by (auto simp: change_outcome_def result_of_def changed_member_def fetched_def Decode_def not_leader_def
      split: sum.splits option.splits prod.splits)

lemma exchange_change_outcome:
  "\<exists>e. log (snd (run_state (exchange S tok m u b (changed_member what d f z)) s)) = log s @ [e] \<and>
     http_to m u b e \<and> token_sent tok e \<and>
     change_outcome f z e (fst (run_state (exchange S tok m u b (changed_member what d f z)) s))"
  by (metis exchange_one prod.collapse change_outcome_result)

section \<open>Membership requests\<close>

text \<open>
  The membership requests of the client carry what it was given: the body of an add-node,
  join, leave or remove-node request, whatever bytes the address has (quotes, backslashes and
  control characters included), is one well-formed JSON object with exactly the fields of
  the call, read back to the same identifier, address and flag.
\<close>

lemma membership_bodies:
  "json_whole (add_node_body i a p)
     = Some (JObj [(''node_id'', JNum (dec i)), (''addr'', JStr a), (''promote'', JBool p)]) \<and>
   json_whole (join_node_body i a) = Some (JObj [(''node_id'', JNum (dec i)), (''addr'', JStr a)]) \<and>
   json_whole (node_id_body i) = Some (JObj [(''node_id'', JNum (dec i))]) \<and>
   json_int (dec i) = Some i"
proof (intro conjI)
  have keys: "key_ok ''node_id''" "key_ok ''addr''" "key_ok ''promote''"
    unfolding key_ok_def by code_simp+
  note written = keys reads_string reads_bool reads_number
  show "json_whole (add_node_body i a p)
     = Some (JObj [(''node_id'', JNum (dec i)), (''addr'', JStr a), (''promote'', JBool p)])"
    using json_whole_object [of "[(''node_id'', dec i, JNum (dec i)), (''addr'', json_string a, JStr a), (''promote'', fmt_t p, JBool p)]"]
    by (simp add: written add_node_body_def)
  show "json_whole (join_node_body i a) = Some (JObj [(''node_id'', JNum (dec i)), (''addr'', JStr a)])"
    using json_whole_object [of "[(''node_id'', dec i, JNum (dec i)), (''addr'', json_string a, JStr a)]"]
    by (simp add: written join_node_body_def)
  show "json_whole (node_id_body i) = Some (JObj [(''node_id'', JNum (dec i))])"
    using json_whole_object [of "[(''node_id'', dec i, JNum (dec i))]"]
    by (simp add: written node_id_body_def)
  have "json_int (dec i) = undec (dec i)" unfolding json_int_def undec_def by (cases "dec i") (auto simp: Let_def)
  then show "json_int (dec i) = Some i" by simp
qed


end
