(* ===== verification/Certificates.thy ===== *)
theory Certificates
  imports Secrets
begin

text \<open>
  The certificate bundle of \<^verbatim>\<open>internal/hyperbytedb/tls.go\<close>: its parts belong together, and the names
  in it cover the hosts the operator and the nodes use, also those of nodes added later.
\<close>

text \<open>A DNS name of a certificate covers a host: equal, or a wildcard for its first label.\<close>

definition dns_covers :: "string \<Rightarrow> string \<Rightarrow> bool" where
  "dns_covers pat host \<longleftrightarrow>
     pat = host \<or>
     (let l = takeWhile (\<lambda>ch. ch \<noteq> CHR ''.'') host
      in has_prefix pat ''*.'' \<and> l \<noteq> [] \<and> host = l @ drop 1 pat)"

lemma wildcard_covers: "l \<noteq> [] \<Longrightarrow> CHR ''.'' \<notin> set l \<Longrightarrow> dns_covers (''*.'' @ d) (l @ CHR ''.'' # d)"
  by (auto simp: dns_covers_def has_prefix_def takeWhile_append Let_def takeWhile_eq_all_conv)

lemma names_cover:
  assumes "CHR ''.'' \<notin> set (Name c)"
  shows "list_ex (\<lambda>p. dns_covers p (pod_host c i)) (cert_dns_names c (Namespace c) n)"
    and "list_ex (\<lambda>p. dns_covers p (ClientServiceName c @ ''.'' @ Namespace c @ ''.svc.cluster.local''))
           (cert_dns_names c (Namespace c) n)"
proof -
  have "CHR ''.'' \<notin> set (pod_name c i)" "pod_name c i \<noteq> []"
    using assms dot_not_in_dec by (auto simp: pod_name_def StatefulSetName_def)
  then have "dns_covers (''*.'' @ HeadlessServiceName c @ ''.'' @ Namespace c @ ''.svc.cluster.local'') (pod_host c i)"
    using wildcard_covers [of "pod_name c i"] by (simp add: pod_host_def pod_name_def)
  then show "list_ex (\<lambda>p. dns_covers p (pod_host c i)) (cert_dns_names c (Namespace c) n)"
    by (simp add: cert_dns_names_def Let_def)
  show "list_ex (\<lambda>p. dns_covers p (ClientServiceName c @ ''.'' @ Namespace c @ ''.svc.cluster.local''))
           (cert_dns_names c (Namespace c) n)"
    by (simp add: cert_dns_names_def dns_covers_def Let_def)
qed

lemma run_attempt_Inr:
  assumes "run_state (attempt m f) s = (Inr x, t)"
  obtains a u where "run_state m s = (Inr a, u)" "run_state (f a) u = (Inr x, t)"
  using assms by (cases "run_state m s") (auto simp: attempt_def split: sum.splits)

lemma run_wrapped_Inr: "run_state (wrapped msg m) s = (Inr x, t) \<longleftrightarrow> run_state m s = (Inr x, t)"
proof (cases "run_state m s")
  case (Pair r u)
  then show ?thesis by (cases r) (auto simp: wrapped_def)
qed

lemma run_bind_obtain:
  assumes "run_state (State_Monad.bind m f) s = (x, t)"
  obtains a u where "run_state m s = (a, u)" "run_state (f a) u = (x, t)"
  using assms by (cases "run_state m s") auto

text \<open>A certificate the library made, in some state of the outside.\<close>

definition created :: "'w sys \<Rightarrow> cert_template \<Rightarrow> cert_template + string \<Rightarrow> string \<Rightarrow> string \<Rightarrow> string \<Rightarrow> bool" where
  "created S tmpl parent key signer der \<longleftrightarrow> (\<exists>w w'. x509_create S tmpl parent key signer w = (Inr der, w'))"

lemma created_call: "run_state (call (x509_create S tmpl parent key signer)) s = (Inr x, t) \<Longrightarrow> created S tmpl parent key signer x"
  by (auto simp: call_def created_def split: prod.splits)

text \<open>The steps of a successful run.\<close>

lemma tls_steps:
  assumes "run_state (BuildSelfSignedTLSSecret S c ns n) s = (Inr sec, t)"
  obtains t1 t2 t3 t4 caKey caDER key caCert der keyDER where
    "created S (ca_template c t1 t2) (Inl (ca_template c t1 t2)) caKey caKey caDER"
    "x509_parse S caDER = Inr caCert"
    "created S (server_template c (cert_dns_names c ns n) t3 t4) (Inr caCert) key caKey der"
    "x509_marshal_key S key = Inr keyDER"
    "sec = \<lparr> Sec_Meta = new_meta (TLSSecretName c) ns (CommonLabels c), Sec_Type = ''kubernetes.io/tls'',
       Sec_Data = [''tls.crt'' \<mapsto> pem_encode S ''CERTIFICATE'' der,
         ''tls.key'' \<mapsto> pem_encode S ''EC PRIVATE KEY'' keyDER, ''ca.crt'' \<mapsto> pem_encode S ''CERTIFICATE'' caDER] \<rparr>"
proof -
  have "\<not> i32 (3 + n) < 0" using assms by (auto simp: BuildSelfSignedTLSSecret_def)
  note run = assms [unfolded BuildSelfSignedTLSSecret_def if_not_P [OF this] Let_def]
  from run show thesis
    by (elim run_attempt_Inr run_bind_obtain)
      (simp only: run_wrapped_Inr run_state_return prod.inject sum.inject,
       rule that, rule created_call, assumption, blast, rule created_call, assumption, blast, blast)
qed

section \<open>Properties\<close>

text \<open>
  C38. A self-signed bundle hangs together. When building it succeeds, the certificate of the CA
  is signed by its own key, the server's certificate is made for the server's key and signed
  by that CA and key, the Secret holds these three, and the server's certificate covers the
  client Service and the host of every ordinal, also of nodes added by scaling up later (when
  the cluster's name has no dot, which a Service name cannot have).
\<close>

theorem BuildSelfSignedTLSSecret_chain:
  assumes "run_state (BuildSelfSignedTLSSecret S c (Namespace c) n) s = (Inr sec, t)"
    and "CHR ''.'' \<notin> set (Name c)"
  shows "\<exists>caT caKey caDER caCert tmpl key der keyDER.
      created S caT (Inl caT) caKey caKey caDER \<and> Crt_IsCA caT \<and> x509_parse S caDER = Inr caCert \<and>
      created S tmpl (Inr caCert) key caKey der \<and> \<not> Crt_IsCA tmpl \<and> x509_marshal_key S key = Inr keyDER \<and>
      Sec_Data sec = [''tls.crt'' \<mapsto> pem_encode S ''CERTIFICATE'' der,
        ''tls.key'' \<mapsto> pem_encode S ''EC PRIVATE KEY'' keyDER, ''ca.crt'' \<mapsto> pem_encode S ''CERTIFICATE'' caDER] \<and>
      Meta_Name (Sec_Meta sec) = TLSSecretName c \<and>
      list_ex (\<lambda>p. dns_covers p (ClientServiceName c @ ''.'' @ Namespace c @ ''.svc.cluster.local'')) (Crt_DNSNames tmpl) \<and>
      (\<forall>i. list_ex (\<lambda>p. dns_covers p (pod_host c i)) (Crt_DNSNames tmpl))"
  using assms(1)
proof (rule tls_steps, goal_cases)
  case (1 t1 t2 t3 t4 caKey caDER key caCert der keyDER)
  let ?ca = "ca_template c t1 t2" and ?srv = "server_template c (cert_dns_names c (Namespace c) n) t3 t4"
  have "Crt_IsCA ?ca" "\<not> Crt_IsCA ?srv" "Crt_DNSNames ?srv = cert_dns_names c (Namespace c) n"
    by (simp_all add: ca_template_def server_template_def)
  moreover have "Meta_Name (Sec_Meta sec) = TLSSecretName c" using 1(5) by (simp add: new_meta_def)
  moreover have "Sec_Data sec = [''tls.crt'' \<mapsto> pem_encode S ''CERTIFICATE'' der,
      ''tls.key'' \<mapsto> pem_encode S ''EC PRIVATE KEY'' keyDER, ''ca.crt'' \<mapsto> pem_encode S ''CERTIFICATE'' caDER]"
    using 1(5) by simp
  moreover note names_cover [OF assms(2)]
  ultimately show ?case using 1(1-4) by metis
qed

theorem BuildSelfSignedTLSSecret_chain_witness:
  "\<exists>sec t tmpl ca key caKey.
     run_state (BuildSelfSignedTLSSecret (sim_sys no_semver) (new_cluster ''t'' ''p'') ''p'' 3) (start sim_empty) = (Inr sec, t) \<and>
     created (sim_sys no_semver) tmpl (Inr ca) key caKey ''cert'' \<and>
     list_ex (\<lambda>p. dns_covers p (pod_host (new_cluster ''t'' ''p'') 7)) (Crt_DNSNames tmpl)"
proof -
  let ?S = "sim_sys no_semver" and ?c = "new_cluster ''t'' ''p''"
  have ns: "Namespace ?c = ''p''" "CHR ''.'' \<notin> set (Name ?c)" by (simp_all add: new_cluster_def new_meta_def)
  have "\<not> i32 (3 + 3) < 0" by code_simp
  then obtain sec t where run: "run_state (BuildSelfSignedTLSSecret ?S ?c (Namespace ?c) 3) (start sim_empty) = (Inr sec, t)"
    by (simp add: BuildSelfSignedTLSSecret_def attempt_def wrapped_def call_def Now_def sim_sys_def Let_def)
  have "der = ''cert''" if "created ?S tmpl p key signer der" for tmpl p key signer der
    using that by (auto simp: created_def sim_sys_def)
  with BuildSelfSignedTLSSecret_chain [OF run ns(2)] run show ?thesis unfolding ns(1) by metis
qed

end
