(* ===== verification/Spec2Isabelle.thy ===== *)
theory Spec2Isabelle
  imports Converge Requeue Rbac Evacuation Rollout Webhook Semver_Ref Client_Facts Certificates
begin

text \<open>
  A verification development of the HyperbyteDB Kubernetes operator (Go, under \<^verbatim>\<open>src/\<close>).

  \<^bold>\<open>The program.\<close> Three controllers reconcile three custom resources. The cluster controller
  (\<^verbatim>\<open>internal/controller/hyperbytedbcluster_controller.go\<close>) keeps Secrets, a ConfigMap, Services, a
  StatefulSet, a proxy Deployment, a disruption budget, an autoscaler and a ServiceMonitor in the
  state a HyperbytedbCluster asks for; it drains nodes before it shrinks the StatefulSet, restarts
  pods one at a time behind the proxies, maintains the Raft membership over the nodes' HTTP API,
  watches replication and reports status. The backup and restore controllers run Jobs that copy
  snapshots to and from S3. A webhook defaults and validates clusters. \<^verbatim>\<open>cmd/main.go\<close> registers
  these with the manager of controller-runtime and starts it. The builders of the
  objects, the rendering of the database's configuration, version gating, credentials and the HTTP
  client are in \<^verbatim>\<open>internal/hyperbytedb\<close>.

  \<^bold>\<open>The model.\<close> Values of Go's structs are records with the same fields (a pointer is an option),
  enumerations are datatypes, \<^verbatim>\<open>int32\<close>, \<^verbatim>\<open>int64\<close> and \<^verbatim>\<open>uint64\<close> are integers with the wrap-around
  written out where the code computes, times are nanoseconds, strings are lists of bytes, a
  map is a partial function. An error is a value; a panic (nil dereference, negative \<^verbatim>\<open>make\<close>) is an
  error value too. A function with effects is a program of the state monad over a \<^verbatim>\<open>world\<close>: the
  external state and a log of the calls made. Everything outside the repository (API server, HTTP
  transport, clock, randomness, X.509, semver, the helpers of controller-runtime and
  apimachinery) is one parameter, the record \<^typ>\<open>'w sys\<close>, of which nothing is assumed unless a
  theorem says so; the assumptions are locales or named predicates, and each is discharged for
  the simulated outside of theory \<^verbatim>\<open>Sim\<close>. A client call that decodes its answer into the object it
  was given returns that object, and the pass goes on with it, as in the source. Loops of the source run
  over finite lists, so every program is total. Only the JSON reader has fuel, two units for each byte of
  the text and two more; \<^verbatim>\<open>Client_Facts\<close> shows that more fuel never changes a result.

  \<^bold>\<open>The theories.\<close>
  \<^item> \<^verbatim>\<open>Prelude\<close>: integers, options, loops, a Hoare calculus (\<open>triple\<close>, \<open>keeps\<close>) and its rule collections.
  \<^item> \<^verbatim>\<open>Go_Strings\<close>, \<^verbatim>\<open>Go_Crypto\<close>, \<^verbatim>\<open>Json\<close>: what is used of Go's \<^verbatim>\<open>strings\<close>, \<^verbatim>\<open>fmt\<close>, \<^verbatim>\<open>crypto/sha256\<close>,
    \<^verbatim>\<open>encoding/base64\<close> and \<^verbatim>\<open>encoding/json\<close>.
  \<^item> \<^verbatim>\<open>K8s_Types\<close>, \<^verbatim>\<open>Api_Types\<close>: Kubernetes objects with the fields used; the types of \<^verbatim>\<open>api/v1alpha1\<close>.
  \<^item> \<^verbatim>\<open>World\<close>, \<^verbatim>\<open>Trace\<close>: the outside, the log, what a program may add to it (\<open>emits\<close>), symbolic execution
    (\<open>traces\<close>), justification of each event by earlier ones (\<open>each\<close>).
  \<^item> \<^verbatim>\<open>Sim\<close>, \<^verbatim>\<open>Store\<close>: a concrete outside; the locale \<open>object_store\<close> with the laws of one kind of API
    object, interpreted on the simulated kinds.
  \<^item> \<^verbatim>\<open>Naming\<close> (\<^verbatim>\<open>labels.go\<close>, \<^verbatim>\<open>image.go\<close>, names), \<^verbatim>\<open>Compat\<close> (\<^verbatim>\<open>compat.go\<close>) with the locale \<open>semver_laws\<close>,
    interpreted in \<^verbatim>\<open>Semver_Ref\<close> on an executable semver order.
  \<^item> \<^verbatim>\<open>Config\<close> (\<^verbatim>\<open>configmap.go\<close>): the TOML document, read back, and its digest. \<^verbatim>\<open>Webhook\<close>
    (\<^verbatim>\<open>hyperbytedbcluster_webhook.go\<close>): defaulting and validation against \<open>admissible\<close>.
  \<^item> \<^verbatim>\<open>Secrets\<close> (\<^verbatim>\<open>auth.go\<close>, \<^verbatim>\<open>tls.go\<close>), \<^verbatim>\<open>Workloads\<close> (\<^verbatim>\<open>service.go\<close>, \<^verbatim>\<open>statefulset.go\<close>, \<^verbatim>\<open>proxy.go\<close>,
    \<^verbatim>\<open>servicemonitor.go\<close>): the generated objects and that they fit together.
  \<^item> \<^verbatim>\<open>Node_Client\<close> (\<^verbatim>\<open>client.go\<close>): one request per call, the token, the reading of the answers.
    \<^verbatim>\<open>Client_Facts\<close>: enough fuel, requests read back to what was given, outcomes of membership changes.
    \<^verbatim>\<open>Certificates\<close>: the TLS bundle is a chain and covers the hosts.
  \<^item> \<^verbatim>\<open>Scale_Down\<close>: the drain gate, departure plan and deletions. \<^verbatim>\<open>Evacuation\<close>: that the gate opens, from
    the locale \<open>evacuation\<close> with what the database promises, interpreted on a simulated database whose
    nodes react to the requests. \<^verbatim>\<open>Rolling_Restart\<close>: the phases, the
    abstract machine they refine, and the rollout together with the StatefulSet controller;
    \<^verbatim>\<open>Rollout\<close>: what lets a pod be left behind, for what a pass may wait, and how often it can advance.
    \<^verbatim>\<open>Membership\<close> (\<^verbatim>\<open>member.go\<close> and the controller): members, Raft membership, replication, failover;
    the locale \<open>condition_laws\<close>.
  \<^item> \<^verbatim>\<open>Resources\<close>: create-or-update of each object; \<^verbatim>\<open>Converge\<close>: that passes settle the objects, from
    \<open>object_store\<close>, and the StatefulSet.
    \<^verbatim>\<open>Cluster_Controller\<close>: the whole pass, \<^verbatim>\<open>Reconcile\<close>, and what it may lose; the locales \<open>ordinary_calls\<close>
    and \<open>pass_calls\<close> list the calls a pass makes, once for every property of events.
  \<^item> \<^verbatim>\<open>Backup\<close> (\<^verbatim>\<open>s3_transfer.go\<close>, \<^verbatim>\<open>hyperbytedbbackup_controller.go\<close>), \<^verbatim>\<open>Restore\<close>
    (\<^verbatim>\<open>hyperbytedbrestore_controller.go\<close>): passes as machines of phases; progress in the locale
    \<open>restore_store\<close>. \<^verbatim>\<open>Requeue\<close>: when a pass of the three controllers asks to be called again, and what
    it read when it does not.
  \<^item> \<^verbatim>\<open>Startup\<close> (\<^verbatim>\<open>cmd/main.go\<close>, \<^verbatim>\<open>SetupWithManager\<close>): flags, options, the calls of the start. \<^verbatim>\<open>Rbac\<close>: the
    permissions the markers ask for, and that every call of a pass is granted (\<open>pass_calls\<close> interpreted).
  This theory holds what spans the controllers.

  \<^bold>\<open>What is shown.\<close> Safety, for every outside: no volume or replica is given up without the
  evidence that its node has left; every write of a restore or backup pass is justified by what
  the pass read; add-node goes to the leader only; restarts go one pod at a time. Refinement: the
  passes of the rolling restart and the restore follow their phase machines. Functional
  correctness of the pure parts: configuration, webhook, versions, templates, departure plan,
  cluster state, S3 paths. Progress and convergence: of restores and objects on an API server that
  stores what is written, of a shrink on a database that evacuates; of rolling restarts up to a list of
  reasons to wait. The StatefulSet is as desired after two passes, whatever was stored. No live cluster is
  forgotten: a pass fails, asks for another, or read that the cluster is gone, paused or deleted. The start in order, and every call within the operator's role.
  Some theorems state what the code does where a comment or a user would expect otherwise:
  automatic failover that does not fire, a restore whose scale-down the cluster controller undoes,
  a reported backup path that is not the upload's, the end of a restore that is lost when its status
  update is refused, a rolling restart that waits for a pod without
  an address.

  \<^bold>\<open>Not modelled.\<close> The inside of controller-runtime (the manager is a parameter of the start), the
  parsing of the command line, the generated deep copies, the e2e helpers and stub; log lines; the
  containers and shell scripts beyond their texts; the scheduling of passes: a theorem is about
  one pass, or about passes in the order it states; errors' exact wording inside JSON and HTTP libraries.
\<close>

section \<open>A restore against the cluster controller\<close>

lemma statefulset_rescaled:
  assumes "map_of (sim_sts w) (sts_key c) = Some t" "key_of (Sts_Meta t) = sts_key c"
    and "Sts_PodManagementPolicy t = podManagementPolicy c (clusterMetadataEnabled c)"
  shows "map_option Sts_Replicas (map_of (sim_sts (after_statefulset sv c h w)) (sts_key c)) = Some (Some (replicas_of c))"
proof -
  have policy: "Sts_PodManagementPolicy (owned_sts sv c h) = podManagementPolicy c (clusterMetadataEnabled c)"
    by (simp add: owned_sts_def Let_def desired_policy)
  have "map_of (sim_sts (after_statefulset sv c h w)) (sts_key c) = Some (merge_sts t (desired_sts (sim_sys sv) c h))"
    using after_statefulset_settle [of w c sv h] assms policy by (simp add: sts_key_def settle_def merge_owned)
  then show ?thesis by (simp add: merged_replicas)
qed

text \<open>
  C22. A restore does not keep the cluster down: its first pass scales the StatefulSet to zero
  and waits for the pods to go, and the cluster controller's next reconciliation of the
  StatefulSet sets it back to the spec's count, since nothing in the cluster tells it of the
  restore.
\<close>

theorem restore_scale_down_undone:
  assumes "restore_ready w r c t" "RPhase r \<in> {RestorePhaseUnset, RestorePhasePending}"
    and "Sts_PodManagementPolicy t = podManagementPolicy c (clusterMetadataEnabled c)"
  shows "map_option Sts_Replicas (map_of (sim_sts (after_pass sv (key_of (RMeta r)) w)) (sts_key c)) = Some (Some 0) \<and>
     map_option Sts_Replicas (map_of (sim_sts (after_statefulset sv c h (after_pass sv (key_of (RMeta r)) w))) (sts_key c))
       = Some (Some (replicas_of c))"
proof -
  have down: "map_of (sim_sts (after_pass sv (key_of (RMeta r)) w)) (sts_key c) = Some (t\<lparr> Sts_Replicas := Some 0 \<rparr>)"
    using pass_scale_down [OF assms(1,2)] by blast
  moreover have "key_of (Sts_Meta (t\<lparr> Sts_Replicas := Some 0 \<rparr>)) = sts_key c"
    using assms(1) by (simp add: restore_ready_def)
  ultimately show ?thesis using statefulset_rescaled [OF down] assms(3) by simp
qed

definition restored_sts :: sts where
  "restored_sts = pending_sts\<lparr> Sts_PodManagementPolicy := podManagementPolicy (new_cluster ''t'' ''p'') (clusterMetadataEnabled (new_cluster ''t'' ''p'')) \<rparr>"

theorem restore_scale_down_undone_witness:
  "map_option Sts_Replicas (map_of (sim_sts (after_statefulset plain_semver (new_cluster ''t'' ''p'') ''h''
     (after_pass plain_semver (key_of (RMeta (restore_example RestorePhasePending)))
        ((restore_sim RestorePhasePending)\<lparr> sim_sts := [(nn_of (new_cluster ''t'' ''p'') ''t'', restored_sts)] \<rparr>))))
     (sts_key (new_cluster ''t'' ''p''))) = Some (Some 1)"
proof -
  let ?w = "(restore_sim RestorePhasePending)\<lparr> sim_sts := [(nn_of (new_cluster ''t'' ''p'') ''t'', restored_sts)] \<rparr>"
  have ready: "restore_ready ?w (restore_example RestorePhasePending) (new_cluster ''t'' ''p'') restored_sts"
    by (simp add: restore_ready_def restore_sim_def restore_example_def cluster_key_def sts_key_def key_of_def
        nn_of_def StatefulSetName_def pending_sts_def restored_sts_def new_cluster_def)
  have one: "replicas_of (new_cluster ''t'' ''p'') = 1" by code_simp
  from restore_scale_down_undone [OF ready, of plain_semver "''h''"] one show ?thesis
    by (simp add: restored_sts_def restore_example_def)
qed

end
